(* ===== verification/Prelude.thy ===== *)
theory Prelude
  imports Main "HOL-Library.Word"
begin

text \<open>
  Shared vocabulary of the development: the machine integers and byte strings of the
  program, Rust's \<open>Result\<close> (with a panic as a third outcome), the slicing operation of
  byte buffers, decimal formatting, big-endian integers and the interface of a
  fixed-width encoding, and the lemmas on them that every component uses.
\<close>

named_theorems wire "layout equations of the wire format"
named_theorems outcome "rewriting of results, error conversions and slices"

section \<open>Machine integers and bytes\<close>

type_synonym u8 = "8 word"
type_synonym u16 = "16 word"
type_synonym u32 = "32 word"
type_synonym u64 = "64 word"
type_synonym usize = "64 word"
type_synonym bytes = "u8 list"

definition usize_len :: "'a list \<Rightarrow> usize" where
  "usize_len xs = of_nat (length xs)"

text \<open>
  No Rust allocation is larger than \<open>isize::MAX\<close> bytes; \<open>rust_sized\<close> states this
  language guarantee for a byte string.
\<close>

definition rust_sized :: "bytes \<Rightarrow> bool" where
  "rust_sized bs \<longleftrightarrow> length bs < 2 ^ 63"

lemma unat_usize_len: "length xs < 2 ^ 64 \<Longrightarrow> unat (usize_len xs) = length xs"
  by (simp add: usize_len_def unat_of_nat)

lemma unat_usize_len_rust [simp]: "rust_sized bs \<Longrightarrow> unat (usize_len bs) = length bs"
  by (simp add: rust_sized_def unat_usize_len)

lemma usize_len_Nil [simp]: "usize_len [] = 0"
  by (simp add: usize_len_def)

lemma unat_of_nat_u64: "n < 2 ^ 64 \<Longrightarrow> unat (of_nat n :: u64) = n"
  by (simp add: unat_of_nat)

lemma unat_minus_1_u64 [simp]: "unat (- 1 :: u64) = 18446744073709551615"
  by (simp add: unsigned_minus_1_eq_mask mask_eq_exp_minus_1)

lemma unat_u64_add3:
  fixes a b c :: u64
  assumes "unat a + unat b + unat c < 2 ^ 64"
  shows "unat (a + b + c) = unat a + unat b + unat c"
proof -
  have "unat (a + b) = unat a + unat b"
    using assms by (simp add: unat_word_ariths)
  then show ?thesis
    using assms by (simp add: unat_word_ariths)
qed

lemma unat_ucast_u32_u64 [simp]: "unat (ucast (w :: u32) :: u64) = unat w"
  by (simp add: unsigned_ucast_eq take_bit_nat_eq_self unsigned_less [THEN less_le_trans])

lemma unat_u32_lt: "unat (w :: u32) < 2 ^ 32"
  using unsigned_less [of w] by simp

lemma unat_u64_lt: "unat (w :: u64) < 2 ^ 64"
  using unsigned_less [of w] by simp

lemma unat_eq_0_iff: "unat (w :: 'a::len word) = 0 \<longleftrightarrow> w = 0"
  by (simp add: unat_eq_zero)

lemma length_4_conv: "length xs = 4 \<longleftrightarrow> (\<exists>a b c d. xs = [a, b, c, d])"
  by (auto simp: length_Suc_conv eval_nat_numeral)

section \<open>Results\<close>

text \<open>
  Rust's \<open>Result<T, E>\<close> with the abort of a panic as a third outcome: \<open>panic = "abort"\<close>
  in the release profile ends the process, so a panic carries no value.
\<close>

datatype ('a, 'e) res = Ok 'a | Err 'e | Panic

primrec res_bind :: "('a, 'e) res \<Rightarrow> ('a \<Rightarrow> ('b, 'e) res) \<Rightarrow> ('b, 'e) res" where
  "res_bind (Ok x) f = f x"
| "res_bind (Err e) f = Err e"
| "res_bind Panic f = Panic"

primrec map_err :: "('e \<Rightarrow> 'f) \<Rightarrow> ('a, 'e) res \<Rightarrow> ('a, 'f) res" where
  "map_err g (Ok x) = Ok x"
| "map_err g (Err e) = Err (g e)"
| "map_err g Panic = Panic"

primrec is_ok :: "('a, 'e) res \<Rightarrow> bool" where
  "is_ok (Ok x) = True"
| "is_ok (Err e) = False"
| "is_ok Panic = False"

primrec is_err :: "('a, 'e) res \<Rightarrow> bool" where
  "is_err (Ok x) = False"
| "is_err (Err e) = True"
| "is_err Panic = False"

text \<open>
  A function of another crate is a parameter that returns a sum; its error is kept as
  the text the program can format, and \<open>of_ext\<close> turns it into a result.
\<close>

primrec of_ext :: "(string \<Rightarrow> 'e) \<Rightarrow> string + 'a \<Rightarrow> ('a, 'e) res" where
  "of_ext g (Inl e) = Err (g e)"
| "of_ext g (Inr x) = Ok x"

primrec sum_bind :: "'e + 'a \<Rightarrow> ('a \<Rightarrow> 'e + 'b) \<Rightarrow> 'e + 'b" where
  "sum_bind (Inl e) f = Inl e"
| "sum_bind (Inr x) f = f x"

lemma res_bind_eq_Ok [outcome]: "res_bind r f = Ok y \<longleftrightarrow> (\<exists>x. r = Ok x \<and> f x = Ok y)"
  by (cases r) auto

lemma res_bind_eq_Err [outcome]:
  "res_bind r f = Err e \<longleftrightarrow> r = Err e \<or> (\<exists>x. r = Ok x \<and> f x = Err e)"
  by (cases r) auto

lemma res_bind_eq_Panic [outcome]:
  "res_bind r f = Panic \<longleftrightarrow> r = Panic \<or> (\<exists>x. r = Ok x \<and> f x = Panic)"
  by (cases r) auto

lemma map_err_eq_Ok [outcome]: "map_err g r = Ok x \<longleftrightarrow> r = Ok x"
  by (cases r) auto

lemma map_err_eq_Err [outcome]: "map_err g r = Err f \<longleftrightarrow> (\<exists>e. r = Err e \<and> f = g e)"
  by (cases r) auto

lemma map_err_eq_Panic [outcome]: "map_err g r = Panic \<longleftrightarrow> r = Panic"
  by (cases r) auto

lemma of_ext_eq_Ok [outcome]: "of_ext g s = Ok x \<longleftrightarrow> s = Inr x"
  by (cases s) auto

lemma of_ext_eq_Err [outcome]: "of_ext g s = Err f \<longleftrightarrow> (\<exists>e. s = Inl e \<and> f = g e)"
  by (cases s) auto

lemma of_ext_no_panic [simp]: "of_ext g s \<noteq> Panic"
  by (cases s) auto

lemma sum_bind_eq_Inr [outcome]: "sum_bind s f = Inr y \<longleftrightarrow> (\<exists>x. s = Inr x \<and> f x = Inr y)"
  by (cases s) auto

lemma option_or_err_eq_Ok [outcome]:
  "(case x of None \<Rightarrow> Err e | Some v \<Rightarrow> f v) = Ok y \<longleftrightarrow> (\<exists>v. x = Some v \<and> f v = Ok y)"
  by (cases x) auto

lemma if_err_eq_Ok [outcome]: "(if b then Err e else r) = Ok y \<longleftrightarrow> \<not> b \<and> r = Ok y"
  by simp

lemma is_ok_iff: "is_ok r \<longleftrightarrow> (\<exists>x. r = Ok x)"
  by (cases r) auto

lemma is_err_iff: "is_err r \<longleftrightarrow> (\<exists>e. r = Err e)"
  by (cases r) auto

section \<open>Slices\<close>

text \<open>
  \<open>data.slice(start..end)\<close> and \<open>&data[start..end]\<close> panic unless
  \<open>start <= end\<close> and \<open>end <= data.len()\<close>.
\<close>

definition slice :: "bytes \<Rightarrow> usize \<Rightarrow> usize \<Rightarrow> (bytes, 'e) res" where
  "slice bs s e =
     (if s \<le> e \<and> unat e \<le> length bs
      then Ok (take (unat e - unat s) (drop (unat s) bs))
      else Panic)"

lemma slice_no_err [simp]: "slice bs s e \<noteq> Err x"
  by (simp add: slice_def)

lemma slice_Ok_iff [outcome]:
  "slice bs s e = Ok xs \<longleftrightarrow>
     s \<le> e \<and> unat e \<le> length bs \<and> xs = take (unat e - unat s) (drop (unat s) bs)"
  by (auto simp: slice_def)

lemma slice_Panic_iff: "slice bs s e = Panic \<longleftrightarrow> \<not> (s \<le> e \<and> unat e \<le> length bs)"
  by (simp add: slice_def)

lemma slice_appended:
  assumes "unat s = length xs" and "unat e = length xs + length ys"
  shows "slice (xs @ ys @ zs) s e = Ok ys"
  using assms by (simp add: slice_def word_le_nat_alt)

section \<open>Decimal formatting\<close>

text \<open>\<open>format!("{n}")\<close> of an unsigned integer.\<close>

definition digit_char :: "nat \<Rightarrow> char" where
  "digit_char d = char_of (48 + d)"

fun display_nat :: "nat \<Rightarrow> string" where
  "display_nat n =
     (if n < 10 then [digit_char n] else display_nat (n div 10) @ [digit_char (n mod 10)])"

declare display_nat.simps [simp del]

section \<open>Big-endian integers\<close>

fun be_bytes :: "nat \<Rightarrow> nat \<Rightarrow> bytes" where
  "be_bytes 0 v = []"
| "be_bytes (Suc n) v = be_bytes n (v div 256) @ [of_nat v]"

definition be_val :: "bytes \<Rightarrow> nat" where
  "be_val bs = foldl (\<lambda>acc b. acc * 256 + unat b) 0 bs"

lemma be_val_Nil [simp]: "be_val [] = 0"
  by (simp add: be_val_def)

lemma be_val_snoc [simp]: "be_val (bs @ [b]) = be_val bs * 256 + unat b"
  by (simp add: be_val_def)

lemma length_be_bytes [simp]: "length (be_bytes n v) = n"
  by (induction n v rule: be_bytes.induct) auto

lemma be_val_be_bytes: "be_val (be_bytes n v) = v mod 256 ^ n"
proof (induction n v rule: be_bytes.induct)
  case (1 v)
  then show ?case by simp
next
  case (2 n v)
  have "be_val (be_bytes (Suc n) v) = (v div 256 mod 256 ^ n) * 256 + v mod 256"
    using 2 by (simp add: unat_of_nat)
  also have "\<dots> = v mod (256 * 256 ^ n)"
    by (simp add: mod_mult2_eq)
  finally show ?case by simp
qed

lemma be_val_less: "be_val bs < 256 ^ length bs"
proof (induction bs rule: rev_induct)
  case Nil
  then show ?case by simp
next
  case (snoc b bs)
  have "unat b < 256"
    using unsigned_less [of b] by simp
  with snoc show ?case by simp
qed

lemma be_bytes_be_val: "be_bytes (length bs) (be_val bs) = bs"
proof (induction bs rule: rev_induct)
  case Nil
  then show ?case by simp
next
  case (snoc b bs)
  have b: "unat b < 256"
    using unsigned_less [of b] by simp
  then have "(be_val bs * 256 + unat b) div 256 = be_val bs"
    by simp
  moreover have "(of_nat (be_val bs * 256 + unat b) :: u8) = b"
  proof -
    have "(256 :: u8) = 0"
      by simp
    then show ?thesis
      by (simp only: of_nat_add of_nat_mult of_nat_numeral mult_zero_right add_0_left of_nat_unat ucast_id)
  qed
  ultimately show ?case
    using snoc by simp
qed

subsection \<open>The interface of a fixed-width encoding\<close>

text \<open>
  What a reader of the wire format may rely on when a field is written as a constant
  number of bytes: the width, and that writing and reading are inverse.
\<close>

locale fixed_width =
  fixes enc :: "'w \<Rightarrow> bytes"
    and dec :: "bytes \<Rightarrow> 'w"
    and width :: nat
  assumes length_enc: "length (enc w) = width"
    and dec_enc: "dec (enc w) = w"
    and enc_dec: "length bs = width \<Longrightarrow> enc (dec bs) = bs"
begin

lemma take_enc: "take width (enc w @ rest) = enc w"
  by (simp add: length_enc)

lemma drop_enc: "drop width (enc w @ rest) = rest"
  by (simp add: length_enc)

lemma read_back: "dec (take width (enc w @ rest)) = w"
  by (simp add: dec_enc length_enc)

lemma rewrite_prefix:
  "width \<le> length bs \<Longrightarrow> enc (dec (take width bs)) @ drop width bs = bs"
  by (simp add: enc_dec)

lemma enc_inj: "enc v = enc w \<longleftrightarrow> v = w"
  using dec_enc by metis

end

definition u8_to_bytes :: "u8 \<Rightarrow> bytes" where
  "u8_to_bytes b = [b]"

definition u8_from_bytes :: "bytes \<Rightarrow> u8" where
  "u8_from_bytes bs = of_nat (be_val bs)"

definition u32_to_be_bytes :: "u32 \<Rightarrow> bytes" where
  "u32_to_be_bytes w = be_bytes 4 (unat w)"

definition u32_from_be_bytes :: "bytes \<Rightarrow> u32" where
  "u32_from_be_bytes bs = of_nat (be_val bs)"

definition u64_to_be_bytes :: "u64 \<Rightarrow> bytes" where
  "u64_to_be_bytes w = be_bytes 8 (unat w)"

definition u64_from_be_bytes :: "bytes \<Rightarrow> u64" where
  "u64_from_be_bytes bs = of_nat (be_val bs)"

lemma be_word_read:
  assumes "256 ^ n = (2::nat) ^ LENGTH('a::len)"
  shows "(of_nat (be_val (be_bytes n (unat (w :: 'a word)))) :: 'a word) = w"
proof -
  have "unat w < 2 ^ LENGTH('a)"
    by (rule unsigned_less)
  with assms show ?thesis
    by (simp add: be_val_be_bytes)
qed

lemma be_word_write:
  assumes "256 ^ n = (2::nat) ^ LENGTH('a::len)" and "length bs = n"
  shows "be_bytes n (unat (of_nat (be_val bs) :: 'a word)) = bs"
proof -
  have "be_val bs < 2 ^ LENGTH('a)"
    using be_val_less [of bs] assms by simp
  then have "unat (of_nat (be_val bs) :: 'a word) = be_val bs"
    by (simp add: unat_of_nat)
  with assms(2) show ?thesis
    using be_bytes_be_val [of bs] by simp
qed

interpretation be_u8: fixed_width u8_to_bytes u8_from_bytes 1
proof unfold_locales
  fix w :: u8 and bs :: bytes
  show "length (u8_to_bytes w) = 1"
    by (simp add: u8_to_bytes_def)
  show "u8_from_bytes (u8_to_bytes w) = w"
    by (simp add: u8_to_bytes_def u8_from_bytes_def be_val_def)
  show "u8_to_bytes (u8_from_bytes bs) = bs" if "length bs = 1"
  proof -
    from that obtain b where "bs = [b]"
      by (cases bs) auto
    then show ?thesis
      by (simp add: u8_to_bytes_def u8_from_bytes_def be_val_def)
  qed
qed

interpretation be_u32: fixed_width u32_to_be_bytes u32_from_be_bytes 4
  by unfold_locales
    (auto simp: u32_to_be_bytes_def u32_from_be_bytes_def be_word_read be_word_write)

interpretation be_u64: fixed_width u64_to_be_bytes u64_from_be_bytes 8
  by unfold_locales
    (auto simp: u64_to_be_bytes_def u64_from_be_bytes_def be_word_read be_word_write)

lemmas be_length [simp, wire] = be_u8.length_enc be_u32.length_enc be_u64.length_enc
lemmas be_read [simp, wire] = be_u8.dec_enc be_u32.dec_enc be_u64.dec_enc
lemmas be_write [wire] = be_u8.enc_dec be_u32.enc_dec be_u64.enc_dec

end
