(* ===== verification/Protocol_Types.thy ===== *)
theory Protocol_Types
  imports Prelude "HOL-Library.Finite_Map"
begin

text \<open>
  The data of \<open>crates/protocol\<close>: the constants of \<open>lib.rs\<close>, the error type of
  \<open>errors.rs\<close> and the message types, status codes, header and base header of \<open>types.rs\<close>
  with their operations. \<open>'v\<close> stands for \<open>rmpv::Value\<close>, the dynamic MessagePack value
  of another crate; a header carries such values in its \<open>additional\<close> map. Rust strings
  are HOL strings.
\<close>

section \<open>Constants (\<open>lib.rs\<close>)\<close>

definition PROTOCOL_VERSION :: u8 where "PROTOCOL_VERSION = 1"
definition BASE_HEADER_SIZE :: usize where "BASE_HEADER_SIZE = 34"
definition RESERVED_SIZE :: usize where "RESERVED_SIZE = 16"
definition CLIENT_ID_UNASSIGNED :: u32 where "CLIENT_ID_UNASSIGNED = 0"
definition CLIENT_ID_BROKER :: u32 where "CLIENT_ID_BROKER = 1"
definition CLIENT_ID_MIN_DYNAMIC :: u32 where "CLIENT_ID_MIN_DYNAMIC = 1000"
definition CLIENT_ID_MAX_DYNAMIC :: u32 where "CLIENT_ID_MAX_DYNAMIC = (- 1) - 1"
definition CLIENT_ID_RESERVED_MAX :: u32 where "CLIENT_ID_RESERVED_MAX = - 1"
definition DEFAULT_MAX_MESSAGE_SIZE :: usize where "DEFAULT_MAX_MESSAGE_SIZE = 1024 * 1024 * 1024"
definition DEFAULT_MAX_HEADER_SIZE :: usize where "DEFAULT_MAX_HEADER_SIZE = 64 * 1024"

lemmas constant_defs =
  PROTOCOL_VERSION_def BASE_HEADER_SIZE_def RESERVED_SIZE_def
  CLIENT_ID_UNASSIGNED_def CLIENT_ID_BROKER_def CLIENT_ID_MIN_DYNAMIC_def
  CLIENT_ID_MAX_DYNAMIC_def CLIENT_ID_RESERVED_MAX_def
  DEFAULT_MAX_MESSAGE_SIZE_def DEFAULT_MAX_HEADER_SIZE_def

section \<open>Protocol errors (\<open>errors.rs\<close>)\<close>

datatype protocol_error =
    InvalidVersion (iv_expected: u8) (iv_actual: u8)
  | UnknownMessageType u8
  | InvalidFormat string
  | MessageTooLarge (mtl_size: usize) (mtl_max: usize)
  | HeaderTooLarge (htl_size: usize) (htl_max: usize)
  | InvalidClientId u32
  | MissingRequiredField (mrf_field: string) (mrf_message_type: string)
  | ForbiddenField (ff_field: string) (ff_message_type: string)
  | MessagePackSerialization string
  | MessagePackDeserialization string
  | IncompleteData (id_needed: usize) (id_available: usize)
  | ParseError string
  | InvalidRouting string
  | InvalidAuth string
  | BufferOverflow
  | ProtocolIo string

type_synonym 'a protocol_result = "('a, protocol_error) res"

text \<open>
  The \<open>Display\<close> text of an error, as the \<open>error\<close> attributes give it. \<open>{:?}\<close> of a string quotes
  it and escapes the quote, the backslash and control characters; characters outside ASCII
  are taken for printable.
\<close>

definition hex_digit :: "nat \<Rightarrow> char" where
  "hex_digit n = (if n < 10 then char_of (n + 48) else char_of (n + 87))"

fun display_hex :: "nat \<Rightarrow> string" where
  "display_hex n = (if n < 16 then [hex_digit n] else display_hex (n div 16) @ [hex_digit (n mod 16)])"

declare display_hex.simps [simp del]

definition debug_char :: "char \<Rightarrow> string" where
  "debug_char c =
     (let n = of_char c :: nat in
      if n = 0 then [CHR 0x5C, CHR ''0'']
      else if n = 9 then [CHR 0x5C, CHR ''t'']
      else if n = 10 then [CHR 0x5C, CHR ''n'']
      else if n = 13 then [CHR 0x5C, CHR ''r'']
      else if n = 34 \<or> n = 92 then [CHR 0x5C, c]
      else if n < 32 \<or> n = 127 then [CHR 0x5C] @ ''u{'' @ display_hex n @ ''}''
      else [c])"

definition debug_string :: "string \<Rightarrow> string" where
  "debug_string s = [CHR 0x22] @ concat (map debug_char s) @ [CHR 0x22]"

primrec protocol_error_text :: "protocol_error \<Rightarrow> string" where
  "protocol_error_text (InvalidVersion expected actual) =
     ''Invalid protocol version: expected '' @ display_nat (unat expected) @ '', got '' @
     display_nat (unat actual)"
| "protocol_error_text (UnknownMessageType t) = ''Unknown message type: '' @ display_nat (unat t)"
| "protocol_error_text (InvalidFormat e) = ''Invalid message format: '' @ e"
| "protocol_error_text (MessageTooLarge n m) =
     ''Message size '' @ display_nat (unat n) @ '' exceeds maximum '' @ display_nat (unat m)"
| "protocol_error_text (HeaderTooLarge n m) =
     ''Header size '' @ display_nat (unat n) @ '' exceeds maximum '' @ display_nat (unat m)"
| "protocol_error_text (InvalidClientId i) = ''Invalid ClientID: '' @ display_nat (unat i)"
| "protocol_error_text (MissingRequiredField field t) =
     ''Required header field missing: '' @ field @ '' for message type '' @ debug_string t"
| "protocol_error_text (ForbiddenField field t) =
     ''Forbidden header field present: '' @ field @ '' for message type '' @ debug_string t"
| "protocol_error_text (MessagePackSerialization e) = ''MessagePack serialization error: '' @ e"
| "protocol_error_text (MessagePackDeserialization e) = ''MessagePack deserialization error: '' @ e"
| "protocol_error_text (IncompleteData needed available) =
     ''Incomplete data: need '' @ display_nat (unat needed) @ '' bytes, got '' @
     display_nat (unat available)"
| "protocol_error_text (ParseError e) = ''Parse error: '' @ e"
| "protocol_error_text (InvalidRouting e) = ''Invalid routing: '' @ e"
| "protocol_error_text (InvalidAuth e) = ''Invalid authentication: '' @ e"
| "protocol_error_text BufferOverflow = ''Buffer overflow while writing message''"
| "protocol_error_text (ProtocolIo e) = ''I/O error: '' @ e"

text \<open>
  The four \<open>From\<close> conversions. The foreign error types are known by their
  \<open>to_string()\<close> text only, which is all the program keeps of them.
\<close>

definition from_encode_error :: "string \<Rightarrow> protocol_error" where
  "from_encode_error err = MessagePackSerialization err"

definition from_decode_error :: "string \<Rightarrow> protocol_error" where
  "from_decode_error err = MessagePackDeserialization err"

definition from_io_error :: "string \<Rightarrow> protocol_error" where
  "from_io_error err = ProtocolIo err"

definition from_ext_error :: "string \<Rightarrow> protocol_error" where
  "from_ext_error err = MessagePackDeserialization err"

section \<open>Message types\<close>

datatype message_type =
    Join | Request | Response | Notification | Broadcast | Publish | Subscribe | Unsubscribe

definition message_type_from_u8 :: "u8 \<Rightarrow> message_type option" where
  "message_type_from_u8 value =
     (if value = 0 then Some Join
      else if value = 1 then Some Request
      else if value = 2 then Some Response
      else if value = 3 then Some Notification
      else if value = 4 then Some Broadcast
      else if value = 5 then Some Publish
      else if value = 6 then Some Subscribe
      else if value = 7 then Some Unsubscribe
      else None)"

primrec message_type_to_u8 :: "message_type \<Rightarrow> u8" where
  "message_type_to_u8 Join = 0"
| "message_type_to_u8 Request = 1"
| "message_type_to_u8 Response = 2"
| "message_type_to_u8 Notification = 3"
| "message_type_to_u8 Broadcast = 4"
| "message_type_to_u8 Publish = 5"
| "message_type_to_u8 Subscribe = 6"
| "message_type_to_u8 Unsubscribe = 7"

primrec message_type_as_str :: "message_type \<Rightarrow> string" where
  "message_type_as_str Join = ''JOIN''"
| "message_type_as_str Request = ''REQ''"
| "message_type_as_str Response = ''REP''"
| "message_type_as_str Notification = ''NOTIF''"
| "message_type_as_str Broadcast = ''BCAST''"
| "message_type_as_str Publish = ''PUB''"
| "message_type_as_str Subscribe = ''SUB''"
| "message_type_as_str Unsubscribe = ''UNSUB''"

instantiation message_type :: enum
begin

definition enum_message_type :: "message_type list" where
  "enum_message_type =
     [Join, Request, Response, Notification, Broadcast, Publish, Subscribe, Unsubscribe]"

definition enum_all_message_type :: "(message_type \<Rightarrow> bool) \<Rightarrow> bool" where
  "enum_all_message_type P = list_all P enum_class.enum"

definition enum_ex_message_type :: "(message_type \<Rightarrow> bool) \<Rightarrow> bool" where
  "enum_ex_message_type P = list_ex P enum_class.enum"

instance
proof
  show univ: "UNIV = set (enum_class.enum :: message_type list)"
    by (auto simp: enum_message_type_def intro: message_type.exhaust)
  show "distinct (enum_class.enum :: message_type list)"
    by (simp add: enum_message_type_def)
  fix P :: "message_type \<Rightarrow> bool"
  show "enum_class.enum_all P = Ball UNIV P"
    unfolding univ by (simp add: enum_all_message_type_def list_all_iff)
  show "enum_class.enum_ex P = Bex UNIV P"
    unfolding univ by (simp add: enum_ex_message_type_def list_ex_iff)
qed

end

lemma from_u8_to_u8 [simp, wire]: "message_type_from_u8 (message_type_to_u8 t) = Some t"
  by (cases t) (simp_all add: message_type_from_u8_def)

lemma from_u8_Some_iff: "message_type_from_u8 b = Some t \<longleftrightarrow> b = message_type_to_u8 t"
  by (cases t) (auto simp: message_type_from_u8_def split: if_splits)

lemma from_u8_None_iff: "message_type_from_u8 b = None \<longleftrightarrow> 8 \<le> b"
proof
  assume none: "message_type_from_u8 b = None"
  have "b < 8 \<Longrightarrow> b = 0 \<or> b = 1 \<or> b = 2 \<or> b = 3 \<or> b = 4 \<or> b = 5 \<or> b = 6 \<or> b = 7"
    by unat_arith
  with none show "8 \<le> b"
    by (auto simp: message_type_from_u8_def not_less [symmetric] split: if_splits)
next
  assume "8 \<le> b"
  then show "message_type_from_u8 b = None"
    by (auto simp: message_type_from_u8_def word_le_nat_alt)
qed

lemma to_u8_inj [simp]: "message_type_to_u8 s = message_type_to_u8 t \<longleftrightarrow> s = t"
  by (metis from_u8_to_u8 option.inject)

section \<open>Status codes\<close>

datatype status_code = StatusCode (status_value: u16)

definition ACCEPTED :: status_code where "ACCEPTED = StatusCode 202"
definition AUTHENTICATION_FAILED :: status_code where "AUTHENTICATION_FAILED = StatusCode 604"
definition BAD_GATEWAY :: status_code where "BAD_GATEWAY = StatusCode 502"
definition BAD_REQUEST :: status_code where "BAD_REQUEST = StatusCode 400"
definition CLIENT_NOT_FOUND :: status_code where "CLIENT_NOT_FOUND = StatusCode 600"
definition CONFLICT :: status_code where "CONFLICT = StatusCode 409"
definition CREATED :: status_code where "CREATED = StatusCode 201"
definition FORBIDDEN :: status_code where "FORBIDDEN = StatusCode 403"
definition GATEWAY_TIMEOUT :: status_code where "GATEWAY_TIMEOUT = StatusCode 504"
definition INTERNAL_SERVER_ERROR :: status_code where "INTERNAL_SERVER_ERROR = StatusCode 500"
definition INVALID_ROUTING :: status_code where "INVALID_ROUTING = StatusCode 602"
definition JOIN_REJECTED :: status_code where "JOIN_REJECTED = StatusCode 605"
definition METHOD_NOT_ALLOWED :: status_code where "METHOD_NOT_ALLOWED = StatusCode 405"
definition NOT_FOUND :: status_code where "NOT_FOUND = StatusCode 404"
definition NOT_IMPLEMENTED :: status_code where "NOT_IMPLEMENTED = StatusCode 501"
definition NO_CONTENT :: status_code where "NO_CONTENT = StatusCode 204"
definition STATUS_OK :: status_code where "STATUS_OK = StatusCode 200"
definition PAYLOAD_TOO_LARGE :: status_code where "PAYLOAD_TOO_LARGE = StatusCode 413"
definition REQUEST_TIMEOUT :: status_code where "REQUEST_TIMEOUT = StatusCode 408"
definition SERVICE_UNAVAILABLE :: status_code where "SERVICE_UNAVAILABLE = StatusCode 503"
definition SUBSCRIPTION_FAILED :: status_code where "SUBSCRIPTION_FAILED = StatusCode 603"
definition TOO_MANY_REQUESTS :: status_code where "TOO_MANY_REQUESTS = StatusCode 429"
definition TOPIC_NOT_FOUND :: status_code where "TOPIC_NOT_FOUND = StatusCode 601"
definition UNAUTHORIZED :: status_code where "UNAUTHORIZED = StatusCode 401"

lemmas status_defs =
  ACCEPTED_def AUTHENTICATION_FAILED_def BAD_GATEWAY_def BAD_REQUEST_def CLIENT_NOT_FOUND_def
  CONFLICT_def CREATED_def FORBIDDEN_def GATEWAY_TIMEOUT_def INTERNAL_SERVER_ERROR_def
  INVALID_ROUTING_def JOIN_REJECTED_def METHOD_NOT_ALLOWED_def NOT_FOUND_def NOT_IMPLEMENTED_def
  NO_CONTENT_def STATUS_OK_def PAYLOAD_TOO_LARGE_def REQUEST_TIMEOUT_def SERVICE_UNAVAILABLE_def
  SUBSCRIPTION_FAILED_def TOO_MANY_REQUESTS_def TOPIC_NOT_FOUND_def UNAUTHORIZED_def

definition is_success :: "status_code \<Rightarrow> bool" where
  "is_success s \<longleftrightarrow> 200 \<le> status_value s \<and> status_value s < 300"

definition is_client_error :: "status_code \<Rightarrow> bool" where
  "is_client_error s \<longleftrightarrow> 400 \<le> status_value s \<and> status_value s < 500"

definition is_server_error :: "status_code \<Rightarrow> bool" where
  "is_server_error s \<longleftrightarrow> 500 \<le> status_value s \<and> status_value s < 600"

definition is_protocol_error :: "status_code \<Rightarrow> bool" where
  "is_protocol_error s \<longleftrightarrow> 600 \<le> status_value s \<and> status_value s < 700"

lemmas status_class_defs =
  is_success_def is_client_error_def is_server_error_def is_protocol_error_def

section \<open>Header parts\<close>

record routing =
  r_client_name :: string
  r_path :: string
  r_client_id :: "u32 option"

datatype request_response_type = RequestType | Correlation

record request_response =
  rr_type :: request_response_type
  rr_id :: string

definition reqrep_req :: "string \<Rightarrow> request_response" where
  "reqrep_req i = \<lparr>rr_type = RequestType, rr_id = i\<rparr>"

definition reqrep_res :: "string \<Rightarrow> request_response" where
  "reqrep_res i = \<lparr>rr_type = Correlation, rr_id = i\<rparr>"

datatype auth_type = TokenAuth | BasicAuth | ApiKeyAuth

datatype auth_credentials =
    TokenCredentials string
  | BasicCredentials (basic_username: string) (basic_password: string)
  | ApiKeyCredentials string

record auth =
  auth_type :: auth_type
  auth_credentials :: auth_credentials

definition auth_token :: "string \<Rightarrow> auth" where
  "auth_token token = \<lparr>auth_type = TokenAuth, auth_credentials = TokenCredentials token\<rparr>"

definition auth_basic :: "string \<Rightarrow> string \<Rightarrow> auth" where
  "auth_basic username password =
     \<lparr>auth_type = BasicAuth, auth_credentials = BasicCredentials username password\<rparr>"

definition auth_api_key :: "string \<Rightarrow> auth" where
  "auth_api_key api_key = \<lparr>auth_type = ApiKeyAuth, auth_credentials = ApiKeyCredentials api_key\<rparr>"

section \<open>The header\<close>

record 'v header =
  h_routing :: "routing list option"
  h_reqrep :: "request_response option"
  h_topic :: "string option"
  h_status :: "status_code option"
  h_auth :: "auth option"
  h_client_name :: "string option"
  h_additional :: "(string, 'v) fmap"

definition header_new :: "'v header" where
  "header_new = \<lparr>h_routing = None, h_reqrep = None, h_topic = None, h_status = None,
     h_auth = None, h_client_name = None, h_additional = fmempty\<rparr>"

definition header_with_routing :: "'v header \<Rightarrow> routing list \<Rightarrow> 'v header" where
  "header_with_routing h r = h\<lparr>h_routing := Some r\<rparr>"

definition header_with_route :: "'v header \<Rightarrow> string \<Rightarrow> string \<Rightarrow> 'v header" where
  "header_with_route h client_name path =
     h\<lparr>h_routing := Some [\<lparr>r_client_name = client_name, r_path = path, r_client_id = None\<rparr>]\<rparr>"

definition header_with_route_and_id :: "'v header \<Rightarrow> string \<Rightarrow> string \<Rightarrow> u32 \<Rightarrow> 'v header" where
  "header_with_route_and_id h client_name path client_id =
     h\<lparr>h_routing :=
        Some [\<lparr>r_client_name = client_name, r_path = path, r_client_id = Some client_id\<rparr>]\<rparr>"

definition header_with_reqrep :: "'v header \<Rightarrow> request_response \<Rightarrow> 'v header" where
  "header_with_reqrep h reqrep = h\<lparr>h_reqrep := Some reqrep\<rparr>"

definition header_with_topic :: "'v header \<Rightarrow> string \<Rightarrow> 'v header" where
  "header_with_topic h topic = h\<lparr>h_topic := Some topic\<rparr>"

definition header_with_status :: "'v header \<Rightarrow> status_code \<Rightarrow> 'v header" where
  "header_with_status h status = h\<lparr>h_status := Some status\<rparr>"

definition header_with_auth :: "'v header \<Rightarrow> auth \<Rightarrow> 'v header" where
  "header_with_auth h a = h\<lparr>h_auth := Some a\<rparr>"

definition header_with_client_name :: "'v header \<Rightarrow> string \<Rightarrow> 'v header" where
  "header_with_client_name h client_name = h\<lparr>h_client_name := Some client_name\<rparr>"

definition header_default :: "'v header" where
  "header_default = header_new"

lemmas header_with_defs =
  header_with_routing_def header_with_route_def header_with_route_and_id_def
  header_with_reqrep_def header_with_topic_def header_with_status_def
  header_with_auth_def header_with_client_name_def

section \<open>Header fields\<close>

datatype header_field = F_Routing | F_Reqrep | F_Topic | F_Status | F_Auth | F_ClientName

primrec field_name :: "header_field \<Rightarrow> string" where
  "field_name F_Routing = ''routing''"
| "field_name F_Reqrep = ''reqrep''"
| "field_name F_Topic = ''topic''"
| "field_name F_Status = ''status''"
| "field_name F_Auth = ''auth''"
| "field_name F_ClientName = ''client_name''"

primrec is_present_in :: "header_field \<Rightarrow> 'v header \<Rightarrow> bool" where
  "is_present_in F_Routing h = (h_routing h \<noteq> None)"
| "is_present_in F_Reqrep h = (h_reqrep h \<noteq> None)"
| "is_present_in F_Topic h = (h_topic h \<noteq> None)"
| "is_present_in F_Status h = (h_status h \<noteq> None)"
| "is_present_in F_Auth h = (h_auth h \<noteq> None)"
| "is_present_in F_ClientName h = (h_client_name h \<noteq> None)"

lemma field_name_inj [simp]: "field_name f = field_name g \<longleftrightarrow> f = g"
  by (cases f; cases g) simp_all

lemma is_present_in_new [simp]: "\<not> is_present_in f header_new"
  by (cases f) (simp_all add: header_new_def)

section \<open>The base header\<close>

record base_header =
  bh_version :: u8
  bh_message_type :: message_type
  bh_client_id :: u32
  bh_reserved :: bytes
  bh_header_length :: u32
  bh_payload_length :: u64

definition base_header_new :: "message_type \<Rightarrow> u32 \<Rightarrow> u32 \<Rightarrow> u64 \<Rightarrow> base_header" where
  "base_header_new message_type client_id header_length payload_length =
     \<lparr>bh_version = PROTOCOL_VERSION, bh_message_type = message_type, bh_client_id = client_id,
      bh_reserved = replicate 16 0, bh_header_length = header_length,
      bh_payload_length = payload_length\<rparr>"

text \<open>
  \<open>u64\<close> addition, which wraps in the release profile (and aborts in a debug build):
  the peer chooses \<open>payload_length\<close>, so the sum can pass \<open>2 ^ 64\<close>.
\<close>

definition total_message_size :: "base_header \<Rightarrow> u64" where
  "total_message_size bh = BASE_HEADER_SIZE + ucast (bh_header_length bh) + bh_payload_length bh"

definition is_size_valid :: "base_header \<Rightarrow> usize \<Rightarrow> usize \<Rightarrow> bool" where
  "is_size_valid bh max_message_size max_header_size \<longleftrightarrow>
     total_message_size bh \<le> max_message_size \<and>
     bh_header_length bh \<le> ucast max_header_size"

text \<open>The size a base header announces, without the wrap-around.\<close>

definition announced_size :: "base_header \<Rightarrow> nat" where
  "announced_size bh = 34 + unat (bh_header_length bh) + unat (bh_payload_length bh)"

definition no_wrap :: "base_header \<Rightarrow> bool" where
  "no_wrap bh \<longleftrightarrow> announced_size bh < 2 ^ 64"

text \<open>The fixed facts of a base header that the parser has accepted.\<close>

definition wf_base_header :: "base_header \<Rightarrow> bool" where
  "wf_base_header bh \<longleftrightarrow> bh_version bh = PROTOCOL_VERSION \<and> length (bh_reserved bh) = 16"

lemma unat_BASE_HEADER_SIZE [simp]: "unat BASE_HEADER_SIZE = 34"
  by (simp add: BASE_HEADER_SIZE_def)

lemma unat_RESERVED_SIZE [simp]: "unat RESERVED_SIZE = 16"
  by (simp add: RESERVED_SIZE_def)

lemma unat_total_message_size:
  "unat (total_message_size bh) = announced_size bh mod 2 ^ 64"
  by (simp add: total_message_size_def announced_size_def unat_word_ariths mod_add_left_eq)

lemma unat_total_no_wrap: "no_wrap bh \<Longrightarrow> unat (total_message_size bh) = announced_size bh"
  by (simp add: unat_total_message_size no_wrap_def)

lemma wf_base_header_new [simp]: "wf_base_header (base_header_new t c hl pl)"
  by (simp add: wf_base_header_def base_header_new_def)

section \<open>Properties\<close>

text \<open>
  The message type byte and \<open>MessageType\<close> are in bijection: a byte parses to a type
  exactly when it is that type's code, every type's code parses back, and the bytes that
  are no type are exactly those from 8 upwards.
\<close>

theorem message_type_roundtrip:
  "(message_type_from_u8 b = Some t \<longleftrightarrow> b = message_type_to_u8 t) \<and>
   (message_type_from_u8 b = None \<longleftrightarrow> 8 \<le> b)"
  by (simp add: from_u8_Some_iff from_u8_None_iff)

text \<open>
  \<open>total_message_size\<close> is the announced size modulo \<open>2 ^ 64\<close>, and the size check
  \<open>is_size_valid\<close> is right exactly as long as neither the sum nor the cast of the header
  limit to 32 bits wraps.
\<close>

theorem size_check_bounds:
  "unat (total_message_size bh) = announced_size bh mod 2 ^ 64 \<and>
   (is_size_valid bh mm mh \<longleftrightarrow>
      announced_size bh mod 2 ^ 64 \<le> unat mm \<and>
      unat (bh_header_length bh) \<le> unat mh mod 2 ^ 32)"
  by (simp add: is_size_valid_def unat_total_message_size word_le_nat_alt
      unsigned_ucast_eq take_bit_eq_mod)

text \<open>
  The four status classes are pairwise disjoint, and every named status code of the
  protocol is in the class its comment puts it in.
\<close>

theorem status_classes:
  "\<not> (is_success s \<and> is_client_error s) \<and> \<not> (is_success s \<and> is_server_error s) \<and>
   \<not> (is_success s \<and> is_protocol_error s) \<and> \<not> (is_client_error s \<and> is_server_error s) \<and>
   \<not> (is_client_error s \<and> is_protocol_error s) \<and> \<not> (is_server_error s \<and> is_protocol_error s) \<and>
   list_all is_success [STATUS_OK, CREATED, ACCEPTED, NO_CONTENT] \<and>
   list_all is_client_error
     [BAD_REQUEST, UNAUTHORIZED, FORBIDDEN, NOT_FOUND, METHOD_NOT_ALLOWED, REQUEST_TIMEOUT,
      CONFLICT, PAYLOAD_TOO_LARGE, TOO_MANY_REQUESTS] \<and>
   list_all is_server_error
     [INTERNAL_SERVER_ERROR, NOT_IMPLEMENTED, BAD_GATEWAY, SERVICE_UNAVAILABLE, GATEWAY_TIMEOUT] \<and>
   list_all is_protocol_error
     [CLIENT_NOT_FOUND, TOPIC_NOT_FOUND, INVALID_ROUTING, SUBSCRIPTION_FAILED,
      AUTHENTICATION_FAILED, JOIN_REJECTED]"
  by (auto simp: status_class_defs status_defs word_less_nat_alt word_le_nat_alt)

end
