(* ===== verification/Externals.thy ===== *)
theory Externals
  imports Protocol_Types
begin

text \<open>
  The code of other crates that \<open>fleximq-protocol\<close> calls, as parameters: the parser
  primitives of \<open>nom\<close> and the MessagePack functions of \<open>rmp_serde\<close> and \<open>rmpv\<close>. A
  foreign error is the text the program formats from it. \<open>nom_laws\<close> states the
  documented behaviour of the \<open>nom\<close> primitives; nothing is assumed of the MessagePack
  functions here. \<open>demo_deps\<close> is one concrete instance, for the witnesses.
\<close>

section \<open>The parameters\<close>

type_synonym 'a nom_parser = "bytes \<Rightarrow> string + bytes \<times> 'a"

datatype nom_error_kind = NomTag | NomLengthValue

text \<open>
  \<^item> \<open>nom_verify\<close>, \<open>nom_be_u8\<close>, \<open>nom_be_u32\<close>, \<open>nom_be_u64\<close>, \<open>nom_take\<close>: the \<open>complete\<close>
    parsers and the \<open>verify\<close> combinator; a parser returns the rest of the input and a value.
  \<^item> \<open>nom_error\<close>: the text of \<open>nom::Err::Error(Error::new(input, kind))\<close>.
  \<^item> \<open>rmp_header_to_vec\<close>, \<open>rmp_header_from_slice\<close>: \<open>rmp_serde::to_vec\<close> and
    \<open>rmp_serde::from_slice\<close> at type \<open>Header\<close>.
  \<^item> \<open>rmp_value_write\<close>, \<open>rmp_value_from_slice\<close>: \<open>rmp_serde::encode::write\<close> and
    \<open>rmp_serde::from_slice\<close> at type \<open>rmpv::Value\<close>; \<open>rmpv_nil\<close> is \<open>rmpv::Value::Nil\<close>.
\<close>

record 'v deps =
  nom_verify :: "u8 nom_parser \<Rightarrow> (u8 \<Rightarrow> bool) \<Rightarrow> u8 nom_parser"
  nom_be_u8 :: "u8 nom_parser"
  nom_be_u32 :: "u32 nom_parser"
  nom_be_u64 :: "u64 nom_parser"
  nom_take :: "usize \<Rightarrow> bytes nom_parser"
  nom_error :: "bytes \<Rightarrow> nom_error_kind \<Rightarrow> string"
  rmp_header_to_vec :: "'v header \<Rightarrow> string + bytes"
  rmp_header_from_slice :: "bytes \<Rightarrow> string + 'v header"
  rmp_value_write :: "'v \<Rightarrow> string + bytes"
  rmp_value_from_slice :: "bytes \<Rightarrow> string + 'v"
  rmpv_nil :: 'v

text \<open>
  An integer parser succeeds exactly on the inputs that start with the integer's
  big-endian bytes and leaves what follows; \<open>take n\<close> succeeds exactly on the inputs of at
  least \<open>n\<close> bytes; \<open>verify\<close> adds a test of the value.
\<close>

definition nom_laws :: "'v deps \<Rightarrow> bool" where
  "nom_laws d \<longleftrightarrow>
     (\<forall>p f i r v. nom_verify d p f i = Inr (r, v) \<longleftrightarrow> p i = Inr (r, v) \<and> f v) \<and>
     (\<forall>i r w. nom_be_u8 d i = Inr (r, w) \<longleftrightarrow> i = u8_to_bytes w @ r) \<and>
     (\<forall>i r w. nom_be_u32 d i = Inr (r, w) \<longleftrightarrow> i = u32_to_be_bytes w @ r) \<and>
     (\<forall>i r w. nom_be_u64 d i = Inr (r, w) \<longleftrightarrow> i = u64_to_be_bytes w @ r) \<and>
     (\<forall>n i r bs. nom_take d n i = Inr (r, bs) \<longleftrightarrow> i = bs @ r \<and> length bs = unat n)"

lemma nom_verify_iff:
  "nom_laws d \<Longrightarrow> nom_verify d p f i = Inr (r, v) \<longleftrightarrow> p i = Inr (r, v) \<and> f v"
  by (simp add: nom_laws_def)

lemma nom_be_u8_iff:
  "nom_laws d \<Longrightarrow> nom_be_u8 d i = Inr (r, w) \<longleftrightarrow> i = u8_to_bytes w @ r"
  by (simp add: nom_laws_def)

lemma nom_be_u32_iff:
  "nom_laws d \<Longrightarrow> nom_be_u32 d i = Inr (r, w) \<longleftrightarrow> i = u32_to_be_bytes w @ r"
  by (simp add: nom_laws_def)

lemma nom_be_u64_iff:
  "nom_laws d \<Longrightarrow> nom_be_u64 d i = Inr (r, w) \<longleftrightarrow> i = u64_to_be_bytes w @ r"
  by (simp add: nom_laws_def)

lemma nom_take_iff:
  "nom_laws d \<Longrightarrow> nom_take d n i = Inr (r, bs) \<longleftrightarrow> i = bs @ r \<and> length bs = unat n"
  by (simp add: nom_laws_def)

text \<open>The same laws as rewriting rules that run a parser on an input it accepts.\<close>

lemma nom_verify_run: "nom_laws d \<Longrightarrow> p i = Inr (r, v) \<Longrightarrow> f v \<Longrightarrow> nom_verify d p f i = Inr (r, v)"
  by (simp add: nom_verify_iff)

lemma nom_be_u8_run: "nom_laws d \<Longrightarrow> nom_be_u8 d (u8_to_bytes w @ r) = Inr (r, w)"
  by (simp add: nom_be_u8_iff)

lemma nom_be_u32_run: "nom_laws d \<Longrightarrow> nom_be_u32 d (u32_to_be_bytes w @ r) = Inr (r, w)"
  by (simp add: nom_be_u32_iff)

lemma nom_be_u64_run: "nom_laws d \<Longrightarrow> nom_be_u64 d (u64_to_be_bytes w @ r) = Inr (r, w)"
  by (simp add: nom_be_u64_iff)

lemma nom_take_run: "nom_laws d \<Longrightarrow> length bs = unat n \<Longrightarrow> nom_take d n (bs @ r) = Inr (r, bs)"
  by (simp add: nom_take_iff)

lemmas nom_runs = nom_verify_run nom_be_u8_run nom_be_u32_run nom_be_u64_run nom_take_run
lemmas nom_iffs = nom_verify_iff nom_be_u8_iff nom_be_u32_iff nom_be_u64_iff nom_take_iff

section \<open>One concrete instance\<close>

definition read_fixed :: "nat \<Rightarrow> (bytes \<Rightarrow> 'w) \<Rightarrow> 'w nom_parser" where
  "read_fixed n f i = (if n \<le> length i then Inr (drop n i, f (take n i)) else Inl ''Eof'')"

text \<open>
  A small header encoding: one byte that says which optional parts a sample header has.
  It is inverse on the sample headers the witnesses use, and it refuses the others.
\<close>

definition demo_route :: routing where
  "demo_route = \<lparr>r_client_name = ''svc'', r_path = ''/p'', r_client_id = Some 7\<rparr>"

definition demo_header :: "nat header" where
  "demo_header = header_new\<lparr>h_topic := Some ''t''\<rparr>"

definition demo_request_header :: "nat header" where
  "demo_request_header =
     header_new\<lparr>h_routing := Some [demo_route], h_reqrep := Some (reqrep_req ''id1'')\<rparr>"

definition demo_response_header :: "nat header" where
  "demo_response_header =
     header_new\<lparr>h_reqrep := Some (reqrep_res ''id1''),
       h_routing := Some [demo_route\<lparr>r_client_id := Some 1000\<rparr>], h_status := Some STATUS_OK\<rparr>"

definition demo_to_vec :: "nat header \<Rightarrow> string + bytes" where
  "demo_to_vec h =
     (if h_routing h = None \<and> h_topic h = Some ''t'' then Inr [1]
      else if h_routing h = Some [demo_route] then Inr [2, 2]
      else if h = demo_response_header then Inr [3]
      else Inl ''unsupported'')"

definition demo_from_slice :: "bytes \<Rightarrow> string + nat header" where
  "demo_from_slice bs =
     (if bs = [1] then Inr demo_header
      else if bs = [2, 2] then Inr demo_request_header
      else if bs = [3] then Inr demo_response_header
      else Inl ''invalid'')"

definition demo_deps :: "nat deps" where
  "demo_deps =
     \<lparr>nom_verify = (\<lambda>p f i. case p i of Inl e \<Rightarrow> Inl e
         | Inr (r, v) \<Rightarrow> if f v then Inr (r, v) else Inl ''Verify''),
      nom_be_u8 = read_fixed 1 u8_from_bytes,
      nom_be_u32 = read_fixed 4 u32_from_be_bytes,
      nom_be_u64 = read_fixed 8 u64_from_be_bytes,
      nom_take = (\<lambda>n. read_fixed (unat n) (\<lambda>bs. bs)),
      nom_error = (\<lambda>i k. case k of NomTag \<Rightarrow> ''Tag'' | NomLengthValue \<Rightarrow> ''LengthValue''),
      rmp_header_to_vec = demo_to_vec,
      rmp_header_from_slice = demo_from_slice,
      rmp_value_write = (\<lambda>v. Inr [of_nat v]),
      rmp_value_from_slice = (\<lambda>bs. case bs of [b] \<Rightarrow> Inr (unat b) | _ \<Rightarrow> Inl ''invalid''),
      rmpv_nil = 192\<rparr>"

context fixed_width
begin

lemma read_fixed_iff: "read_fixed width dec i = Inr (r, w) \<longleftrightarrow> i = enc w @ r"
proof
  assume "read_fixed width dec i = Inr (r, w)"
  then have "width \<le> length i" and "r = drop width i" and "w = dec (take width i)"
    by (auto simp: read_fixed_def split: if_splits)
  then show "i = enc w @ r"
    by (simp add: rewrite_prefix)
next
  assume "i = enc w @ r"
  then show "read_fixed width dec i = Inr (r, w)"
    by (simp add: read_fixed_def length_enc dec_enc)
qed

end

lemma nom_laws_demo: "nom_laws demo_deps"
proof -
  have take: "read_fixed (unat n) (\<lambda>bs. bs) i = Inr (r, bs) \<longleftrightarrow>
      i = bs @ r \<and> length bs = unat n" for n :: usize and i r bs :: bytes
    by (auto simp: read_fixed_def)
  show ?thesis
    unfolding nom_laws_def demo_deps_def
    by (auto simp: be_u8.read_fixed_iff be_u32.read_fixed_iff be_u64.read_fixed_iff take simp del: One_nat_def
        split: sum.splits if_splits)
qed

end
