(* ===== verification/Frame_Parser.thy ===== *)
theory Frame_Parser
  imports Externals
begin

text \<open>
  The parsers of \<open>parser.rs\<close> that work on a complete byte string: the base header, the
  message frame and the peek at a message's type and sender. The specification is the
  serialised base header \<open>base_header_bytes\<close>, the layout \<open>RawMessage::to_bytes\<close> writes.
\<close>

section \<open>The model\<close>

definition base_header_bytes :: "base_header \<Rightarrow> bytes" where
  "base_header_bytes bh =
     u8_to_bytes (bh_version bh) @
     u8_to_bytes (message_type_to_u8 (bh_message_type bh)) @
     u32_to_be_bytes (bh_client_id bh) @
     bh_reserved bh @
     u32_to_be_bytes (bh_header_length bh) @
     u64_to_be_bytes (bh_payload_length bh)"

definition parse_base_header_nom :: "'v deps \<Rightarrow> base_header nom_parser" where
  "parse_base_header_nom d input =
     sum_bind (nom_verify d (nom_be_u8 d) (\<lambda>v. v = PROTOCOL_VERSION) input) (\<lambda>(input, version).
     sum_bind (nom_be_u8 d input) (\<lambda>(input, message_type_u8).
     sum_bind (nom_be_u32 d input) (\<lambda>(input, client_id).
     sum_bind (nom_take d RESERVED_SIZE input) (\<lambda>(input, reserved).
     sum_bind (nom_be_u32 d input) (\<lambda>(input, header_length).
     sum_bind (nom_be_u64 d input) (\<lambda>(input, payload_length).
       case message_type_from_u8 message_type_u8 of
         None \<Rightarrow> Inl (nom_error d input NomTag)
       | Some message_type \<Rightarrow>
           Inr (input,
             \<lparr>bh_version = version, bh_message_type = message_type, bh_client_id = client_id,
              bh_reserved = reserved, bh_header_length = header_length,
              bh_payload_length = payload_length\<rparr>)))))))"

definition parse_base_header :: "'v deps \<Rightarrow> bytes \<Rightarrow> base_header protocol_result" where
  "parse_base_header d input =
     (case parse_base_header_nom d input of
        Inr (_, base_header) \<Rightarrow> Ok base_header
      | Inl e \<Rightarrow> Err (ParseError (''Failed to parse base header: '' @ e)))"

record message_frame =
  mf_base_header :: base_header
  mf_header_bytes :: bytes
  mf_payload_bytes :: bytes

definition parse_message_frame_nom :: "'v deps \<Rightarrow> message_frame nom_parser" where
  "parse_message_frame_nom d input =
     sum_bind (parse_base_header_nom d input) (\<lambda>(input, base_header).
       let total_size = total_message_size base_header in
       if usize_len input + BASE_HEADER_SIZE \<noteq> total_size
       then Inl (nom_error d input NomLengthValue)
       else
         sum_bind (nom_take d (ucast (bh_header_length base_header)) input)
           (\<lambda>(input, header_bytes).
         sum_bind (nom_take d (bh_payload_length base_header) input)
           (\<lambda>(input, payload_bytes).
           Inr (input,
             \<lparr>mf_base_header = base_header, mf_header_bytes = header_bytes,
              mf_payload_bytes = payload_bytes\<rparr>))))"

definition parse_message_bytes :: "'v deps \<Rightarrow> bytes \<Rightarrow> message_frame protocol_result" where
  "parse_message_bytes d input =
     (case parse_message_frame_nom d input of
        Inr (remaining, frame) \<Rightarrow>
          if remaining \<noteq> [] then Err (ParseError ''Unexpected data after message'')
          else Ok frame
      | Inl e \<Rightarrow> Err (ParseError (''Failed to parse message: '' @ e)))"

text \<open>The indexing of \<open>data\<close> follows the length check, so it stays in range.\<close>

definition peek_message_info :: "bytes \<Rightarrow> (message_type \<times> u32) protocol_result" where
  "peek_message_info data =
     (if usize_len data < BASE_HEADER_SIZE then
        Err (IncompleteData BASE_HEADER_SIZE (usize_len data))
      else if data ! 0 \<noteq> PROTOCOL_VERSION then
        Err (InvalidVersion PROTOCOL_VERSION (data ! 0))
      else
        (case message_type_from_u8 (data ! 1) of
           None \<Rightarrow> Err (UnknownMessageType (data ! 1))
         | Some message_type \<Rightarrow>
             Ok (message_type, u32_from_be_bytes [data ! 2, data ! 3, data ! 4, data ! 5])))"

section \<open>Lemmas\<close>

lemma length_base_header_bytes [simp, wire]:
  "length (bh_reserved bh) = 16 \<Longrightarrow> length (base_header_bytes bh) = 34"
  by (simp add: base_header_bytes_def)

lemma wf_length [simp]: "wf_base_header bh \<Longrightarrow> length (base_header_bytes bh) = 34"
  by (simp add: wf_base_header_def)

text \<open>The parser of the base header reads the layout and nothing else.\<close>

lemma parse_base_header_nom_iff:
  assumes "nom_laws d"
  shows "parse_base_header_nom d input = Inr (rest, bh) \<longleftrightarrow>
    wf_base_header bh \<and> input = base_header_bytes bh @ rest"
proof
  assume "parse_base_header_nom d input = Inr (rest, bh)"
  then show "wf_base_header bh \<and> input = base_header_bytes bh @ rest"
    by (auto simp: parse_base_header_nom_def outcome nom_iffs [OF assms] from_u8_Some_iff
        wf_base_header_def base_header_bytes_def split: option.splits)
next
  assume "wf_base_header bh \<and> input = base_header_bytes bh @ rest"
  then show "parse_base_header_nom d input = Inr (rest, bh)"
    by (simp add: parse_base_header_nom_def nom_runs [OF assms]
        wf_base_header_def base_header_bytes_def)
qed

lemma parse_base_header_iff:
  assumes "nom_laws d"
  shows "parse_base_header d input = Ok bh \<longleftrightarrow>
    wf_base_header bh \<and> (\<exists>rest. input = base_header_bytes bh @ rest)"
proof -
  have "parse_base_header d input = Ok bh \<longleftrightarrow> (\<exists>rest. parse_base_header_nom d input = Inr (rest, bh))"
    by (auto simp: parse_base_header_def split: sum.splits)
  then show ?thesis
    by (simp add: parse_base_header_nom_iff [OF assms])
qed

lemma parse_base_header_no_panic [simp]: "parse_base_header d input \<noteq> Panic"
  by (auto simp: parse_base_header_def split: sum.splits)

lemma parse_base_header_short:
  assumes "nom_laws d" and "parse_base_header d input = Ok bh"
  shows "34 \<le> length input" and "base_header_bytes bh = take 34 input"
proof -
  obtain rest where "wf_base_header bh" and "input = base_header_bytes bh @ rest"
    using assms parse_base_header_iff by blast
  then show "34 \<le> length input" and "base_header_bytes bh = take 34 input"
    by simp_all
qed

lemma parse_base_header_take:
  assumes "nom_laws d" and "34 \<le> length input"
  shows "parse_base_header d (take 34 input) = Ok bh \<longleftrightarrow> parse_base_header d input = Ok bh"
proof
  assume "parse_base_header d (take 34 input) = Ok bh"
  then obtain rest where "wf_base_header bh" and "take 34 input = base_header_bytes bh @ rest"
    using parse_base_header_iff [OF assms(1)] by blast
  then have "input = base_header_bytes bh @ rest @ drop 34 input"
    using append_take_drop_id [of 34 input] by simp
  then show "parse_base_header d input = Ok bh"
    using parse_base_header_iff [OF assms(1)] \<open>wf_base_header bh\<close> by blast
next
  assume "parse_base_header d input = Ok bh"
  then obtain rest where "wf_base_header bh" and "input = base_header_bytes bh @ rest"
    using parse_base_header_iff [OF assms(1)] by blast
  then have "take 34 input = base_header_bytes bh @ []"
    by simp
  then show "parse_base_header d (take 34 input) = Ok bh"
    using parse_base_header_iff [OF assms(1)] \<open>wf_base_header bh\<close> by blast
qed

lemma base_header_bytes_inj:
  assumes "wf_base_header a" and "wf_base_header b" and "base_header_bytes a = base_header_bytes b"
  shows "a = b"
proof -
  have "parse_base_header demo_deps (base_header_bytes a) = Ok a"
    using assms(1) by (auto simp: parse_base_header_iff [OF nom_laws_demo])
  moreover have "parse_base_header demo_deps (base_header_bytes b) = Ok b"
    using assms(2) by (auto simp: parse_base_header_iff [OF nom_laws_demo])
  ultimately show ?thesis
    using assms(3) by (metis res.inject(1))
qed

text \<open>
  The complete frame: in a byte string no longer than an allocation can be, the size check
  on the wrapped sum and the two \<open>take\<close>s together mean that the frame is exactly the
  layout, so nothing remains.
\<close>

lemma parse_message_frame_nom_iff:
  assumes "nom_laws d" and "rust_sized input"
  shows "parse_message_frame_nom d input = Inr (rest, f) \<longleftrightarrow>
    rest = [] \<and> wf_base_header (mf_base_header f) \<and>
    length (mf_header_bytes f) = unat (bh_header_length (mf_base_header f)) \<and>
    length (mf_payload_bytes f) = unat (bh_payload_length (mf_base_header f)) \<and>
    input = base_header_bytes (mf_base_header f) @ mf_header_bytes f @ mf_payload_bytes f"
    (is "?L \<longleftrightarrow> ?R")
proof
  assume ?L
  then obtain i1 where i1: "wf_base_header (mf_base_header f)"
      "input = base_header_bytes (mf_base_header f) @ i1"
      "usize_len i1 + BASE_HEADER_SIZE = total_message_size (mf_base_header f)"
      "length (mf_header_bytes f) = unat (bh_header_length (mf_base_header f))"
      "length (mf_payload_bytes f) = unat (bh_payload_length (mf_base_header f))"
      "i1 = mf_header_bytes f @ mf_payload_bytes f @ rest"
    by (auto simp: parse_message_frame_nom_def outcome nom_iffs [OF assms(1)] Let_def
        parse_base_header_nom_iff [OF assms(1)] split: if_splits)
  have len: "34 + length i1 < 2 ^ 63"
    using assms(2) i1(1,2) by (simp add: rust_sized_def)
  have "unat (usize_len i1 + BASE_HEADER_SIZE) = 34 + length i1"
    using len by (simp add: unat_word_ariths unat_usize_len)
  moreover have "unat (total_message_size (mf_base_header f)) = announced_size (mf_base_header f)"
    using len i1(4-6) by (intro unat_total_no_wrap) (simp add: no_wrap_def announced_size_def)
  ultimately have "rest = []"
    using i1(3-6) by (simp add: announced_size_def)
  with i1 show ?R
    by simp
next
  assume R: ?R
  then have len: "34 + length (mf_header_bytes f @ mf_payload_bytes f) < 2 ^ 63"
    using assms(2) by (simp add: rust_sized_def)
  have "usize_len (mf_header_bytes f @ mf_payload_bytes f) + BASE_HEADER_SIZE =
      total_message_size (mf_base_header f)"
  proof (rule word_unat_eq_iff [THEN iffD2])
    have "no_wrap (mf_base_header f)"
      using len R by (simp add: no_wrap_def announced_size_def)
    then show "unat (usize_len (mf_header_bytes f @ mf_payload_bytes f) + BASE_HEADER_SIZE) =
        unat (total_message_size (mf_base_header f))"
      using len R
      by (simp add: unat_total_no_wrap announced_size_def unat_word_ariths unat_usize_len)
  qed
  moreover have "parse_base_header_nom d input =
      Inr (mf_header_bytes f @ mf_payload_bytes f, mf_base_header f)"
    using R by (simp add: parse_base_header_nom_iff [OF assms(1)])
  ultimately show ?L
    using R nom_take_run [OF assms(1), of "mf_payload_bytes f" _ "[]"]
    by (simp add: parse_message_frame_nom_def nom_take_run [OF assms(1)])
qed

lemma parse_message_bytes_iff:
  assumes "nom_laws d" and "rust_sized input"
  shows "parse_message_bytes d input = Ok f \<longleftrightarrow>
    wf_base_header (mf_base_header f) \<and>
    length (mf_header_bytes f) = unat (bh_header_length (mf_base_header f)) \<and>
    length (mf_payload_bytes f) = unat (bh_payload_length (mf_base_header f)) \<and>
    input = base_header_bytes (mf_base_header f) @ mf_header_bytes f @ mf_payload_bytes f"
proof -
  have "parse_message_bytes d input = Ok f \<longleftrightarrow> parse_message_frame_nom d input = Inr ([], f)"
    by (auto simp: parse_message_bytes_def split: sum.splits if_splits)
  then show ?thesis
    by (simp add: parse_message_frame_nom_iff [OF assms])
qed

lemma peek_prefix:
  assumes "wf_base_header bh" and "rust_sized (base_header_bytes bh @ rest)"
  shows "peek_message_info (base_header_bytes bh @ rest) =
    Ok (bh_message_type bh, bh_client_id bh)"
proof -
  obtain a b c e where cid: "u32_to_be_bytes (bh_client_id bh) = [a, b, c, e]"
    using length_4_conv [THEN iffD1, OF be_u32.length_enc] by blast
  let ?data = "base_header_bytes bh @ rest"
  have bytes: "?data ! 0 = PROTOCOL_VERSION" "?data ! 1 = message_type_to_u8 (bh_message_type bh)"
    "[?data ! 2, ?data ! 3, ?data ! 4, ?data ! 5] = u32_to_be_bytes (bh_client_id bh)"
    using assms(1)
    by (simp_all add: base_header_bytes_def u8_to_bytes_def cid wf_base_header_def)
  have "\<not> usize_len ?data < BASE_HEADER_SIZE"
    using assms by (simp add: word_less_nat_alt)
  then show ?thesis
    by (simp add: peek_message_info_def bytes del: append_assoc One_nat_def)
qed

section \<open>Properties\<close>

text \<open>
  The base header parser is exact: with \<open>nom\<close>'s documented behaviour it succeeds on an
  input exactly when the input starts with the 34 serialised bytes of a base header of
  the current protocol version, and it returns that header and leaves the rest.
\<close>

theorem base_header_parse_exact:
  assumes "nom_laws d"
  shows "parse_base_header_nom d input = Inr (rest, bh) \<longleftrightarrow>
    bh_version bh = PROTOCOL_VERSION \<and> length (bh_reserved bh) = 16 \<and>
    input = base_header_bytes bh @ rest"
  using parse_base_header_nom_iff [OF assms] by (auto simp: wf_base_header_def)

theorem base_header_parse_exact_witness:
  "parse_base_header_nom demo_deps
     (base_header_bytes (base_header_new Publish 1000 1 2) @ [9, 8]) =
   Inr ([9, 8], base_header_new Publish 1000 1 2)"
  by (rule base_header_parse_exact [OF nom_laws_demo, THEN iffD2])
    (simp add: base_header_new_def)

text \<open>
  C21. A complete frame parses exactly when the input is the serialised base header, a
  header of the announced length and a payload of the announced length, with nothing
  after it. In particular a length field that makes the 64-bit sum wrap is rejected here,
  and the branch that reports unexpected data after the message is never taken.
\<close>

theorem frame_parse_exact:
  assumes "nom_laws d" and "rust_sized input"
  shows "(parse_message_bytes d input = Ok f \<longleftrightarrow>
      wf_base_header (mf_base_header f) \<and>
      length (mf_header_bytes f) = unat (bh_header_length (mf_base_header f)) \<and>
      length (mf_payload_bytes f) = unat (bh_payload_length (mf_base_header f)) \<and>
      input = base_header_bytes (mf_base_header f) @ mf_header_bytes f @ mf_payload_bytes f) \<and>
    parse_message_bytes d input \<noteq> Err (ParseError ''Unexpected data after message'')"
proof -
  have "parse_message_bytes d input \<noteq> Err (ParseError ''Unexpected data after message'')"
    using parse_message_frame_nom_iff [OF assms]
    by (auto simp: parse_message_bytes_def split: sum.splits)
  then show ?thesis
    using parse_message_bytes_iff [OF assms] by blast
qed

theorem frame_parse_exact_witness:
  "parse_message_bytes demo_deps (base_header_bytes (base_header_new Publish 1000 1 2) @ [5, 6, 7]) =
   Ok \<lparr>mf_base_header = base_header_new Publish 1000 1 2, mf_header_bytes = [5],
       mf_payload_bytes = [6, 7]\<rparr>"
proof -
  have sized: "rust_sized (base_header_bytes (base_header_new Publish 1000 1 2) @ [5, 6, 7])"
    by (simp add: rust_sized_def)
  show ?thesis
    by (rule frame_parse_exact [OF nom_laws_demo sized, THEN conjunct1, THEN iffD2])
      (simp add: base_header_new_def wf_base_header_def)
qed

text \<open>
  The fast peek agrees with the full parser: on every input whose base header parses it
  returns that header's message type and client id, and on an input that is long enough it
  returns a pair exactly when the base header parses.
\<close>

theorem peek_agrees_with_parser:
  assumes "nom_laws d" and "rust_sized data"
  shows "peek_message_info data = Ok (t, c) \<longleftrightarrow>
    (\<exists>bh. parse_base_header d data = Ok bh \<and> bh_message_type bh = t \<and> bh_client_id bh = c)"
    (is "?L \<longleftrightarrow> ?R")
proof
  assume L: ?L
  then have len: "34 \<le> length data"
    using assms(2) by (auto simp: peek_message_info_def word_less_nat_alt split: if_splits)
  define bh where "bh = \<lparr>bh_version = data ! 0, bh_message_type = t,
    bh_client_id = u32_from_be_bytes (take 4 (drop 2 data)),
    bh_reserved = take 16 (drop 6 data), bh_header_length = u32_from_be_bytes (take 4 (drop 22 data)),
    bh_payload_length = u64_from_be_bytes (take 8 (drop 26 data))\<rparr>"
  have "data ! 1 = message_type_to_u8 t" and v: "data ! 0 = PROTOCOL_VERSION"
    using L by (auto simp: peek_message_info_def from_u8_Some_iff split: if_splits option.splits)
  moreover have "take 2 data = [data ! 0, data ! 1]"
    using len by (cases data; cases "tl data") (auto simp: eval_nat_numeral)
  ultimately have "base_header_bytes bh = take 2 data @ take 4 (drop 2 data) @
      take 16 (drop 6 data) @ take 4 (drop 22 data) @ take 8 (drop 26 data)"
    using len by (simp add: base_header_bytes_def bh_def be_write u8_to_bytes_def)
  also have "\<dots> = take (2 + (4 + (16 + (4 + 8)))) data"
    by (simp only: take_add drop_drop) simp
  finally have "base_header_bytes bh = take 34 data"
    by simp
  then have wf: "wf_base_header bh" and data: "data = base_header_bytes bh @ drop 34 data"
    using len v by (simp_all add: wf_base_header_def bh_def)
  then have "peek_message_info data = Ok (bh_message_type bh, bh_client_id bh)"
    using peek_prefix assms(2) by metis
  then show ?R
    using L wf data parse_base_header_iff [OF assms(1)] by auto
next
  assume ?R
  then show ?L
    using peek_prefix assms(2) parse_base_header_iff [OF assms(1)] by metis
qed

theorem peek_agrees_with_parser_witness:
  "peek_message_info (base_header_bytes (base_header_new Subscribe 5678 0 1) @ [192]) =
   Ok (Subscribe, 5678)"
proof -
  let ?bh = "base_header_new Subscribe 5678 0 1"
  have sized: "rust_sized (base_header_bytes ?bh @ [192])"
    by (simp add: rust_sized_def)
  have "parse_base_header demo_deps (base_header_bytes ?bh @ [192]) = Ok ?bh"
    by (auto simp: parse_base_header_iff [OF nom_laws_demo])
  then show ?thesis
    by (intro peek_agrees_with_parser [OF nom_laws_demo sized, THEN iffD2])
      (auto simp: base_header_new_def)
qed

end
