(* ===== verification/Validation.thy ===== *)
theory Validation
  imports Protocol_Types
begin

text \<open>
  \<open>validate_message_structure\<close> of \<open>parser.rs\<close>: the required and forbidden header fields of
  each message type and the rules on routing entries, with the table the function
  implements as its specification.
\<close>

section \<open>The model\<close>

primrec required_fields :: "message_type \<Rightarrow> header_field list" where
  "required_fields Join = [F_ClientName]"
| "required_fields Request = [F_Routing, F_Reqrep]"
| "required_fields Response = [F_Routing, F_Reqrep]"
| "required_fields Notification = [F_Routing]"
| "required_fields Broadcast = []"
| "required_fields Publish = [F_Topic]"
| "required_fields Subscribe = [F_Topic]"
| "required_fields Unsubscribe = [F_Topic]"

primrec forbidden_fields :: "message_type \<Rightarrow> header_field list" where
  "forbidden_fields Join = [F_Routing, F_Reqrep, F_Topic, F_Status]"
| "forbidden_fields Request = [F_Topic, F_Auth]"
| "forbidden_fields Response = [F_Topic, F_Auth]"
| "forbidden_fields Notification = [F_Reqrep, F_Topic, F_Auth]"
| "forbidden_fields Broadcast = [F_Routing, F_Reqrep, F_Topic, F_Auth]"
| "forbidden_fields Publish = [F_Routing, F_Reqrep, F_Auth]"
| "forbidden_fields Subscribe = [F_Routing, F_Reqrep, F_Status, F_Auth]"
| "forbidden_fields Unsubscribe = [F_Routing, F_Reqrep, F_Status, F_Auth]"

primrec check_required :: "message_type \<Rightarrow> 'v header \<Rightarrow> header_field list \<Rightarrow> unit protocol_result"
where
  "check_required t h [] = Ok ()"
| "check_required t h (f # fs) =
     (if \<not> is_present_in f h
      then Err (MissingRequiredField (field_name f) (message_type_as_str t))
      else check_required t h fs)"

primrec check_forbidden :: "message_type \<Rightarrow> 'v header \<Rightarrow> header_field list \<Rightarrow> unit protocol_result"
where
  "check_forbidden t h [] = Ok ()"
| "check_forbidden t h (f # fs) =
     (if is_present_in f h
      then Err (ForbiddenField (field_name f) (message_type_as_str t))
      else check_forbidden t h fs)"

definition check_routing :: "message_type \<Rightarrow> 'v header \<Rightarrow> unit protocol_result" where
  "check_routing t h =
     (if t = Request \<or> t = Response then
        (case h_routing h of
           None \<Rightarrow> Ok ()
         | Some routing \<Rightarrow>
             if length routing \<noteq> 1 then
               Err (InvalidRouting (message_type_as_str t @
                 '' messages must have exactly one routing entry, got '' @
                 display_nat (length routing)))
             else if t = Response \<and> r_client_id (routing ! 0) = None then
               Err (InvalidRouting ''REP messages must include client_id in routing'')
             else Ok ())
      else if t = Notification then
        (case h_routing h of
           None \<Rightarrow> Ok ()
         | Some routing \<Rightarrow>
             if routing = [] then
               Err (InvalidRouting ''NOTIF messages must have at least one routing entry'')
             else Ok ())
      else Ok ())"

definition validate_message_structure :: "message_type \<Rightarrow> 'v header \<Rightarrow> unit protocol_result" where
  "validate_message_structure t h =
     res_bind (check_required t h (required_fields t)) (\<lambda>_.
     res_bind (check_forbidden t h (forbidden_fields t)) (\<lambda>_.
     check_routing t h))"

section \<open>The specification\<close>

text \<open>What a well-formed header of each type is, written as the protocol's table.\<close>

fun well_formed :: "message_type \<Rightarrow> 'v header \<Rightarrow> bool" where
  "well_formed Join h \<longleftrightarrow>
     h_client_name h \<noteq> None \<and> h_routing h = None \<and> h_reqrep h = None \<and> h_topic h = None \<and>
     h_status h = None"
| "well_formed Request h \<longleftrightarrow>
     (\<exists>r. h_routing h = Some [r]) \<and> h_reqrep h \<noteq> None \<and> h_topic h = None \<and> h_auth h = None"
| "well_formed Response h \<longleftrightarrow>
     (\<exists>r c. h_routing h = Some [r] \<and> r_client_id r = Some c) \<and> h_reqrep h \<noteq> None \<and>
     h_topic h = None \<and> h_auth h = None"
| "well_formed Notification h \<longleftrightarrow>
     (\<exists>r rs. h_routing h = Some (r # rs)) \<and> h_reqrep h = None \<and> h_topic h = None \<and>
     h_auth h = None"
| "well_formed Broadcast h \<longleftrightarrow>
     h_routing h = None \<and> h_reqrep h = None \<and> h_topic h = None \<and> h_auth h = None"
| "well_formed Publish h \<longleftrightarrow>
     h_topic h \<noteq> None \<and> h_routing h = None \<and> h_reqrep h = None \<and> h_auth h = None"
| "well_formed Subscribe h \<longleftrightarrow>
     h_topic h \<noteq> None \<and> h_routing h = None \<and> h_reqrep h = None \<and> h_status h = None \<and>
     h_auth h = None"
| "well_formed Unsubscribe h \<longleftrightarrow>
     h_topic h \<noteq> None \<and> h_routing h = None \<and> h_reqrep h = None \<and> h_status h = None \<and>
     h_auth h = None"

section \<open>Lemmas\<close>

lemma check_required_find:
  "check_required t h fs =
     (case find (\<lambda>f. \<not> is_present_in f h) fs of
        None \<Rightarrow> Ok ()
      | Some f \<Rightarrow> Err (MissingRequiredField (field_name f) (message_type_as_str t)))"
  by (induction fs) auto

lemma check_forbidden_find:
  "check_forbidden t h fs =
     (case find (\<lambda>f. is_present_in f h) fs of
        None \<Rightarrow> Ok ()
      | Some f \<Rightarrow> Err (ForbiddenField (field_name f) (message_type_as_str t)))"
  by (induction fs) auto

lemma check_required_Ok: "check_required t h fs = Ok () \<longleftrightarrow> (\<forall>f \<in> set fs. is_present_in f h)"
  by (induction fs) auto

lemma check_forbidden_Ok: "check_forbidden t h fs = Ok () \<longleftrightarrow> (\<forall>f \<in> set fs. \<not> is_present_in f h)"
  by (induction fs) auto

lemma check_routing_no_panic: "check_routing t h \<noteq> Panic"
  by (auto simp: check_routing_def split: option.splits)

lemma length_1_iff: "length xs = Suc 0 \<longleftrightarrow> (\<exists>x. xs = [x])"
  by (cases xs) auto

lemma validate_ok_iff: "validate_message_structure t h = Ok () \<longleftrightarrow> well_formed t h"
  by (cases t)
    (auto simp: validate_message_structure_def outcome check_required_Ok check_forbidden_Ok
      check_routing_def length_1_iff neq_Nil_conv split: option.splits if_splits)

lemma validate_cases:
  "validate_message_structure t h =
     (case find (\<lambda>f. \<not> is_present_in f h) (required_fields t) of
        Some f \<Rightarrow> Err (MissingRequiredField (field_name f) (message_type_as_str t))
      | None \<Rightarrow>
          (case find (\<lambda>f. is_present_in f h) (forbidden_fields t) of
             Some f \<Rightarrow> Err (ForbiddenField (field_name f) (message_type_as_str t))
           | None \<Rightarrow> check_routing t h))"
  by (simp add: validate_message_structure_def check_required_find check_forbidden_find
      split: option.splits)

lemma validate_no_panic: "validate_message_structure t h \<noteq> Panic"
  by (simp add: validate_cases check_routing_no_panic split: option.splits)

section \<open>Properties\<close>

text \<open>
  C12. Refinement of the specification: validation accepts a header for a message type
  exactly when the header is well formed by the protocol's table, otherwise it returns an
  error, and it never panics (the indexing of the first routing entry is guarded).
\<close>

theorem validate_refines_table:
  "(validate_message_structure t h = Ok () \<longleftrightarrow> well_formed t h) \<and>
   (is_err (validate_message_structure t h) \<longleftrightarrow> \<not> well_formed t h)"
proof -
  have "validate_message_structure t h = Ok () \<or> is_err (validate_message_structure t h)"
    using validate_no_panic [of t h] by (cases "validate_message_structure t h") simp_all
  then show ?thesis
    using validate_ok_iff [of t h] by auto
qed

text \<open>
  Which error is reported: the first missing required field, before the first present
  forbidden field, before any error about routing entries; the reported field is named by
  its wire name and the type by its protocol name.
\<close>

theorem validate_error_priority:
  "validate_message_structure t h =
     (case find (\<lambda>f. \<not> is_present_in f h) (required_fields t) of
        Some f \<Rightarrow> Err (MissingRequiredField (field_name f) (message_type_as_str t))
      | None \<Rightarrow>
          (case find (\<lambda>f. is_present_in f h) (forbidden_fields t) of
             Some f \<Rightarrow> Err (ForbiddenField (field_name f) (message_type_as_str t))
           | None \<Rightarrow> check_routing t h))"
  by (rule validate_cases)

end
