(* ===== verification/Messages.thy ===== *)
theory Messages
  imports Frame_Parser Validation
begin

text \<open>
  \<open>message.rs\<close>: the lazily parsed \<open>Message\<close> with its three caches, the \<open>RawMessage\<close>
  that is serialised, and the fully parsed \<open>TypedMessage\<close>. A method that takes
  \<open>&self\<close> and fills a cache returns the message with the cache filled. A value of a Rust
  type known only by its \<open>TypeId\<close> is a pair of that id (a string) and a value of type
  \<open>'d\<close>.
\<close>

section \<open>The model of \<open>Message\<close>\<close>

record ('v, 'd) message =
  m_base_header :: base_header
  m_raw_data :: bytes
  m_header_cache :: "'v header option"
  m_payload_cache :: "'v option"
  m_typed_payload_cache :: "(string \<times> 'd) option"

definition from_bytes :: "'v deps \<Rightarrow> bytes \<Rightarrow> ('v, 'd) message protocol_result" where
  "from_bytes d data =
     (if usize_len data < BASE_HEADER_SIZE then
        Err (IncompleteData BASE_HEADER_SIZE (usize_len data))
      else
        res_bind (parse_base_header d data) (\<lambda>base_header.
          let expected_size = total_message_size base_header in
          if usize_len data \<noteq> expected_size then
            Err (IncompleteData expected_size (usize_len data))
          else
            Ok \<lparr>m_base_header = base_header, m_raw_data = data, m_header_cache = None,
                m_payload_cache = None, m_typed_payload_cache = None\<rparr>))"

definition m_message_type :: "('v, 'd) message \<Rightarrow> message_type" where
  "m_message_type m = bh_message_type (m_base_header m)"

definition m_client_id :: "('v, 'd) message \<Rightarrow> u32" where
  "m_client_id m = bh_client_id (m_base_header m)"

definition m_header_length :: "('v, 'd) message \<Rightarrow> u32" where
  "m_header_length m = bh_header_length (m_base_header m)"

definition m_payload_length :: "('v, 'd) message \<Rightarrow> u64" where
  "m_payload_length m = bh_payload_length (m_base_header m)"

definition m_total_size :: "('v, 'd) message \<Rightarrow> u64" where
  "m_total_size m = total_message_size (m_base_header m)"

definition m_raw_bytes :: "('v, 'd) message \<Rightarrow> bytes" where
  "m_raw_bytes m = m_raw_data m"

definition raw_header_bytes :: "('v, 'd) message \<Rightarrow> bytes protocol_result" where
  "raw_header_bytes m =
     (if bh_header_length (m_base_header m) = 0 then Ok []
      else
        let start = BASE_HEADER_SIZE;
            end = start + ucast (bh_header_length (m_base_header m))
        in slice (m_raw_data m) start end)"

definition raw_payload_bytes :: "('v, 'd) message \<Rightarrow> bytes protocol_result" where
  "raw_payload_bytes m =
     (if bh_payload_length (m_base_header m) = 0 then Ok []
      else
        let start = BASE_HEADER_SIZE + ucast (bh_header_length (m_base_header m));
            end = start + bh_payload_length (m_base_header m)
        in slice (m_raw_data m) start end)"

text \<open>
  \<open>OnceCell::get_or_try_init\<close>: the value in the cell, or else the result of the
  initialiser, stored when it is \<open>Ok\<close>.
\<close>

definition get_or_try_init :: "'a option \<Rightarrow> ('a, 'e) res \<Rightarrow> 'a option \<times> ('a, 'e) res" where
  "get_or_try_init cell init =
     (case cell of
        Some x \<Rightarrow> (cell, Ok x)
      | None \<Rightarrow> (case init of Ok x \<Rightarrow> (Some x, Ok x) | r \<Rightarrow> (None, r)))"

definition header_init :: "'v deps \<Rightarrow> ('v, 'd) message \<Rightarrow> 'v header protocol_result" where
  "header_init d m =
     (if 0 < bh_header_length (m_base_header m) then
        res_bind (raw_header_bytes m) (\<lambda>bs. of_ext from_decode_error (rmp_header_from_slice d bs))
      else Ok header_default)"

definition m_header :: "'v deps \<Rightarrow> ('v, 'd) message \<Rightarrow> ('v, 'd) message \<times> 'v header protocol_result"
where
  "m_header d m =
     (let (cell, r) = get_or_try_init (m_header_cache m) (header_init d m)
      in (m\<lparr>m_header_cache := cell\<rparr>, r))"

definition payload_init :: "'v deps \<Rightarrow> ('v, 'd) message \<Rightarrow> 'v protocol_result" where
  "payload_init d m =
     (if 0 < bh_payload_length (m_base_header m) then
        res_bind (raw_payload_bytes m) (\<lambda>bs. of_ext from_decode_error (rmp_value_from_slice d bs))
      else Ok (rmpv_nil d))"

definition m_payload :: "'v deps \<Rightarrow> ('v, 'd) message \<Rightarrow> ('v, 'd) message \<times> 'v protocol_result" where
  "m_payload d m =
     (let (cell, r) = get_or_try_init (m_payload_cache m) (payload_init d m)
      in (m\<lparr>m_payload_cache := cell\<rparr>, r))"

text \<open>
  \<open>payload_as::<T>\<close>: \<open>tid\<close> is \<open>TypeId::of::<T>()\<close> and \<open>de\<close> is \<open>rmp_serde::from_slice::<T>\<close>.
  \<open>set\<close> on a filled cell is refused and the refusal is dropped; the two \<open>expect\<close>s then
  abort if the cell holds another type.
\<close>

definition downcast :: "string \<Rightarrow> (string \<times> 'd) option \<Rightarrow> 'd option" where
  "downcast tid c = (case c of Some (t, v) \<Rightarrow> if t = tid then Some v else None | None \<Rightarrow> None)"

definition payload_as ::
  "string \<Rightarrow> (bytes \<Rightarrow> string + 'd) \<Rightarrow> ('v, 'd) message \<Rightarrow> ('v, 'd) message \<times> 'd protocol_result"
where
  "payload_as tid de m =
     (case downcast tid (m_typed_payload_cache m) of
        Some payload \<Rightarrow> (m, Ok payload)
      | None \<Rightarrow>
          (case res_bind (raw_payload_bytes m) (\<lambda>bs. of_ext from_decode_error (de bs)) of
             Err e \<Rightarrow> (m, Err e)
           | Panic \<Rightarrow> (m, Panic)
           | Ok payload \<Rightarrow>
               let m = (case m_typed_payload_cache m of
                          None \<Rightarrow> m\<lparr>m_typed_payload_cache := Some (tid, payload)\<rparr>
                        | Some _ \<Rightarrow> m)
               in (m, case downcast tid (m_typed_payload_cache m) of
                        Some payload \<Rightarrow> Ok payload
                      | None \<Rightarrow> Panic)))"

definition is_header_cached :: "('v, 'd) message \<Rightarrow> bool" where
  "is_header_cached m \<longleftrightarrow> m_header_cache m \<noteq> None"

definition is_payload_cached :: "('v, 'd) message \<Rightarrow> bool" where
  "is_payload_cached m \<longleftrightarrow> m_payload_cache m \<noteq> None"

definition clear_cache :: "('v, 'd) message \<Rightarrow> ('v, 'd) message" where
  "clear_cache m =
     m\<lparr>m_header_cache := None, m_payload_cache := None, m_typed_payload_cache := None\<rparr>"

section \<open>The model of \<open>RawMessage\<close>\<close>

record 'v raw_message =
  rm_message_type :: message_type
  rm_client_id :: u32
  rm_header :: "'v header"
  rm_payload_data :: bytes

text \<open>\<open>payload\<close> is the outcome of \<open>rmp_serde::encode::write\<close> on the given payload.\<close>

definition raw_message_new ::
  "message_type \<Rightarrow> u32 \<Rightarrow> 'v header \<Rightarrow> string + bytes \<Rightarrow> 'v raw_message protocol_result"
where
  "raw_message_new message_type client_id header payload =
     res_bind (of_ext from_encode_error payload) (\<lambda>payload_data.
       Ok \<lparr>rm_message_type = message_type, rm_client_id = client_id, rm_header = header,
           rm_payload_data = payload_data\<rparr>)"

definition header_bytes_of :: "'v deps \<Rightarrow> 'v header \<Rightarrow> bytes protocol_result" where
  "header_bytes_of d header =
     (if header = header_default then Ok []
      else of_ext from_encode_error (rmp_header_to_vec d header))"

definition to_bytes :: "'v deps \<Rightarrow> 'v raw_message \<Rightarrow> bytes protocol_result" where
  "to_bytes d rm =
     res_bind (header_bytes_of d (rm_header rm)) (\<lambda>header_bytes.
       let header_length = (of_nat (length header_bytes) :: u32);
           payload_length = (of_nat (length (rm_payload_data rm)) :: u64)
       in
       if header_length > ucast DEFAULT_MAX_HEADER_SIZE then
         Err (HeaderTooLarge (ucast header_length) DEFAULT_MAX_HEADER_SIZE)
       else
         let total_size = BASE_HEADER_SIZE + ucast header_length + payload_length in
         if total_size > DEFAULT_MAX_MESSAGE_SIZE then
           Err (MessageTooLarge total_size DEFAULT_MAX_MESSAGE_SIZE)
         else
           let base_header =
             base_header_new (rm_message_type rm) (rm_client_id rm) header_length payload_length
           in Ok (base_header_bytes base_header @ header_bytes @ rm_payload_data rm))"

definition into_message :: "'v deps \<Rightarrow> 'v raw_message \<Rightarrow> ('v, 'd) message protocol_result" where
  "into_message d rm = res_bind (to_bytes d rm) (\<lambda>bs. from_bytes d bs)"

text \<open>
  \<open>create_response\<close>; the bytes are those of the response's payload. The index \<open>[0]\<close> of the
  routing is written after the test that it is not empty.
\<close>

definition create_response ::
  "'v deps \<Rightarrow> ('v, 'd) message \<Rightarrow> u32 \<Rightarrow> status_code option \<Rightarrow> string + bytes \<Rightarrow>
   ('v, 'd) message \<times> 'v raw_message protocol_result"
where
  "create_response d m sender_client_id status payload =
     (if bh_message_type (m_base_header m) \<noteq> Request then
        (m, Err (InvalidFormat ''Cannot create response for non-request message''))
      else
        let (m', r) = m_header d m in
        (m', res_bind r (\<lambda>req_header.
          case h_reqrep req_header of
            None \<Rightarrow> Err (InvalidFormat ''Request message missing reqrep field'')
          | Some req_reqrep \<Rightarrow>
          (case h_routing req_header of
            None \<Rightarrow> Err (InvalidFormat ''Request message missing routing field'')
          | Some original_routing \<Rightarrow>
              if original_routing = [] then
                Err (InvalidFormat ''Request message has empty routing'')
              else
                let original_routing =
                      original_routing[0 := (original_routing ! 0)
                        \<lparr>r_client_id := Some (m_client_id m')\<rparr>];
                    response_header =
                      header_new
                        \<lparr>h_reqrep := Some \<lparr>rr_type = Correlation, rr_id = rr_id req_reqrep\<rparr>,
                         h_routing := Some original_routing,
                         h_status := status\<rparr>
                in raw_message_new Response sender_client_id response_header payload))))"

section \<open>The model of \<open>TypedMessage\<close>\<close>

record ('v, 'p) typed_message =
  tm_base_header :: base_header
  tm_header :: "'v header"
  tm_payload :: 'p

definition from_message ::
  "'v deps \<Rightarrow> (bytes \<Rightarrow> string + 'p) \<Rightarrow> ('v, 'd) message \<Rightarrow>
   ('v, 'd) message \<times> ('v, 'p) typed_message protocol_result"
where
  "from_message d de m =
     (let (m', r) = m_header d m in
      (m', res_bind r (\<lambda>header.
           res_bind (raw_payload_bytes m') (\<lambda>bs.
           res_bind (of_ext from_decode_error (de bs)) (\<lambda>payload.
             Ok \<lparr>tm_base_header = m_base_header m', tm_header = header,
                 tm_payload = payload\<rparr>)))))"

text \<open>\<open>expect\<close> aborts on an error.\<close>

definition expect_res :: "('a, 'e) res \<Rightarrow> ('a, 'e) res" where
  "expect_res r = (case r of Ok x \<Rightarrow> Ok x | _ \<Rightarrow> Panic)"

definition message_from_typed ::
  "'v deps \<Rightarrow> ('p \<Rightarrow> string + bytes) \<Rightarrow> ('v, 'p) typed_message \<Rightarrow> ('v, 'd) message protocol_result"
where
  "message_from_typed d ser typed =
     res_bind
       (expect_res (raw_message_new (bh_message_type (tm_base_header typed))
          (bh_client_id (tm_base_header typed)) (tm_header typed) (ser (tm_payload typed))))
       (\<lambda>raw. expect_res (into_message d raw))"

section \<open>Layout\<close>

text \<open>A message as it leaves \<open>from_bytes\<close>: nothing cached.\<close>

definition fresh_message :: "base_header \<Rightarrow> bytes \<Rightarrow> ('v, 'd) message" where
  "fresh_message bh data =
     \<lparr>m_base_header = bh, m_raw_data = data, m_header_cache = None, m_payload_cache = None,
      m_typed_payload_cache = None\<rparr>"

text \<open>
  What \<open>from_bytes\<close> establishes: the raw data starts with the serialised base header and
  its length is the wrapped sum of the announced lengths.
\<close>

definition framed :: "('v, 'd) message \<Rightarrow> bool" where
  "framed m \<longleftrightarrow>
     wf_base_header (m_base_header m) \<and> rust_sized (m_raw_data m) \<and>
     (\<exists>rest. m_raw_data m = base_header_bytes (m_base_header m) @ rest) \<and>
     usize_len (m_raw_data m) = total_message_size (m_base_header m)"

lemma from_bytes_iff:
  assumes "nom_laws d" and "rust_sized data"
  shows "from_bytes d data = Ok m \<longleftrightarrow> m = fresh_message (m_base_header m) data \<and> framed m"
proof -
  have short: "\<not> usize_len data < BASE_HEADER_SIZE"
    if "wf_base_header bh" and "data = base_header_bytes bh @ rest" for bh rest
    using that assms(2) by (simp add: word_less_nat_alt)
  show ?thesis
  proof
    assume "from_bytes d data = Ok m"
    then show "m = fresh_message (m_base_header m) data \<and> framed m"
      using assms(2)
      by (auto simp: from_bytes_def Let_def outcome parse_base_header_iff [OF assms(1)]
          fresh_message_def framed_def split: if_splits)
  next
    assume R: "m = fresh_message (m_base_header m) data \<and> framed m"
    then have raw: "m_raw_data m = data"
      by (metis fresh_message_def message.select_convs(2))
    with R obtain rest where wf: "wf_base_header (m_base_header m)"
      and data: "data = base_header_bytes (m_base_header m) @ rest"
      and len: "usize_len data = total_message_size (m_base_header m)"
      by (auto simp: framed_def)
    have "parse_base_header d data = Ok (m_base_header m)"
      using wf data parse_base_header_iff [OF assms(1)] by blast
    then show "from_bytes d data = Ok m"
      using short [OF wf data] len R
      by (simp add: from_bytes_def fresh_message_def)
  qed
qed

lemma framed_length:
  "framed m \<Longrightarrow> length (m_raw_data m) = announced_size (m_base_header m) mod 2 ^ 64"
  using unat_total_message_size [of "m_base_header m"] by (auto simp: framed_def dest: sym)

text \<open>Without wrap-around, a framed message is the concatenation of its three sections.\<close>

lemma framed_sections:
  assumes "framed m" and "no_wrap (m_base_header m)"
  obtains hb pb where
    "m_raw_data m = base_header_bytes (m_base_header m) @ hb @ pb"
    "length hb = unat (bh_header_length (m_base_header m))"
    "length pb = unat (bh_payload_length (m_base_header m))"
proof -
  let ?bh = "m_base_header m"
  obtain rest where rest: "m_raw_data m = base_header_bytes ?bh @ rest" and wf: "wf_base_header ?bh"
    using assms(1) by (auto simp: framed_def)
  have "length (m_raw_data m) = announced_size ?bh"
    using framed_length [OF assms(1)] assms(2) by (simp add: no_wrap_def)
  then have "length rest = unat (bh_header_length ?bh) + unat (bh_payload_length ?bh)"
    using rest wf by (simp add: announced_size_def)
  then show thesis
    using that [of "take (unat (bh_header_length ?bh)) rest" "drop (unat (bh_header_length ?bh)) rest"]
      rest by simp
qed

lemma raw_sections:
  assumes "m_raw_data m = base_header_bytes (m_base_header m) @ hb @ pb"
    and "wf_base_header (m_base_header m)"
    and "length hb = unat (bh_header_length (m_base_header m))"
    and "length pb = unat (bh_payload_length (m_base_header m))"
    and "no_wrap (m_base_header m)"
  shows "raw_header_bytes m = Ok hb" and "raw_payload_bytes m = Ok pb"
proof -
  let ?bh = "m_base_header m"
  have start: "unat (BASE_HEADER_SIZE + ucast (bh_header_length ?bh) :: u64) =
      34 + unat (bh_header_length ?bh)"
    using unat_u32_lt [of "bh_header_length ?bh"] by (simp add: unat_word_ariths)
  have stop: "unat (BASE_HEADER_SIZE + ucast (bh_header_length ?bh) + bh_payload_length ?bh) =
      34 + unat (bh_header_length ?bh) + unat (bh_payload_length ?bh)"
    using unat_total_no_wrap [OF assms(5)] by (simp add: total_message_size_def announced_size_def)
  show "raw_header_bytes m = Ok hb"
  proof (cases "bh_header_length ?bh = 0")
    case True
    then show ?thesis
      using assms(3) by (simp add: raw_header_bytes_def)
  next
    case False
    have "slice (base_header_bytes ?bh @ hb @ pb) BASE_HEADER_SIZE
        (BASE_HEADER_SIZE + ucast (bh_header_length ?bh)) = (Ok hb :: bytes protocol_result)"
      using assms(2,3) start by (intro slice_appended) simp_all
    with False assms(1) show ?thesis
      by (simp add: raw_header_bytes_def)
  qed
  show "raw_payload_bytes m = Ok pb"
  proof (cases "bh_payload_length ?bh = 0")
    case True
    then show ?thesis
      using assms(4) by (simp add: raw_payload_bytes_def)
  next
    case False
    have "slice ((base_header_bytes ?bh @ hb) @ pb @ []) (BASE_HEADER_SIZE + ucast (bh_header_length ?bh))
        (BASE_HEADER_SIZE + ucast (bh_header_length ?bh) + bh_payload_length ?bh) =
        (Ok pb :: bytes protocol_result)"
      using assms(2-4) start stop by (intro slice_appended) simp_all
    with False assms(1) show ?thesis
      by (simp add: raw_payload_bytes_def)
  qed
qed

text \<open>With wrap-around the payload range is inverted: its end lies before its start.\<close>

lemma wrapped_payload_panics:
  assumes "\<not> no_wrap (m_base_header m)"
  shows "raw_payload_bytes m = Panic"
proof -
  let ?bh = "m_base_header m"
  have start: "unat (BASE_HEADER_SIZE + ucast (bh_header_length ?bh) :: u64) =
      34 + unat (bh_header_length ?bh)"
    using unat_u32_lt [of "bh_header_length ?bh"] by (simp add: unat_word_ariths)
  have pl: "unat (bh_payload_length ?bh) < 2 ^ 64"
    by (rule unat_u64_lt)
  have hl: "unat (bh_header_length ?bh) < 2 ^ 32"
    by (rule unat_u32_lt)
  have big: "2 ^ 64 \<le> announced_size ?bh"
    using assms by (simp add: no_wrap_def)
  have "unat (total_message_size ?bh) = announced_size ?bh - 2 ^ 64"
    using big pl hl by (simp add: unat_total_message_size announced_size_def mod_if)
  then have "unat (total_message_size ?bh) < 34 + unat (bh_header_length ?bh)"
    using big pl by (simp add: announced_size_def)
  then have "\<not> BASE_HEADER_SIZE + ucast (bh_header_length ?bh) \<le> total_message_size ?bh"
    using start by (simp add: word_le_nat_alt)
  moreover have "bh_payload_length ?bh \<noteq> 0"
    using big hl by (auto simp: announced_size_def)
  ultimately show ?thesis
    by (simp add: raw_payload_bytes_def slice_Panic_iff total_message_size_def Let_def)
qed

section \<open>Caches\<close>

text \<open>
  The invariant of the lazy caches: a cached header or payload is what parsing the raw
  bytes gives.
\<close>

definition caches_coherent :: "'v deps \<Rightarrow> ('v, 'd) message \<Rightarrow> bool" where
  "caches_coherent d m \<longleftrightarrow>
     (\<forall>h. m_header_cache m = Some h \<longrightarrow> header_init d m = Ok h) \<and>
     (\<forall>v. m_payload_cache m = Some v \<longrightarrow> payload_init d m = Ok v)"

lemma inits_ignore_caches [simp]:
  "raw_header_bytes (m\<lparr>m_header_cache := a\<rparr>) = raw_header_bytes m"
  "raw_header_bytes (m\<lparr>m_payload_cache := b\<rparr>) = raw_header_bytes m"
  "raw_header_bytes (m\<lparr>m_typed_payload_cache := c\<rparr>) = raw_header_bytes m"
  "raw_payload_bytes (m\<lparr>m_header_cache := a\<rparr>) = raw_payload_bytes m"
  "raw_payload_bytes (m\<lparr>m_payload_cache := b\<rparr>) = raw_payload_bytes m"
  "raw_payload_bytes (m\<lparr>m_typed_payload_cache := c\<rparr>) = raw_payload_bytes m"
  by (simp_all add: raw_header_bytes_def raw_payload_bytes_def)

lemma init_ignores_caches [simp]:
  "header_init d (m\<lparr>m_header_cache := a\<rparr>) = header_init d m"
  "header_init d (m\<lparr>m_payload_cache := b\<rparr>) = header_init d m"
  "header_init d (m\<lparr>m_typed_payload_cache := c\<rparr>) = header_init d m"
  "payload_init d (m\<lparr>m_header_cache := a\<rparr>) = payload_init d m"
  "payload_init d (m\<lparr>m_payload_cache := b\<rparr>) = payload_init d m"
  "payload_init d (m\<lparr>m_typed_payload_cache := c\<rparr>) = payload_init d m"
  by (simp_all add: header_init_def payload_init_def)

lemma fresh_coherent [simp]: "caches_coherent d (fresh_message bh data)"
  by (simp add: caches_coherent_def fresh_message_def)

lemma m_header_snd:
  "caches_coherent d m \<Longrightarrow> snd (m_header d m) = header_init d m"
  by (auto simp: m_header_def get_or_try_init_def caches_coherent_def split: option.splits res.splits)

lemma m_payload_snd:
  "caches_coherent d m \<Longrightarrow> snd (m_payload d m) = payload_init d m"
  by (auto simp: m_payload_def get_or_try_init_def caches_coherent_def split: option.splits res.splits)

lemma m_header_coherent: "caches_coherent d m \<Longrightarrow> caches_coherent d (fst (m_header d m))"
  by (auto simp: m_header_def get_or_try_init_def caches_coherent_def split: option.splits res.splits)

lemma m_payload_coherent: "caches_coherent d m \<Longrightarrow> caches_coherent d (fst (m_payload d m))"
  by (auto simp: m_payload_def get_or_try_init_def caches_coherent_def split: option.splits res.splits)

lemma payload_as_coherent: "caches_coherent d m \<Longrightarrow> caches_coherent d (fst (payload_as tid de m))"
  by (auto simp: payload_as_def caches_coherent_def Let_def split: option.splits res.splits)

lemma clear_cache_coherent: "caches_coherent d (clear_cache m)"
  by (simp add: caches_coherent_def clear_cache_def)

lemma accessors_keep_data [simp]:
  "m_base_header (fst (m_header d m)) = m_base_header m"
  "m_raw_data (fst (m_header d m)) = m_raw_data m"
  "m_base_header (fst (m_payload d m)) = m_base_header m"
  "m_raw_data (fst (m_payload d m)) = m_raw_data m"
  "m_base_header (fst (payload_as tid de m)) = m_base_header m"
  "m_raw_data (fst (payload_as tid de m)) = m_raw_data m"
  "m_base_header (clear_cache m) = m_base_header m"
  "m_raw_data (clear_cache m) = m_raw_data m"
  by (auto simp: m_header_def m_payload_def payload_as_def clear_cache_def Let_def
      split: prod.splits option.splits res.splits)

text \<open>A sequence of calls on one shared message.\<close>

datatype 'd accessor =
    GetHeader
  | GetPayload
  | PayloadAs string "bytes \<Rightarrow> string + 'd"
  | ClearCache

fun access :: "'v deps \<Rightarrow> 'd accessor \<Rightarrow> ('v, 'd) message \<Rightarrow> ('v, 'd) message" where
  "access d GetHeader m = fst (m_header d m)"
| "access d GetPayload m = fst (m_payload d m)"
| "access d (PayloadAs tid de) m = fst (payload_as tid de m)"
| "access d ClearCache m = clear_cache m"

definition access_all :: "'v deps \<Rightarrow> 'd accessor list \<Rightarrow> ('v, 'd) message \<Rightarrow> ('v, 'd) message" where
  "access_all d as m = fold (access d) as m"

lemma access_step:
  "caches_coherent d m \<Longrightarrow> caches_coherent d (access d a m) \<and>
   m_base_header (access d a m) = m_base_header m \<and> m_raw_data (access d a m) = m_raw_data m"
  by (cases a)
    (simp_all add: m_header_coherent m_payload_coherent payload_as_coherent clear_cache_coherent)

lemma access_all_step:
  "caches_coherent d m \<Longrightarrow> caches_coherent d (access_all d as m) \<and>
   m_base_header (access_all d as m) = m_base_header m \<and> m_raw_data (access_all d as m) = m_raw_data m"
  unfolding access_all_def
  by (induction as arbitrary: m) (simp_all add: access_step)

lemma inits_cong:
  assumes "m_base_header m = m_base_header n" and "m_raw_data m = m_raw_data n"
  shows "header_init d m = header_init d n" and "payload_init d m = payload_init d n"
  using assms
  by (simp_all add: header_init_def payload_init_def raw_header_bytes_def raw_payload_bytes_def)

section \<open>Serialisation\<close>

text \<open>
  \<open>header_bytes.len() as u32\<close> keeps the length of a serialised header below 4 GiB; a
  payload is one allocation.
\<close>

definition encodable :: "'v deps \<Rightarrow> 'v raw_message \<Rightarrow> bool" where
  "encodable d rm \<longleftrightarrow>
     (\<forall>hb. header_bytes_of d (rm_header rm) = Ok hb \<longrightarrow> length hb < 2 ^ 32) \<and>
     rust_sized (rm_payload_data rm)"

definition wire_header :: "'v raw_message \<Rightarrow> bytes \<Rightarrow> base_header" where
  "wire_header rm hb =
     base_header_new (rm_message_type rm) (rm_client_id rm) (of_nat (length hb))
       (of_nat (length (rm_payload_data rm)))"

definition wire_size :: "'v raw_message \<Rightarrow> bytes \<Rightarrow> nat" where
  "wire_size rm hb = 34 + length hb + length (rm_payload_data rm)"

lemma to_bytes_eq:
  assumes hb: "header_bytes_of d (rm_header rm) = Ok hb"
    and len: "length hb < 2 ^ 32" and pl: "rust_sized (rm_payload_data rm)"
  shows "to_bytes d rm =
    (if 65536 < length hb then
       Err (HeaderTooLarge (of_nat (length hb)) DEFAULT_MAX_HEADER_SIZE)
     else if 2 ^ 30 < wire_size rm hb then
       Err (MessageTooLarge (of_nat (wire_size rm hb)) DEFAULT_MAX_MESSAGE_SIZE)
     else Ok (base_header_bytes (wire_header rm hb) @ hb @ rm_payload_data rm))"
proof -
  let ?hl = "of_nat (length hb) :: u32" and ?pl = "of_nat (length (rm_payload_data rm)) :: u64"
  have hl: "unat ?hl = length hb"
    using len by (simp add: unat_of_nat)
  have uhl: "(ucast ?hl :: u64) = of_nat (length hb)"
    by (rule word_unat_eq_iff [THEN iffD2]) (use len hl in \<open>simp add: unat_of_nat\<close>)
  have upl: "unat ?pl = length (rm_payload_data rm)"
    using pl by (simp add: rust_sized_def unat_of_nat)
  have total: "BASE_HEADER_SIZE + ucast ?hl + ?pl = of_nat (wire_size rm hb)"
    by (simp add: uhl wire_size_def BASE_HEADER_SIZE_def)
  have utotal: "unat (of_nat (wire_size rm hb) :: u64) = wire_size rm hb"
    by (rule unat_of_nat_u64) (use len pl in \<open>simp add: rust_sized_def wire_size_def\<close>)
  have c1: "?hl > ucast DEFAULT_MAX_HEADER_SIZE \<longleftrightarrow> 65536 < length hb"
    by (simp add: word_less_nat_alt hl DEFAULT_MAX_HEADER_SIZE_def)
  have c2: "(of_nat (wire_size rm hb) :: u64) > DEFAULT_MAX_MESSAGE_SIZE \<longleftrightarrow> 2 ^ 30 < wire_size rm hb"
    by (simp add: word_less_nat_alt utotal DEFAULT_MAX_MESSAGE_SIZE_def)
  show ?thesis
    unfolding to_bytes_def hb res_bind.simps Let_def total c1 c2
    by (simp add: wire_header_def uhl)
qed

lemma to_bytes_OkD:
  assumes "encodable d rm" and "to_bytes d rm = Ok bs"
  obtains hb where "header_bytes_of d (rm_header rm) = Ok hb" "length hb \<le> 65536"
    "wire_size rm hb \<le> 2 ^ 30" "bs = base_header_bytes (wire_header rm hb) @ hb @ rm_payload_data rm"
proof -
  obtain hb where hb: "header_bytes_of d (rm_header rm) = Ok hb"
    using assms(2) by (auto simp: to_bytes_def outcome)
  moreover have "length hb < 2 ^ 32" and "rust_sized (rm_payload_data rm)"
    using assms(1) hb by (auto simp: encodable_def)
  ultimately show thesis
    using that [OF hb] assms(2) to_bytes_eq [of d rm hb] by (auto split: if_splits)
qed

lemma wire_header_simps:
  assumes "length hb \<le> 65536" and "wire_size rm hb \<le> 2 ^ 30"
  shows "wf_base_header (wire_header rm hb)"
    and "unat (bh_header_length (wire_header rm hb)) = length hb"
    and "unat (bh_payload_length (wire_header rm hb)) = length (rm_payload_data rm)"
    and "announced_size (wire_header rm hb) = wire_size rm hb"
    and "no_wrap (wire_header rm hb)"
    and "bh_message_type (wire_header rm hb) = rm_message_type rm"
    and "bh_client_id (wire_header rm hb) = rm_client_id rm"
proof -
  show wf: "wf_base_header (wire_header rm hb)"
    by (simp add: wire_header_def)
  show hl: "unat (bh_header_length (wire_header rm hb)) = length hb"
    using assms(1) by (simp add: wire_header_def base_header_new_def unat_of_nat)
  show pl: "unat (bh_payload_length (wire_header rm hb)) = length (rm_payload_data rm)"
    using assms(2) by (simp add: wire_header_def base_header_new_def unat_of_nat wire_size_def)
  show size: "announced_size (wire_header rm hb) = wire_size rm hb"
    by (simp add: announced_size_def hl pl wire_size_def)
  show "no_wrap (wire_header rm hb)"
    using assms(2) by (simp add: no_wrap_def size)
  show "bh_message_type (wire_header rm hb) = rm_message_type rm"
    and "bh_client_id (wire_header rm hb) = rm_client_id rm"
    by (simp_all add: wire_header_def base_header_new_def)
qed

lemma fresh_simps [simp]:
  "m_base_header (fresh_message bh data) = bh"
  "m_raw_data (fresh_message bh data) = data"
  "m_header_cache (fresh_message bh data) = None"
  "m_payload_cache (fresh_message bh data) = None"
  "m_typed_payload_cache (fresh_message bh data) = None"
  by (simp_all add: fresh_message_def)

text \<open>What is written is read back: the bytes of a raw message are a framed message.\<close>

lemma wire_message:
  assumes "length hb \<le> 65536" and "wire_size rm hb \<le> 2 ^ 30"
  defines "bs \<equiv> base_header_bytes (wire_header rm hb) @ hb @ rm_payload_data rm"
  defines "m \<equiv> fresh_message (wire_header rm hb) bs"
  shows "length bs = wire_size rm hb" and "rust_sized bs" and "framed m"
    and "raw_header_bytes m = Ok hb" and "raw_payload_bytes m = Ok (rm_payload_data rm)"
    and "nom_laws d \<Longrightarrow> from_bytes d bs = Ok m"
proof -
  note w = wire_header_simps [OF assms(1,2)]
  show len: "length bs = wire_size rm hb"
    using w(1) by (simp add: bs_def wire_size_def)
  then show sized: "rust_sized bs"
    using assms(2) by (simp add: rust_sized_def)
  have "usize_len bs = total_message_size (wire_header rm hb)"
    by (rule word_unat_eq_iff [THEN iffD2])
      (simp add: unat_usize_len_rust [OF sized] len unat_total_no_wrap [OF w(5)] w(4))
  then show fr: "framed m"
    using w(1) sized by (auto simp: framed_def m_def bs_def)
  show "raw_header_bytes m = Ok hb" and "raw_payload_bytes m = Ok (rm_payload_data rm)"
    by (rule raw_sections; simp add: m_def bs_def w)+
  show "from_bytes d bs = Ok m" if "nom_laws d"
    using fr by (simp add: from_bytes_iff [OF that sized] m_def)
qed

lemma into_message_OkD:
  fixes d :: "'v deps" and m :: "('v, 'd) message"
  assumes "nom_laws d" and "encodable d rm" and "into_message d rm = Ok m"
  obtains hb where "header_bytes_of d (rm_header rm) = Ok hb" "length hb \<le> 65536"
    "wire_size rm hb \<le> 2 ^ 30"
    "to_bytes d rm = Ok (base_header_bytes (wire_header rm hb) @ hb @ rm_payload_data rm)"
    "m = fresh_message (wire_header rm hb)
       (base_header_bytes (wire_header rm hb) @ hb @ rm_payload_data rm)"
proof -
  obtain bs where bs: "to_bytes d rm = Ok bs" and m: "from_bytes d bs = Ok m"
    using assms(3) by (auto simp: into_message_def outcome)
  obtain hb where hb: "header_bytes_of d (rm_header rm) = Ok hb" "length hb \<le> 65536"
      "wire_size rm hb \<le> 2 ^ 30" "bs = base_header_bytes (wire_header rm hb) @ hb @ rm_payload_data rm"
    by (rule to_bytes_OkD [OF assms(2) bs])
  have "from_bytes d bs = Ok (fresh_message (wire_header rm hb) bs :: ('v, 'd) message)"
    using wire_message(6) [OF hb(2,3) assms(1)] hb(4) by simp
  with m have "m = fresh_message (wire_header rm hb) bs"
    by simp
  then show thesis
    using that hb bs by simp
qed

text \<open>
  A header the MessagePack functions give back. It is asked of the header at hand only:
  \<open>rmp_serde\<close> does not promise it of every \<open>Header\<close>.
\<close>

definition decodes_back :: "'v deps \<Rightarrow> 'v header \<Rightarrow> bool" where
  "decodes_back d h \<longleftrightarrow>
     h = header_default \<or>
     (\<exists>hb. rmp_header_to_vec d h = Inr hb \<and> hb \<noteq> [] \<and> rmp_header_from_slice d hb = Inr h)"

lemma header_init_roundtrip:
  assumes "nom_laws d" and "encodable d rm" and "decodes_back d (rm_header rm)"
    and "into_message d rm = Ok m"
  shows "header_init d m = Ok (rm_header rm)"
proof -
  obtain hb where hb: "header_bytes_of d (rm_header rm) = Ok hb" "length hb \<le> 65536"
      "wire_size rm hb \<le> 2 ^ 30"
    and m: "m = fresh_message (wire_header rm hb)
       (base_header_bytes (wire_header rm hb) @ hb @ rm_payload_data rm)"
    by (rule into_message_OkD [OF assms(1,2,4)])
  have raw: "raw_header_bytes m = Ok hb"
    using wire_message(4) [OF hb(2,3)] m by simp
  have hl: "0 < bh_header_length (m_base_header m) \<longleftrightarrow> hb \<noteq> []"
    using wire_header_simps(2) [OF hb(2,3)] m by (simp add: word_less_nat_alt)
  show ?thesis
  proof (cases "rm_header rm = header_default")
    case True
    then have "hb = []"
      using hb(1) by (simp add: header_bytes_of_def)
    then show ?thesis
      using hl True by (simp add: header_init_def)
  next
    case False
    then have "rmp_header_to_vec d (rm_header rm) = Inr hb"
      using hb(1) by (simp add: header_bytes_of_def outcome)
    then have "hb \<noteq> []" and "rmp_header_from_slice d hb = Inr (rm_header rm)"
      using assms(3) False by (auto simp: decodes_back_def)
    then show ?thesis
      using hl raw by (simp add: header_init_def)
  qed
qed

section \<open>Properties\<close>

text \<open>
  Exact outcome of serialisation. For a header that serialises to \<open>hb\<close> (less than
  4 GiB, so that the cast to \<open>u32\<close> keeps its length) \<open>to_bytes\<close> returns the 34-byte base
  header with zeroed reserved bytes, the header and the payload if the header is at most
  64 KiB and the whole at most 1 GiB; otherwise it returns \<open>HeaderTooLarge\<close> or
  \<open>MessageTooLarge\<close> with the true sizes, the header limit being tested first.
\<close>

theorem to_bytes_outcome:
  assumes "header_bytes_of d (rm_header rm) = Ok hb" and "length hb < 2 ^ 32"
    and "rust_sized (rm_payload_data rm)"
  shows "to_bytes d rm =
    (if 65536 < length hb then Err (HeaderTooLarge (of_nat (length hb)) DEFAULT_MAX_HEADER_SIZE)
     else if 2 ^ 30 < 34 + length hb + length (rm_payload_data rm) then
       Err (MessageTooLarge (of_nat (34 + length hb + length (rm_payload_data rm)))
         DEFAULT_MAX_MESSAGE_SIZE)
     else
       Ok (base_header_bytes (base_header_new (rm_message_type rm) (rm_client_id rm)
             (of_nat (length hb)) (of_nat (length (rm_payload_data rm)))) @
           hb @ rm_payload_data rm))"
  using to_bytes_eq [OF assms] by (simp add: wire_header_def wire_size_def)

definition demo_raw :: "nat raw_message" where
  "demo_raw = \<lparr>rm_message_type = Publish, rm_client_id = 1000, rm_header = demo_header,
     rm_payload_data = [7]\<rparr>"

lemma demo_raw_simps [simp]:
  "rm_message_type demo_raw = Publish" "rm_client_id demo_raw = 1000"
  "rm_header demo_raw = demo_header" "rm_payload_data demo_raw = [7]"
  by (simp_all add: demo_raw_def)

lemma demo_raw_header: "header_bytes_of demo_deps (rm_header demo_raw) = Ok [1]"
  by (simp add: header_bytes_of_def demo_header_def header_default_def header_new_def
      demo_deps_def demo_to_vec_def)

lemma demo_raw_encodable: "encodable demo_deps demo_raw"
  using demo_raw_header by (simp add: encodable_def rust_sized_def)

lemma demo_raw_decodes: "decodes_back demo_deps (rm_header demo_raw)"
  by (simp add: decodes_back_def demo_header_def header_new_def demo_deps_def
      demo_to_vec_def demo_from_slice_def)

theorem to_bytes_outcome_witness:
  "to_bytes demo_deps demo_raw =
     Ok (base_header_bytes (base_header_new Publish 1000 1 1) @ [1, 7])"
  using to_bytes_outcome [OF demo_raw_header] by (simp add: rust_sized_def)

text \<open>
  C11. Wire round trip: every raw message that serialises also parses back, to a message
  of the same type and client id whose raw bytes are the serialised bytes, whose raw
  header and payload sections are exactly the serialised header and the payload, and
  which has nothing cached.
\<close>

theorem wire_roundtrip:
  fixes d :: "'v deps"
  assumes "nom_laws d" and "encodable d rm" and "to_bytes d rm = Ok bs"
  shows "\<exists>(m :: ('v, 'd) message) hb. into_message d rm = Ok m \<and> header_bytes_of d (rm_header rm) = Ok hb \<and>
    m_raw_bytes m = bs \<and> m_message_type m = rm_message_type rm \<and> m_client_id m = rm_client_id rm \<and>
    raw_header_bytes m = Ok hb \<and> raw_payload_bytes m = Ok (rm_payload_data rm) \<and>
    \<not> is_header_cached m \<and> \<not> is_payload_cached m"
proof -
  obtain hb where hb: "header_bytes_of d (rm_header rm) = Ok hb" "length hb \<le> 65536"
      "wire_size rm hb \<le> 2 ^ 30" "bs = base_header_bytes (wire_header rm hb) @ hb @ rm_payload_data rm"
    by (rule to_bytes_OkD [OF assms(2,3)])
  note w = wire_message [OF hb(2,3)] wire_header_simps [OF hb(2,3)]
  have "into_message d rm = Ok (fresh_message (wire_header rm hb) bs)"
    using assms(3) w(6) [OF assms(1)] hb(4) by (simp add: into_message_def)
  then show ?thesis
    using hb(1,4) w
    by (intro exI [of _ "fresh_message (wire_header rm hb) bs"] exI [of _ hb])
      (simp add: m_raw_bytes_def m_message_type_def m_client_id_def is_header_cached_def
        is_payload_cached_def)
qed

theorem wire_roundtrip_witness:
  "\<exists>m hb. (into_message demo_deps demo_raw :: (nat, nat) message protocol_result) = Ok m \<and>
     header_bytes_of demo_deps (rm_header demo_raw) = Ok hb \<and>
     m_raw_bytes m = base_header_bytes (base_header_new Publish 1000 1 1) @ [1, 7] \<and>
     m_message_type m = rm_message_type demo_raw \<and> m_client_id m = rm_client_id demo_raw \<and>
     raw_header_bytes m = Ok hb \<and> raw_payload_bytes m = Ok (rm_payload_data demo_raw) \<and>
     \<not> is_header_cached m \<and> \<not> is_payload_cached m"
  by (rule wire_roundtrip [OF nom_laws_demo demo_raw_encodable])
    (simp add: to_bytes_eq [OF demo_raw_header] rust_sized_def wire_size_def wire_header_def)

text \<open>
  Header round trip: reading the header of the parsed message gives the header that
  was sent, if the MessagePack functions give that header back; an all-default header
  travels as zero bytes and needs no decoding.
\<close>

theorem header_roundtrip:
  assumes "nom_laws d" and "encodable d rm" and "decodes_back d (rm_header rm)"
    and "into_message d rm = Ok m"
  shows "snd (m_header d m) = Ok (rm_header rm)"
proof -
  obtain bh bs where "m = fresh_message bh bs"
    by (rule into_message_OkD [OF assms(1,2,4)])
  then have "caches_coherent d m"
    by simp
  then show ?thesis
    using header_init_roundtrip [OF assms] by (simp add: m_header_snd)
qed

theorem header_roundtrip_witness:
  "\<exists>m :: (nat, nat) message. into_message demo_deps demo_raw = Ok m \<and>
     snd (m_header demo_deps m) = Ok demo_header"
proof -
  have "to_bytes demo_deps demo_raw = Ok (base_header_bytes (wire_header demo_raw [1]) @ [1, 7])"
    by (simp add: to_bytes_eq [OF demo_raw_header] rust_sized_def wire_size_def)
  moreover have "from_bytes demo_deps (base_header_bytes (wire_header demo_raw [1]) @ [1, 7]) =
      (Ok (fresh_message (wire_header demo_raw [1])
         (base_header_bytes (wire_header demo_raw [1]) @ [1, 7])) :: (nat, nat) message protocol_result)"
    using wire_message(6) [of "[1]" demo_raw demo_deps]
    by (simp add: wire_size_def nom_laws_demo)
  ultimately have m: "into_message demo_deps demo_raw =
      (Ok (fresh_message (wire_header demo_raw [1])
         (base_header_bytes (wire_header demo_raw [1]) @ [1, 7])) :: (nat, nat) message protocol_result)"
    by (simp add: into_message_def)
  show ?thesis
    using m header_roundtrip [OF nom_laws_demo demo_raw_encodable demo_raw_decodes m]
    by auto
qed

text \<open>
  C22. The two parsers agree: where the announced lengths do not wrap, \<open>from_bytes\<close> accepts
  an input exactly when \<open>parse_message_bytes\<close> does, with the same base header, and the
  message's raw sections are the frame's.
\<close>

theorem parsers_agree:
  fixes d :: "'v deps"
  assumes "nom_laws d" and "rust_sized data"
  shows "parse_message_bytes d data = Ok f \<longleftrightarrow>
    (\<exists>m :: ('v, 'd) message. from_bytes d data = Ok m \<and> no_wrap (m_base_header m) \<and>
       m_base_header m = mf_base_header f \<and> raw_header_bytes m = Ok (mf_header_bytes f) \<and>
       raw_payload_bytes m = Ok (mf_payload_bytes f))"
    (is "?L \<longleftrightarrow> ?R")
proof
  assume ?L
  then have f: "wf_base_header (mf_base_header f)"
      "length (mf_header_bytes f) = unat (bh_header_length (mf_base_header f))"
      "length (mf_payload_bytes f) = unat (bh_payload_length (mf_base_header f))"
      "data = base_header_bytes (mf_base_header f) @ mf_header_bytes f @ mf_payload_bytes f"
    using parse_message_bytes_iff [OF assms] by blast+
  let ?m = "fresh_message (mf_base_header f) data :: ('v, 'd) message"
  have len: "length data = announced_size (mf_base_header f)"
    using f(1-3) by (simp add: f(4) announced_size_def)
  then have nw: "no_wrap (mf_base_header f)"
    using assms(2) by (simp add: no_wrap_def rust_sized_def)
  have "usize_len data = total_message_size (mf_base_header f)"
    by (rule word_unat_eq_iff [THEN iffD2])
      (simp add: unat_usize_len_rust [OF assms(2)] unat_total_no_wrap [OF nw] len)
  then have "framed ?m"
    using f(1,4) assms(2) by (auto simp: framed_def)
  moreover have "raw_header_bytes ?m = Ok (mf_header_bytes f)"
    and "raw_payload_bytes ?m = Ok (mf_payload_bytes f)"
    by (rule raw_sections [of ?m "mf_header_bytes f" "mf_payload_bytes f", unfolded fresh_simps,
          OF f(4,1,2,3) nw])+
  ultimately show ?R
    using nw by (intro exI [of _ ?m]) (simp add: from_bytes_iff [OF assms])
next
  assume ?R
  then obtain m :: "('v, 'd) message" where ok: "from_bytes d data = Ok m"
    and nw: "no_wrap (m_base_header m)" and bh: "m_base_header m = mf_base_header f"
    and raw: "raw_header_bytes m = Ok (mf_header_bytes f)"
      "raw_payload_bytes m = Ok (mf_payload_bytes f)"
    by blast
  have fr: "framed m" and m: "m = fresh_message (mf_base_header f) data"
    using ok [unfolded from_bytes_iff [OF assms] bh] by blast+
  obtain hb pb where s: "m_raw_data m = base_header_bytes (m_base_header m) @ hb @ pb"
      "length hb = unat (bh_header_length (m_base_header m))"
      "length pb = unat (bh_payload_length (m_base_header m))"
    by (rule framed_sections [OF fr nw])
  have wf: "wf_base_header (m_base_header m)"
    using fr by (simp add: framed_def)
  have "hb = mf_header_bytes f" and "pb = mf_payload_bytes f"
    using raw_sections [OF s(1) wf s(2,3) nw] raw by simp_all
  then show ?L
    unfolding parse_message_bytes_iff [OF assms] using s wf m bh by simp
qed

theorem parsers_agree_witness:
  "\<exists>m :: (nat, nat) message.
     from_bytes demo_deps (base_header_bytes (base_header_new Publish 1000 1 2) @ [5, 6, 7]) = Ok m \<and>
     no_wrap (m_base_header m) \<and> raw_header_bytes m = Ok [5] \<and> raw_payload_bytes m = Ok [6, 7]"
proof -
  let ?data = "base_header_bytes (base_header_new Publish 1000 1 2) @ [5, 6, 7]"
  let ?f = "\<lparr>mf_base_header = base_header_new Publish 1000 1 2, mf_header_bytes = [5],
    mf_payload_bytes = [6, 7]\<rparr>"
  have sized: "rust_sized ?data"
    by (simp add: rust_sized_def)
  have "parse_message_bytes demo_deps ?data = Ok ?f"
    using sized by (simp add: parse_message_bytes_iff [OF nom_laws_demo]) (simp add: base_header_new_def)
  then show ?thesis
    using parsers_agree [OF nom_laws_demo sized, of ?f] by auto
qed

text \<open>
  When reading a received message is safe: for every message that \<open>from_bytes\<close>
  accepts, reading the payload bytes panics exactly when the announced lengths wrap the
  64-bit size, and without wrap-around the raw bytes are the base header, the raw header
  and the raw payload, in this order.
\<close>

theorem received_message_sections:
  assumes "nom_laws d" and "rust_sized data" and "from_bytes d data = Ok m"
  shows "(raw_payload_bytes m = Panic \<longleftrightarrow> \<not> no_wrap (m_base_header m)) \<and>
    (no_wrap (m_base_header m) \<longrightarrow>
      (\<exists>hb pb. raw_header_bytes m = Ok hb \<and> raw_payload_bytes m = Ok pb \<and>
         data = base_header_bytes (m_base_header m) @ hb @ pb))"
proof (cases "no_wrap (m_base_header m)")
  case True
  have fr: "framed m" and raw: "m_raw_data m = data"
    using assms(3) [unfolded from_bytes_iff [OF assms(1,2)]] by (blast, metis fresh_simps(2))
  obtain hb pb where s: "m_raw_data m = base_header_bytes (m_base_header m) @ hb @ pb"
      "length hb = unat (bh_header_length (m_base_header m))"
      "length pb = unat (bh_payload_length (m_base_header m))"
    by (rule framed_sections [OF fr True])
  have "wf_base_header (m_base_header m)"
    using fr by (simp add: framed_def)
  then show ?thesis
    using raw_sections [OF s(1) _ s(2,3) True] s(1) raw True by auto
next
  case False
  then show ?thesis
    by (simp add: wrapped_payload_panics)
qed

theorem received_message_sections_witness:
  "raw_payload_bytes (fresh_message (wire_header demo_raw [1])
     (base_header_bytes (wire_header demo_raw [1]) @ [1, 7]) :: (nat, nat) message) \<noteq> Panic"
proof -
  let ?bs = "base_header_bytes (wire_header demo_raw [1]) @ [1, 7]"
  let ?m = "fresh_message (wire_header demo_raw [1]) ?bs :: (nat, nat) message"
  have size: "length [1 :: u8] \<le> 65536" "wire_size demo_raw [1] \<le> 2 ^ 30"
    by (simp_all add: wire_size_def)
  have sized: "rust_sized ?bs" and ok: "from_bytes demo_deps ?bs = Ok ?m"
    using wire_message(2) [OF size] wire_message(6) [OF size nom_laws_demo] by simp_all
  have "no_wrap (m_base_header ?m)"
    using wire_header_simps(5) [OF size] by simp
  then show ?thesis
    using received_message_sections [OF nom_laws_demo sized ok] by blast
qed

text \<open>
  The wrap-around can be provoked by a peer: 34 bytes that announce a header of one
  byte and a payload of \<open>2 ^ 64 - 1\<close> bytes pass \<open>from_bytes\<close> in the release profile, and
  the first access to the header or to the payload aborts the process.
\<close>

definition wrapping_header :: "message_type \<Rightarrow> base_header" where
  "wrapping_header t = base_header_new t 1000 1 (- 1)"

lemma wrapping_header [simp]:
  "wf_base_header (wrapping_header t)" "bh_header_length (wrapping_header t) = 1"
  "total_message_size (wrapping_header t) = 34" "length (base_header_bytes (wrapping_header t)) = 34"
  by (simp_all add: wrapping_header_def wf_base_header_def base_header_new_def total_message_size_def
      BASE_HEADER_SIZE_def)

lemma wrapping_frame_accepted:
  fixes d :: "'v deps"
  assumes "nom_laws d"
  shows "from_bytes d (base_header_bytes (wrapping_header t)) =
    Ok (fresh_message (wrapping_header t) (base_header_bytes (wrapping_header t)) :: ('v, 'd) message)"
proof -
  have "rust_sized (base_header_bytes (wrapping_header t))"
    by (simp add: rust_sized_def)
  then show ?thesis
    by (simp add: from_bytes_iff [OF assms] framed_def usize_len_def)
qed

lemma wrapping_frame_panics:
  fixes m :: "('v, 'd) message"
  assumes m: "m = fresh_message (wrapping_header t) (base_header_bytes (wrapping_header t))"
  shows "snd (m_header d m) = Panic" and "snd (m_payload d m) = Panic"
    and "snd (from_message d (de :: bytes \<Rightarrow> string + 'p) m) = Panic"
    and "t = Request \<Longrightarrow> snd (create_response d m sender status payload) = Panic"
proof -
  have "raw_header_bytes m = Panic"
    by (simp add: m raw_header_bytes_def slice_Panic_iff Let_def BASE_HEADER_SIZE_def)
  then show header: "snd (m_header d m) = Panic"
    by (simp add: m_header_def m get_or_try_init_def header_init_def)
  show "snd (from_message d de m) = Panic"
    using header by (simp add: from_message_def split_beta)
  show "snd (create_response d m sender status payload) = Panic" if "t = Request"
    using header that
    by (simp add: create_response_def split_beta Let_def) (simp add: m wrapping_header_def base_header_new_def)
  have "raw_payload_bytes m = Panic"
    by (rule wrapped_payload_panics)
      (simp add: m no_wrap_def announced_size_def base_header_new_def wrapping_header_def)
  then show "snd (m_payload d m) = Panic"
    by (simp add: m m_payload_def get_or_try_init_def payload_init_def wrapping_header_def
        base_header_new_def word_less_nat_alt)
qed



text \<open>
  C40. The typed payload cache holds one type only. If a payload decodes at type \<open>t\<close>, every
  later \<open>payload_as\<close> at \<open>t\<close> returns that same value without decoding again (whatever the
  decoder would do); a later \<open>payload_as\<close> at another type for which the payload decodes
  too aborts, because the filled cell is not replaced.
\<close>

theorem typed_payload_cache:
  assumes "m_typed_payload_cache m = None" and "raw_payload_bytes m = Ok bs" and "de bs = Inr v"
    and "payload_as t de m = (m', r)"
  shows "r = Ok v \<and> payload_as t dea m' = (m', Ok v) \<and>
    (u \<noteq> t \<longrightarrow> deb bs = Inr w \<longrightarrow> snd (payload_as u deb m') = Panic) \<and>
    (u \<noteq> t \<longrightarrow> deb bs = Inl e \<longrightarrow> payload_as u deb m' = (m', Err (from_decode_error e)))"
proof -
  have "payload_as t de m = (m\<lparr>m_typed_payload_cache := Some (t, v)\<rparr>, Ok v)"
    using assms(1-3) by (simp add: payload_as_def downcast_def Let_def)
  then have m': "m' = m\<lparr>m_typed_payload_cache := Some (t, v)\<rparr>" and r: "r = Ok v"
    using assms(4) by simp_all
  show ?thesis
    using assms(2) by (auto simp: m' r payload_as_def downcast_def Let_def)
qed

theorem typed_payload_cache_witness:
  "let m = fresh_message (base_header_new Publish 1 0 0) [] :: (nat, nat) message;
       m' = fst (payload_as ''u8'' (\<lambda>bs. Inr (length bs)) m)
   in snd (payload_as ''String'' (\<lambda>bs. Inr 5) m') = Panic"
proof -
  let ?m = "fresh_message (base_header_new Publish 1 0 0) [] :: (nat, nat) message"
  have raw: "raw_payload_bytes ?m = Ok []"
    by (simp add: raw_payload_bytes_def base_header_new_def)
  show ?thesis
    using typed_payload_cache [where m = ?m and bs = "[]" and de = "\<lambda>bs. Inr (length bs)" and v = 0
        and t = "''u8''" and u = "''String''" and deb = "\<lambda>bs. Inr 5" and w = 5,
        OF _ raw _ prod.collapse [symmetric]]
    by (simp add: Let_def)
qed

text \<open>
  \<open>create_response\<close> succeeds only on a request whose header has a correlation and a
  non-empty routing. The response then carries the request's id as a \<open>Correlation\<close>, the
  given status and nothing else of the header but its routing, whose first entry is
  directed at the client id of the request's sender; it passes validation as a response
  exactly when the request had a single routing entry.
\<close>

theorem create_response_shape:
  assumes "snd (create_response d m sender status payload) = Ok raw"
  shows "\<exists>h q r rs pb. m_message_type m = Request \<and> snd (m_header d m) = Ok h \<and>
    h_reqrep h = Some q \<and> h_routing h = Some (r # rs) \<and> payload = Inr pb \<and>
    rm_message_type raw = Response \<and> rm_client_id raw = sender \<and> rm_payload_data raw = pb \<and>
    rm_header raw = header_new
      \<lparr>h_reqrep := Some (reqrep_res (rr_id q)),
       h_routing := Some (r\<lparr>r_client_id := Some (m_client_id m)\<rparr> # rs), h_status := status\<rparr> \<and>
    (validate_message_structure Response (rm_header raw) = Ok () \<longleftrightarrow> rs = [])"
proof -
  have request: "m_message_type m = Request"
    using assms by (auto simp: create_response_def m_message_type_def split: if_splits)
  obtain m' r where mh: "m_header d m = (m', r)"
    by fastforce
  have m': "m_client_id m' = m_client_id m"
    using accessors_keep_data(1) [of d m] mh by (simp add: m_client_id_def)
  obtain h q rt rts pb where parts: "r = Ok h" "h_reqrep h = Some q" "h_routing h = Some (rt # rts)"
      "payload = Inr pb"
    and raw: "raw = \<lparr>rm_message_type = Response, rm_client_id = sender,
      rm_header = header_new\<lparr>h_reqrep := Some (reqrep_res (rr_id q)),
        h_routing := Some (rt\<lparr>r_client_id := Some (m_client_id m)\<rparr> # rts), h_status := status\<rparr>,
      rm_payload_data = pb\<rparr>"
    using assms request mh m'
    by (auto simp: create_response_def raw_message_new_def m_message_type_def outcome Let_def
        neq_Nil_conv reqrep_res_def)
  have "validate_message_structure Response (rm_header raw) = Ok () \<longleftrightarrow> rts = []"
    by (simp add: validate_ok_iff raw header_new_def)
  then show ?thesis
    using request mh parts raw by simp
qed

definition demo_request :: "(nat, nat) message" where
  "demo_request =
     (fresh_message (base_header_new Request 1000 2 0)
        (base_header_bytes (base_header_new Request 1000 2 0) @ [2, 2]))"

lemma demo_request_init: "header_init demo_deps demo_request = Ok demo_request_header"
proof -
  have "raw_header_bytes demo_request = Ok [2, 2]"
    by (simp add: raw_header_bytes_def slice_def demo_request_def base_header_new_def
        BASE_HEADER_SIZE_def word_le_nat_alt)
  then show ?thesis
    by (simp add: header_init_def demo_deps_def demo_from_slice_def demo_request_def
        base_header_new_def word_less_nat_alt)
qed

theorem create_response_shape_witness:
  "\<exists>raw. snd (create_response demo_deps demo_request 7 (Some STATUS_OK) (Inr [9])) = Ok raw \<and>
     validate_message_structure Response (rm_header raw) = Ok ()"
proof -
  have h: "snd (m_header demo_deps demo_request) = Ok demo_request_header"
    using demo_request_init by (simp add: m_header_snd demo_request_def)
  then obtain m' where mh: "m_header demo_deps demo_request = (m', Ok demo_request_header)"
    by (cases "m_header demo_deps demo_request") simp
  obtain raw where raw:
      "snd (create_response demo_deps demo_request 7 (Some STATUS_OK) (Inr [9])) = Ok raw"
    using mh
    by (simp add: create_response_def demo_request_def base_header_new_def demo_request_header_def
        raw_message_new_def Let_def)
  from create_response_shape [OF raw] h show ?thesis
    using raw by (auto simp: demo_request_header_def)
qed

text \<open>
  C29. Converting a typed message to a \<open>Message\<close> and back gives the same header and payload
  with the same type and client id, provided the payload and the header survive their
  MessagePack encodings; the two \<open>expect\<close>s of the conversion do not fire.
\<close>

theorem typed_roundtrip:
  fixes d :: "'v deps" and m :: "('v, 'd) message"
  assumes "nom_laws d" and "ser (tm_payload tm) = Inr pb" and "de pb = Inr (tm_payload tm)"
    and "decodes_back d (tm_header tm)"
    and rm: "rm = \<lparr>rm_message_type = bh_message_type (tm_base_header tm),
      rm_client_id = bh_client_id (tm_base_header tm), rm_header = tm_header tm,
      rm_payload_data = pb\<rparr>"
    and "encodable d rm" and "into_message d rm = Ok m"
  shows "message_from_typed d ser tm = Ok m \<and>
    snd (from_message d de m) =
      Ok \<lparr>tm_base_header = m_base_header m, tm_header = tm_header tm, tm_payload = tm_payload tm\<rparr> \<and>
    bh_message_type (m_base_header m) = bh_message_type (tm_base_header tm) \<and>
    bh_client_id (m_base_header m) = bh_client_id (tm_base_header tm)"
proof -
  have conv: "message_from_typed d ser tm = Ok m"
    using assms(2,7) rm by (simp add: message_from_typed_def raw_message_new_def expect_res_def)
  obtain hb where hb: "length hb \<le> 65536" "wire_size rm hb \<le> 2 ^ 30"
    and m: "m = fresh_message (wire_header rm hb) (base_header_bytes (wire_header rm hb) @ hb @ rm_payload_data rm)"
    by (rule into_message_OkD [OF assms(1,6,7)])
  have raw: "raw_payload_bytes m = Ok pb"
    using wire_message(5) [OF hb] m rm by simp
  obtain m' r where mh: "m_header d m = (m', r)"
    by fastforce
  have "snd (m_header d m) = header_init d m"
    using m by (intro m_header_snd) simp
  moreover have "header_init d m = Ok (tm_header tm)"
    using header_init_roundtrip [OF assms(1,6) _ assms(7)] assms(4) rm by simp
  ultimately have r: "r = Ok (tm_header tm)"
    using mh by simp
  have data: "m_base_header m' = m_base_header m" "m_raw_data m' = m_raw_data m"
    using accessors_keep_data(1,2) [of d m] mh by simp_all
  then have "raw_payload_bytes m' = Ok pb"
    using raw by (simp only: raw_payload_bytes_def)
  then have "snd (from_message d de m) =
      Ok \<lparr>tm_base_header = m_base_header m, tm_header = tm_header tm, tm_payload = tm_payload tm\<rparr>"
    using mh r data(1) assms(3) by (simp add: from_message_def)
  then show ?thesis
    using conv wire_header_simps(6,7) [OF hb] m rm by simp
qed

theorem typed_roundtrip_witness:
  "\<exists>m :: (nat, nat) message.
     message_from_typed demo_deps (\<lambda>n. Inr [of_nat n])
       \<lparr>tm_base_header = base_header_new Publish 1000 0 0, tm_header = demo_header, tm_payload = 7\<rparr> = Ok m \<and>
     bh_client_id (m_base_header m) = 1000"
proof -
  let ?tm = "\<lparr>tm_base_header = base_header_new Publish 1000 0 0, tm_header = demo_header,
    tm_payload = 7\<rparr> :: (nat, nat) typed_message"
  have rm: "demo_raw = \<lparr>rm_message_type = bh_message_type (tm_base_header ?tm),
      rm_client_id = bh_client_id (tm_base_header ?tm), rm_header = tm_header ?tm,
      rm_payload_data = [7]\<rparr>"
    by (simp add: demo_raw_def base_header_new_def)
  have bs: "to_bytes demo_deps demo_raw = Ok (base_header_bytes (base_header_new Publish 1000 1 1) @ [1, 7])"
    by (simp add: to_bytes_eq [OF demo_raw_header] rust_sized_def wire_size_def wire_header_def)
  obtain m :: "(nat, nat) message" where m: "into_message demo_deps demo_raw = Ok m"
    using wire_message(6) [of "[1]" demo_raw demo_deps] bs
    by (auto simp: into_message_def wire_size_def nom_laws_demo wire_header_def)
  show ?thesis
    using typed_roundtrip [where tm = ?tm and ser = "\<lambda>n. Inr [of_nat n]" and pb = "[7]"
        and de = "\<lambda>bs. Inr 7", OF nom_laws_demo _ _ _ rm demo_raw_encodable m]
      demo_raw_decodes
    by (auto simp: base_header_new_def)
qed

end
