(* ===== verification/Stream_Parser.thy ===== *)
theory Stream_Parser
  imports Messages
begin

text \<open>
  \<open>MessageParser\<close> of \<open>parser.rs\<close>: the buffer that accumulates a byte stream and yields
  messages. The specification is a sequence of frames (a base header and its body); the
  lemmas say what the parser does on a buffer that holds a whole frame, a part of one, or
  something that is none.
\<close>

section \<open>The model\<close>

record message_parser =
  p_buffer :: bytes
  p_max_message_size :: usize
  p_max_header_size :: usize

definition parser_with_limits :: "usize \<Rightarrow> usize \<Rightarrow> message_parser" where
  "parser_with_limits max_message_size max_header_size =
     \<lparr>p_buffer = [], p_max_message_size = max_message_size, p_max_header_size = max_header_size\<rparr>"

definition parser_new :: message_parser where
  "parser_new = parser_with_limits DEFAULT_MAX_MESSAGE_SIZE DEFAULT_MAX_HEADER_SIZE"

definition parser_default :: message_parser where
  "parser_default = parser_new"

definition push_data :: "message_parser \<Rightarrow> bytes \<Rightarrow> message_parser \<times> unit protocol_result" where
  "push_data p data =
     (if usize_len (p_buffer p) + usize_len data > p_max_message_size p then
        (p, Err (MessageTooLarge (usize_len (p_buffer p) + usize_len data) (p_max_message_size p)))
      else (p\<lparr>p_buffer := p_buffer p @ data\<rparr>, Ok ()))"

definition try_parse ::
  "'v deps \<Rightarrow> message_parser \<Rightarrow> message_parser \<times> ('v, 'd) message option protocol_result" where
  "try_parse d p =
     (if usize_len (p_buffer p) < BASE_HEADER_SIZE then (p, Ok None)
      else
        (case parse_base_header d (take 34 (p_buffer p)) of
           Panic \<Rightarrow> (p, Panic)
         | Err _ \<Rightarrow> (p, Ok None)
         | Ok base_header \<Rightarrow>
             if bh_header_length base_header > ucast (p_max_header_size p) then
               (p, Err (HeaderTooLarge (ucast (bh_header_length base_header)) (p_max_header_size p)))
             else
               let total_size = total_message_size base_header in
               if total_size > p_max_message_size p then
                 (p, Err (MessageTooLarge total_size (p_max_message_size p)))
               else if usize_len (p_buffer p) < total_size then (p, Ok None)
               else
                 let message_bytes = take (unat total_size) (p_buffer p);
                     p = p\<lparr>p_buffer := drop (unat total_size) (p_buffer p)\<rparr>
                 in (p, res_bind (from_bytes d message_bytes) (\<lambda>message. Ok (Some message)))))"

definition parser_buffer_size :: "message_parser \<Rightarrow> usize" where
  "parser_buffer_size p = usize_len (p_buffer p)"

definition parser_clear :: "message_parser \<Rightarrow> message_parser" where
  "parser_clear p = p\<lparr>p_buffer := []\<rparr>"

definition parser_is_empty :: "message_parser \<Rightarrow> bool" where
  "parser_is_empty p \<longleftrightarrow> p_buffer p = []"

definition parser_buffer :: "message_parser \<Rightarrow> bytes" where
  "parser_buffer p = p_buffer p"

text \<open>
  The loop of \<open>parse_all\<close> ends because a parsed message has taken at least the 34 bytes
  of its base header out of the buffer; \<open>?\<close> leaves the function with the error, and the
  messages collected so far are dropped with the vector.
\<close>

lemma from_bytes_length: "from_bytes d data = Ok m \<Longrightarrow> 34 \<le> length data"
proof (rule ccontr)
  assume ok: "from_bytes d data = Ok m" and "\<not> 34 \<le> length data"
  then have "unat (usize_len data) < 34"
    by (simp add: usize_len_def unat_of_nat)
  then show False
    using ok by (simp add: from_bytes_def word_less_nat_alt)
qed

lemma try_parse_consumes:
  assumes "try_parse d p = (p', Ok (Some m))"
  shows "length (p_buffer p') + 34 \<le> length (p_buffer p)"
proof -
  from assms obtain n where n: "p_buffer p' = drop n (p_buffer p)"
    and ok: "from_bytes d (take n (p_buffer p)) = Ok m"
    by (auto simp: try_parse_def outcome Let_def split: if_splits res.splits)
  show ?thesis
    using from_bytes_length [OF ok] n by auto
qed

function parse_all_loop ::
  "'v deps \<Rightarrow> message_parser \<Rightarrow> ('v, 'd) message list \<Rightarrow>
   message_parser \<times> ('v, 'd) message list protocol_result" where
  "parse_all_loop d p messages =
     (case try_parse d p of
        (p', Ok (Some message)) \<Rightarrow> parse_all_loop d p' (messages @ [message])
      | (p', Ok None) \<Rightarrow> (p', Ok messages)
      | (p', Err e) \<Rightarrow> (p', Err e)
      | (p', Panic) \<Rightarrow> (p', Panic))"
  by pat_completeness auto
termination
proof (relation "measure (\<lambda>(d, p, messages). length (p_buffer p))", goal_cases)
  case 1
  then show ?case by simp
next
  case 2
  then show ?case
    by (auto dest!: try_parse_consumes [OF sym])
qed

declare parse_all_loop.simps [simp del]

definition parse_all ::
  "'v deps \<Rightarrow> message_parser \<Rightarrow> message_parser \<times> ('v, 'd) message list protocol_result" where
  "parse_all d p = parse_all_loop d p []"

section \<open>Frames\<close>

text \<open>
  A frame is a base header with the bytes that follow it; \<open>frame_ok\<close> says that a parser
  with the given limits takes it. The header limit is compared after a cast to \<open>u32\<close>.
\<close>

type_synonym frame = "base_header \<times> bytes"

definition frame_bytes :: "frame \<Rightarrow> bytes" where
  "frame_bytes f = base_header_bytes (fst f) @ snd f"

definition frame_message :: "frame \<Rightarrow> ('v, 'd) message" where
  "frame_message f = fresh_message (fst f) (frame_bytes f)"

type_synonym limits = "usize \<times> usize"

definition p_limits :: "message_parser \<Rightarrow> limits" where
  "p_limits p = (p_max_message_size p, p_max_header_size p)"

definition frame_ok :: "limits \<Rightarrow> frame \<Rightarrow> bool" where
  "frame_ok l f \<longleftrightarrow>
     wf_base_header (fst f) \<and>
     length (snd f) = unat (bh_header_length (fst f)) + unat (bh_payload_length (fst f)) \<and>
     bh_header_length (fst f) \<le> ucast (snd l) \<and>
     length (frame_bytes f) \<le> unat (fst l)"

text \<open>Limits a real allocation can meet.\<close>

definition limits_sane :: "limits \<Rightarrow> bool" where
  "limits_sane l \<longleftrightarrow> unat (fst l) < 2 ^ 63"

lemma frame_length:
  "frame_ok l f \<Longrightarrow> length (frame_bytes f) = announced_size (fst f)"
  by (simp add: frame_ok_def frame_bytes_def announced_size_def)

lemma frame_nonempty: "frame_ok l f \<Longrightarrow> frame_bytes f \<noteq> []"
  using frame_length [of l f] by (auto simp: announced_size_def)

lemma frame_no_wrap:
  assumes "frame_ok l f"
  shows "no_wrap (fst f)" and "unat (total_message_size (fst f)) = length (frame_bytes f)"
proof -
  show nw: "no_wrap (fst f)"
    using assms frame_length [OF assms] unat_u64_lt [of "fst l"]
    by (simp add: no_wrap_def frame_ok_def)
  show "unat (total_message_size (fst f)) = length (frame_bytes f)"
    using unat_total_no_wrap [OF nw] frame_length [OF assms] by simp
qed

lemma frame_from_bytes:
  assumes "nom_laws d" and "frame_ok l f" and "rust_sized (frame_bytes f)"
  shows "from_bytes d (frame_bytes f) = Ok (frame_message f)"
proof -
  have "usize_len (frame_bytes f) = total_message_size (fst f)"
    by (rule word_unat_eq_iff [THEN iffD2])
      (simp add: unat_usize_len_rust [OF assms(3)] frame_no_wrap(2) [OF assms(2)])
  then have "framed (fresh_message (fst f) (frame_bytes f))"
    using assms(2,3) by (auto simp: framed_def frame_ok_def frame_bytes_def)
  then show ?thesis
    by (simp add: from_bytes_iff [OF assms(1,3)] frame_message_def)
qed

section \<open>What the parser does on its buffer\<close>

lemma try_parse_short: "length (p_buffer p) < 34 \<Longrightarrow> try_parse d p = (p, Ok None)"
  by (simp add: try_parse_def word_less_nat_alt usize_len_def unat_of_nat)

lemma try_parse_header:
  assumes "rust_sized (p_buffer p)" and "34 \<le> length (p_buffer p)"
  shows "try_parse d p =
    (case parse_base_header d (take 34 (p_buffer p)) of
       Panic \<Rightarrow> (p, Panic)
     | Err _ \<Rightarrow> (p, Ok None)
     | Ok bh \<Rightarrow>
         if bh_header_length bh > ucast (p_max_header_size p) then
           (p, Err (HeaderTooLarge (ucast (bh_header_length bh)) (p_max_header_size p)))
         else if total_message_size bh > p_max_message_size p then
           (p, Err (MessageTooLarge (total_message_size bh) (p_max_message_size p)))
         else if length (p_buffer p) < unat (total_message_size bh) then (p, Ok None)
         else
           (p\<lparr>p_buffer := drop (unat (total_message_size bh)) (p_buffer p)\<rparr>,
            res_bind (from_bytes d (take (unat (total_message_size bh)) (p_buffer p)))
              (\<lambda>message. Ok (Some message))))"
  using assms by (simp add: try_parse_def word_less_nat_alt Let_def split: res.splits)

lemma parse_prefix_iff:
  assumes "nom_laws d"
  shows "parse_base_header d (take 34 buf) = Ok bh \<longleftrightarrow>
    wf_base_header bh \<and> take 34 buf = base_header_bytes bh"
proof
  assume ok: "parse_base_header d (take 34 buf) = Ok bh"
  then have "wf_base_header bh"
    using parse_base_header_iff [OF assms] by blast
  moreover have "take 34 buf = base_header_bytes bh"
    using parse_base_header_short(2) [OF assms ok] by simp
  ultimately show "wf_base_header bh \<and> take 34 buf = base_header_bytes bh" ..
next
  assume "wf_base_header bh \<and> take 34 buf = base_header_bytes bh"
  then show "parse_base_header d (take 34 buf) = Ok bh"
    using parse_base_header_iff [OF assms, of "take 34 buf" bh] by (metis append_Nil2)
qed

text \<open>A whole frame at the front of the buffer is taken out of it.\<close>

lemma try_parse_frame:
  assumes "nom_laws d" and "frame_ok (p_limits p) f" and "rust_sized (p_buffer p)"
    and "p_buffer p = frame_bytes f @ rest"
  shows "try_parse d p = (p\<lparr>p_buffer := rest\<rparr>, Ok (Some (frame_message f)))"
proof -
  have wf: "wf_base_header (fst f)" and hl: "bh_header_length (fst f) \<le> ucast (p_max_header_size p)"
    and total: "length (frame_bytes f) \<le> unat (p_max_message_size p)"
    using assms(2) by (simp_all add: frame_ok_def p_limits_def)
  have len: "34 \<le> length (p_buffer p)"
    using wf assms(4) by (simp add: frame_bytes_def)
  have "take 34 (p_buffer p) = base_header_bytes (fst f)"
    using wf assms(4) by (simp add: frame_bytes_def)
  then have bh: "parse_base_header d (take 34 (p_buffer p)) = Ok (fst f)"
    using wf unfolding parse_prefix_iff [OF assms(1)] by simp
  note size = frame_no_wrap(2) [OF assms(2)]
  have "rust_sized (frame_bytes f)"
    using assms(3,4) by (simp add: rust_sized_def)
  then have ok: "from_bytes d (frame_bytes f) = Ok (frame_message f)"
    by (rule frame_from_bytes [OF assms(1,2)])
  have "\<not> bh_header_length (fst f) > ucast (p_max_header_size p)"
    using hl by simp
  moreover have "\<not> total_message_size (fst f) > p_max_message_size p"
    using total size by (simp add: word_less_nat_alt)
  moreover have "\<not> length (p_buffer p) < unat (total_message_size (fst f))"
    using size assms(4) by simp
  moreover have "take (unat (total_message_size (fst f))) (p_buffer p) = frame_bytes f"
    and "drop (unat (total_message_size (fst f))) (p_buffer p) = rest"
    using size assms(4) by simp_all
  ultimately show ?thesis
    by (simp add: try_parse_header [OF assms(3) len, of d] bh ok)
qed

text \<open>A proper prefix of a frame is left where it is.\<close>

lemma try_parse_prefix:
  assumes "nom_laws d" and "frame_ok (p_limits p) f" and "rust_sized (p_buffer p)"
    and "frame_bytes f = p_buffer p @ missing" and "missing \<noteq> []"
  shows "try_parse d p = (p, Ok None)"
proof (cases "34 \<le> length (p_buffer p)")
  case False
  then show ?thesis
    by (simp add: try_parse_short)
next
  case True
  have wf: "wf_base_header (fst f)" and hl: "bh_header_length (fst f) \<le> ucast (p_max_header_size p)"
    and total: "length (frame_bytes f) \<le> unat (p_max_message_size p)"
    using assms(2) by (simp_all add: frame_ok_def p_limits_def)
  have "take 34 (frame_bytes f) = base_header_bytes (fst f)"
    using wf by (simp add: frame_bytes_def)
  then have "take 34 (p_buffer p) = base_header_bytes (fst f)"
    using True assms(4) by simp
  then have bh: "parse_base_header d (take 34 (p_buffer p)) = Ok (fst f)"
    using wf unfolding parse_prefix_iff [OF assms(1)] by simp
  note size = frame_no_wrap(2) [OF assms(2)]
  have "\<not> bh_header_length (fst f) > ucast (p_max_header_size p)"
    using hl by simp
  moreover have "\<not> total_message_size (fst f) > p_max_message_size p"
    using total size by (simp add: word_less_nat_alt)
  moreover have "length (p_buffer p) < unat (total_message_size (fst f))"
    using size assms(4,5) by simp
  ultimately show ?thesis
    by (simp add: try_parse_header [OF assms(3) True, of d] bh)
qed

lemma try_parse_limits: "p_limits (fst (try_parse d p)) = p_limits p"
  by (auto simp: try_parse_def p_limits_def Let_def split: res.splits)

lemma push_data_limits: "p_limits (fst (push_data p data)) = p_limits p"
  by (simp add: push_data_def p_limits_def)

lemma push_data_Ok:
  assumes "length (p_buffer p) + length data \<le> unat (p_max_message_size p)"
  shows "push_data p data = (p\<lparr>p_buffer := p_buffer p @ data\<rparr>, Ok ())"
proof -
  have "length (p_buffer p) + length data < 2 ^ 64"
    using assms unat_u64_lt [of "p_max_message_size p"] by simp
  then have "unat (usize_len (p_buffer p) + usize_len data) = length (p_buffer p) + length data"
    by (simp add: usize_len_def unat_of_nat_u64 flip: of_nat_add)
  then show ?thesis
    using assms by (simp add: push_data_def word_less_nat_alt)
qed

lemma push_data_Err:
  assumes "unat (p_max_message_size p) < length (p_buffer p) + length data"
    and "length (p_buffer p) + length data < 2 ^ 64"
  shows "push_data p data =
    (p, Err (MessageTooLarge (of_nat (length (p_buffer p) + length data)) (p_max_message_size p)))"
proof -
  have "unat (usize_len (p_buffer p) + usize_len data) = length (p_buffer p) + length data"
    using assms(2) by (simp add: usize_len_def unat_of_nat_u64 flip: of_nat_add)
  then show ?thesis
    using assms(1) by (simp add: push_data_def word_less_nat_alt) (simp add: usize_len_def)
qed

text \<open>A buffer of whole frames and a rest on which parsing stops is drained to that rest.\<close>

lemma parse_all_loop_frames:
  fixes ms :: "('v, 'd) message list"
  assumes "nom_laws d" and "\<forall>f \<in> set fs. frame_ok (p_limits p) f"
    and "rust_sized (p_buffer p)" and "p_buffer p = concat (map frame_bytes fs) @ rest"
  shows "parse_all_loop d p ms =
    parse_all_loop d (p\<lparr>p_buffer := rest\<rparr>) (ms @ map frame_message fs)"
  using assms(2-4)
proof (induction fs arbitrary: p ms)
  case Nil
  then have "p\<lparr>p_buffer := rest\<rparr> = p"
    by simp
  then show ?case by simp
next
  case (Cons f fs)
  let ?p = "p\<lparr>p_buffer := concat (map frame_bytes fs) @ rest\<rparr>"
  have "try_parse d p = (?p, Ok (Some (frame_message f :: ('v, 'd) message)))"
    using Cons.prems by (intro try_parse_frame [OF assms(1)]) simp_all
  then have "parse_all_loop d p ms = parse_all_loop d ?p (ms @ [frame_message f])"
    by (subst parse_all_loop.simps) simp
  also have "\<dots> = parse_all_loop d (?p\<lparr>p_buffer := rest\<rparr>) ((ms @ [frame_message f]) @ map frame_message fs)"
    using Cons.prems by (intro Cons.IH) (simp_all add: p_limits_def rust_sized_def)
  finally show ?case by simp
qed

lemma parse_all_loop_stop:
  fixes ms :: "('v, 'd) message list"
  shows "try_parse d p = (p', Ok (None :: ('v, 'd) message option)) \<Longrightarrow>
      parse_all_loop d p ms = (p', Ok ms)"
    and "try_parse d p = (p', Err e :: ('v, 'd) message option protocol_result) \<Longrightarrow>
      parse_all_loop d p ms = (p', Err e)"
  by (simp_all add: parse_all_loop.simps [of d p])

section \<open>What a yielded message is\<close>

lemma take_header:
  assumes "framed m" and "p_buffer p = m_raw_data m @ rest"
  shows "34 \<le> length (p_buffer p)" and "take 34 (p_buffer p) = base_header_bytes (m_base_header m)"
  using assms by (auto simp: framed_def)

lemma try_parse_SomeD:
  assumes "nom_laws d" and "rust_sized (p_buffer p)" and "try_parse d p = (p', Ok (Some m))"
  shows "framed m" and "m = fresh_message (m_base_header m) (m_raw_data m)"
    and "p_buffer p = m_raw_data m @ p_buffer p'" and "p' = p\<lparr>p_buffer := p_buffer p'\<rparr>"
    and "bh_header_length (m_base_header m) \<le> ucast (p_max_header_size p)"
    and "total_message_size (m_base_header m) \<le> p_max_message_size p"
proof -
  have len: "34 \<le> length (p_buffer p)"
    using try_parse_consumes [OF assms(3)] by simp
  obtain bh where bh: "parse_base_header d (take 34 (p_buffer p)) = Ok bh"
    and hl: "bh_header_length bh \<le> ucast (p_max_header_size p)"
    and total: "total_message_size bh \<le> p_max_message_size p"
    and le: "unat (total_message_size bh) \<le> length (p_buffer p)"
    and p': "p' = p\<lparr>p_buffer := drop (unat (total_message_size bh)) (p_buffer p)\<rparr>"
    and m: "from_bytes d (take (unat (total_message_size bh)) (p_buffer p)) = Ok m"
    using assms(3) by (auto simp: try_parse_header [OF assms(2) len] outcome not_less
        split: res.splits if_splits)
  have sized: "rust_sized (take (unat (total_message_size bh)) (p_buffer p))"
    using assms(2) by (simp add: rust_sized_def)
  have raw: "m_raw_data m = take (unat (total_message_size bh)) (p_buffer p)"
    and fr: "framed m" and fresh: "m = fresh_message (m_base_header m) (m_raw_data m)"
    using m from_bytes_iff [OF assms(1) sized] by (metis fresh_simps(2))+
  have buf: "p_buffer p = m_raw_data m @ p_buffer p'"
    using raw p' by simp
  have "parse_base_header d (take 34 (p_buffer p)) = Ok (m_base_header m)"
    using fr take_header(2) [OF fr buf] unfolding parse_prefix_iff [OF assms(1)] framed_def by simp
  with bh have "bh = m_base_header m"
    by simp
  with fr fresh buf p' hl total show "framed m"
    and "m = fresh_message (m_base_header m) (m_raw_data m)"
    and "p_buffer p = m_raw_data m @ p_buffer p'" and "p' = p\<lparr>p_buffer := p_buffer p'\<rparr>"
    and "bh_header_length (m_base_header m) \<le> ucast (p_max_header_size p)"
    and "total_message_size (m_base_header m) \<le> p_max_message_size p"
    by simp_all
qed

lemma try_parse_SomeI:
  assumes "nom_laws d" and "rust_sized (p_buffer p)"
    and "framed m" and "m = fresh_message (m_base_header m) (m_raw_data m)"
    and "p_buffer p = m_raw_data m @ rest"
    and "bh_header_length (m_base_header m) \<le> ucast (p_max_header_size p)"
    and "total_message_size (m_base_header m) \<le> p_max_message_size p"
  shows "try_parse d p = (p\<lparr>p_buffer := rest\<rparr>, Ok (Some m))"
proof -
  have sized: "rust_sized (m_raw_data m)"
    using assms(3) by (simp add: framed_def)
  have size: "unat (total_message_size (m_base_header m)) = length (m_raw_data m)"
    using assms(3) unat_usize_len_rust [OF sized] by (simp add: framed_def)
  have "parse_base_header d (take 34 (p_buffer p)) = Ok (m_base_header m)"
    using assms(3) take_header(2) [OF assms(3,5)]
    unfolding parse_prefix_iff [OF assms(1)] framed_def by simp
  moreover have "from_bytes d (m_raw_data m) = Ok m"
    using from_bytes_iff [OF assms(1) sized] assms(3,4) by metis
  ultimately show ?thesis
    using assms(5-7) size by (simp add: try_parse_header [OF assms(2) take_header(1) [OF assms(3,5)]] not_less)
qed

lemma try_parse_no_panic [simp]: "try_parse d p \<noteq> (p', Panic)"
  by (auto simp: try_parse_def Let_def outcome from_bytes_def split: res.splits if_splits)

lemma try_parse_NoneD: "try_parse d p = (p', Ok None) \<Longrightarrow> p' = p"
  by (auto simp: try_parse_def Let_def outcome split: res.splits if_splits)

text \<open>
  The one error that comes after bytes have left the buffer is \<open>IncompleteData\<close>, on a
  length field whose wrapped total is less than a base header.
\<close>

lemma from_bytes_frame_err:
  assumes "nom_laws d" and "rust_sized buf" and "parse_base_header d (take 34 buf) = Ok bh"
    and "unat (total_message_size bh) \<le> length buf"
    and "from_bytes d (take (unat (total_message_size bh)) buf) = Err e"
  shows "\<not> no_wrap bh" and "\<exists>n a. e = IncompleteData n a" and "unat (total_message_size bh) < 34"
    and "e = IncompleteData 34 (usize_len (take (unat (total_message_size bh)) buf))"
proof -
  let ?n = "unat (total_message_size bh)"
  have len: "unat (usize_len (take ?n buf)) = ?n"
    using assms(2,4) by (simp add: rust_sized_def unat_usize_len)
  have "?n < 34"
  proof (rule ccontr)
    assume "\<not> ?n < 34"
    then have "take 34 (take ?n buf) = take 34 buf"
      by simp
    then have "parse_base_header d (take ?n buf) = Ok bh"
      using assms(3,4) \<open>\<not> ?n < 34\<close> parse_base_header_take [OF assms(1), of "take ?n buf" bh]
      by simp
    moreover have "usize_len (take ?n buf) = total_message_size bh"
      using len by (rule word_unat_eq_iff [THEN iffD2])
    ultimately show False
      using assms(5) \<open>\<not> ?n < 34\<close> len by (simp add: from_bytes_def word_less_nat_alt)
  qed
  then show "\<not> no_wrap bh" and "?n < 34"
    using unat_total_no_wrap [of bh] by (auto simp: announced_size_def)
  show e: "e = IncompleteData 34 (usize_len (take ?n buf))"
    using assms(5) \<open>?n < 34\<close> len by (simp add: from_bytes_def word_less_nat_alt BASE_HEADER_SIZE_def)
  then show "\<exists>n a. e = IncompleteData n a"
    by blast
qed

lemma try_parse_ErrD:
  assumes "nom_laws d" and "rust_sized (p_buffer p)" and "try_parse d p = (p', Err e)"
    and "\<And>n a. e \<noteq> IncompleteData n a"
  shows "p' = p"
proof (cases "34 \<le> length (p_buffer p)")
  case False
  then show ?thesis
    using assms(3) by (simp add: try_parse_short)
next
  case True
  show ?thesis
    using assms(3,4) from_bytes_frame_err(2) [OF assms(1,2)]
    by (fastforce simp: try_parse_header [OF assms(2) True] outcome not_less
        split: res.splits if_splits)
qed

lemma try_parse_spills:
  fixes d :: "'v deps" and e :: protocol_error
  assumes "nom_laws d" and "rust_sized (p_buffer p)"
    and parse: "try_parse d p = (p', Err e :: ('v, 'd) message option protocol_result)"
  shows "\<exists>lost. p_buffer p = lost @ p_buffer p' \<and>
    (lost \<noteq> [] \<longrightarrow> length lost < 34 \<and> e = IncompleteData 34 (usize_len lost))"
proof (cases "p' = p")
  case False
  then have len: "34 \<le> length (p_buffer p)"
    using parse by (cases "34 \<le> length (p_buffer p)") (simp_all add: try_parse_short)
  note step = parse [unfolded try_parse_header [OF assms(2) len]]
  obtain bh where bh: "parse_base_header d (take 34 (p_buffer p)) = Ok bh"
    using step False by (cases "parse_base_header d (take 34 (p_buffer p))") simp_all
  let ?n = "unat (total_message_size bh)"
  have n: "?n \<le> length (p_buffer p)"
    using step False by (simp add: bh split: if_splits)
  have p': "p' = p\<lparr>p_buffer := drop ?n (p_buffer p)\<rparr>"
    using step False by (simp add: bh split: if_splits)
  have "res_bind (from_bytes d (take ?n (p_buffer p))) (\<lambda>message. Ok (Some message)) =
      (Err e :: ('v, 'd) message option protocol_result)"
    using step False by (simp add: bh split: if_splits)
  then have "from_bytes d (take ?n (p_buffer p)) = (Err e :: ('v, 'd) message protocol_result)"
    by (simp add: outcome)
  note short = from_bytes_frame_err(3,4) [OF assms(1,2) bh n this]
  show ?thesis
    by (intro exI [of _ "take ?n (p_buffer p)"]) (use short in \<open>simp add: p' min_def\<close>)
qed simp

section \<open>Runs of the parser\<close>

text \<open>
  A run is any interleaving of accepted and refused pushes with parse attempts that
  yield, wait or refuse; it records the bytes pushed and the messages yielded.
\<close>

inductive parser_run ::
  "'v deps \<Rightarrow> message_parser \<Rightarrow> bytes \<Rightarrow> ('v, 'd) message list \<Rightarrow> message_parser \<Rightarrow> bool"
  for d p0 where
  start: "parser_run d p0 [] [] p0"
| pushed: "parser_run d p0 ins outs p \<Longrightarrow> rust_sized data \<Longrightarrow> push_data p data = (p', Ok ()) \<Longrightarrow>
    parser_run d p0 (ins @ data) outs p'"
| push_refused: "parser_run d p0 ins outs p \<Longrightarrow> push_data p data = (p', Err e) \<Longrightarrow>
    parser_run d p0 ins outs p'"
| yielded: "parser_run d p0 ins outs p \<Longrightarrow> try_parse d p = (p', Ok (Some m)) \<Longrightarrow>
    parser_run d p0 ins (outs @ [m]) p'"
| waited: "parser_run d p0 ins outs p \<Longrightarrow>
    try_parse d p = (p', Ok (None :: ('v, 'd) message option)) \<Longrightarrow> parser_run d p0 ins outs p'"
| refused: "parser_run d p0 ins outs p \<Longrightarrow>
    try_parse d p = (p', Err e :: ('v, 'd) message option protocol_result) \<Longrightarrow>
    (\<And>n a. e \<noteq> IncompleteData n a) \<Longrightarrow> parser_run d p0 ins outs p'"

definition within_limits :: "message_parser \<Rightarrow> bool" where
  "within_limits p \<longleftrightarrow>
     limits_sane (p_limits p) \<and> length (p_buffer p) \<le> unat (p_max_message_size p)"

lemma within_limits_sized [simp, intro]: "within_limits p \<Longrightarrow> rust_sized (p_buffer p)"
  by (simp add: within_limits_def limits_sane_def p_limits_def rust_sized_def)

lemma push_data_OkD:
  assumes "within_limits p" and "rust_sized data" and "push_data p data = (p', Ok ())"
  shows "p' = p\<lparr>p_buffer := p_buffer p @ data\<rparr>" and "within_limits p'"
proof -
  have "length (p_buffer p) + length data < 2 ^ 64"
    using within_limits_sized [OF assms(1)] assms(2) by (simp add: rust_sized_def)
  then have "length (p_buffer p) + length data \<le> unat (p_max_message_size p)"
    using push_data_Err [of p data] assms(3) by (cases rule: le_cases3) (auto simp: not_le [symmetric])
  with assms show "p' = p\<lparr>p_buffer := p_buffer p @ data\<rparr>" and "within_limits p'"
    using push_data_Ok [of p data] by (auto simp: within_limits_def p_limits_def)
qed

lemma push_data_ErrD: "push_data p data = (p', Err e) \<Longrightarrow> p' = p"
  by (simp add: push_data_def split: if_splits)

lemma parser_run_conserves:
  assumes "nom_laws d" and "parser_run d p0 ins outs p" and "within_limits p0"
  shows "p_buffer p0 @ ins = concat (map m_raw_data outs) @ p_buffer p \<and>
    p_limits p = p_limits p0 \<and> within_limits p"
  using assms(2)
proof (induction rule: parser_run.induct)
  case start
  then show ?case using assms(3) by simp
next
  case (pushed ins outs p data p')
  then show ?case
    using push_data_OkD [of p data p'] by (auto simp: p_limits_def)
next
  case (push_refused ins outs p data p' e)
  then show ?case by (auto dest: push_data_ErrD)
next
  case (yielded ins outs p p' m)
  then have "rust_sized (p_buffer p)"
    by auto
  note D = try_parse_SomeD(3,4) [OF assms(1) this \<open>try_parse d p = (p', Ok (Some m))\<close>]
  then have "p_buffer p = m_raw_data m @ p_buffer p'" and "p' = p\<lparr>p_buffer := p_buffer p'\<rparr>"
    by blast+
  moreover from this(2) have "p_limits p' = p_limits p"
    by (metis (no_types) message_parser.surjective message_parser.update_convs(1)
        message_parser.select_convs(2,3) p_limits_def)
  ultimately show ?case
    using yielded.IH by (auto simp: within_limits_def p_limits_def)
next
  case (waited ins outs p p')
  then show ?case by (auto dest: try_parse_NoneD)
next
  case (refused ins outs p p' e)
  then have "p' = p"
    using try_parse_ErrD [OF assms(1), of p p' e] by auto
  with refused.IH show ?case by simp
qed

text \<open>A buffer that starts with what cannot be a base header.\<close>

definition bad_start :: "bytes \<Rightarrow> bool" where
  "bad_start buf \<longleftrightarrow> 34 \<le> length buf \<and> (buf ! 0 \<noteq> PROTOCOL_VERSION \<or> 8 \<le> buf ! 1)"

lemma bad_start_append: "bad_start buf \<Longrightarrow> bad_start (buf @ rest)"
  by (auto simp: bad_start_def nth_append)

lemma base_header_nth:
  "base_header_bytes bh ! 0 = bh_version bh"
  "base_header_bytes bh ! 1 = message_type_to_u8 (bh_message_type bh)"
  by (simp_all add: base_header_bytes_def u8_to_bytes_def)

lemma try_parse_bad_start:
  assumes "nom_laws d" and "rust_sized (p_buffer p)" and "bad_start (p_buffer p)"
  shows "try_parse d p = (p, Ok None)"
proof -
  have len: "34 \<le> length (p_buffer p)"
    using assms(3) by (simp add: bad_start_def)
  have "parse_base_header d (take 34 (p_buffer p)) \<noteq> Ok bh" for bh
  proof
    assume "parse_base_header d (take 34 (p_buffer p)) = Ok bh"
    then have wf: "wf_base_header bh" and "take 34 (p_buffer p) = base_header_bytes bh"
      by (simp_all add: parse_prefix_iff [OF assms(1)])
    then have "p_buffer p ! 0 = bh_version bh"
      and "p_buffer p ! 1 = message_type_to_u8 (bh_message_type bh)"
      using base_header_nth [of bh] by (metis nth_take zero_less_numeral one_less_numeral_iff
          semiring_norm(76) numeral_less_iff)+
    moreover have "\<not> 8 \<le> message_type_to_u8 (bh_message_type bh)"
      by (metis from_u8_None_iff from_u8_to_u8 option.distinct(1))
    ultimately show False
      using assms(3) wf by (simp add: bad_start_def wf_base_header_def)
  qed
  then show ?thesis
    by (auto simp: try_parse_header [OF assms(2) len] split: res.splits)
qed

section \<open>Sent messages as frames\<close>

text \<open>What \<open>to_bytes\<close> writes is a frame for a parser with the default limits.\<close>

definition default_limits :: limits where
  "default_limits = (DEFAULT_MAX_MESSAGE_SIZE, DEFAULT_MAX_HEADER_SIZE)"

lemma default_limits_sane [simp]: "limits_sane default_limits"
  by (simp add: limits_sane_def default_limits_def DEFAULT_MAX_MESSAGE_SIZE_def)

lemma p_limits_new [simp]: "p_limits parser_new = default_limits"
  by (simp add: p_limits_def parser_new_def parser_with_limits_def default_limits_def)

lemma p_buffer_new [simp]: "p_buffer parser_new = []"
  by (simp add: parser_new_def parser_with_limits_def)

lemma within_limits_new [simp]: "within_limits parser_new"
  by (simp add: within_limits_def)

lemma wire_frame_ok:
  assumes "length hb \<le> 65536" and "wire_size rm hb \<le> 2 ^ 30"
  shows "frame_ok default_limits (wire_header rm hb, hb @ rm_payload_data rm)"
proof -
  note w = wire_header_simps [OF assms]
  have "length (frame_bytes (wire_header rm hb, hb @ rm_payload_data rm)) = wire_size rm hb"
    using w(1) by (simp add: frame_bytes_def wire_size_def)
  then show ?thesis
    using assms w by (simp add: frame_ok_def default_limits_def word_le_nat_alt
        DEFAULT_MAX_MESSAGE_SIZE_def DEFAULT_MAX_HEADER_SIZE_def)
qed

lemma to_bytes_frame:
  assumes "encodable d rm" and "to_bytes d rm = Ok bs"
  obtains hb where "header_bytes_of d (rm_header rm) = Ok hb"
    "frame_ok default_limits (wire_header rm hb, hb @ rm_payload_data rm)"
    "bs = frame_bytes (wire_header rm hb, hb @ rm_payload_data rm)"
proof -
  obtain hb where "header_bytes_of d (rm_header rm) = Ok hb" "length hb \<le> 65536"
    "wire_size rm hb \<le> 2 ^ 30" "bs = base_header_bytes (wire_header rm hb) @ hb @ rm_payload_data rm"
    by (rule to_bytes_OkD [OF assms])
  then show thesis
    using that [of hb] wire_frame_ok [of hb rm] by (simp add: frame_bytes_def)
qed

definition demo_frame :: frame where
  "demo_frame = (wire_header demo_raw [1], [1, 7])"

lemma demo_frame_ok [simp]: "frame_ok default_limits demo_frame"
  using wire_frame_ok [of "[1]" demo_raw] by (simp add: demo_frame_def wire_size_def)

lemma demo_frame_length [simp]: "length (frame_bytes demo_frame) = 36"
  by (simp add: frame_bytes_def demo_frame_def wire_header_def)

lemma demo_raw_to_bytes: "to_bytes demo_deps demo_raw = Ok (frame_bytes demo_frame)"
  by (simp add: to_bytes_eq [OF demo_raw_header] rust_sized_def wire_size_def frame_bytes_def demo_frame_def)

section \<open>Properties\<close>

text \<open>
  C14. Exactness of \<open>try_parse\<close>: it yields a message and takes it out of the buffer exactly
  when the buffer starts with the bytes of a framed message within the limits (so every
  yielded message is one \<open>from_bytes\<close> would accept, and bytes are taken from the front
  only), and no buffer content makes it panic.
\<close>

theorem try_parse_exact:
  assumes "nom_laws d" and "rust_sized (p_buffer p)"
  shows "(try_parse d p = (p', Ok (Some m)) \<longleftrightarrow>
      framed m \<and> m = fresh_message (m_base_header m) (m_raw_data m) \<and>
      p_buffer p = m_raw_data m @ p_buffer p' \<and> p' = p\<lparr>p_buffer := p_buffer p'\<rparr> \<and>
      bh_header_length (m_base_header m) \<le> ucast (p_max_header_size p) \<and>
      total_message_size (m_base_header m) \<le> p_max_message_size p) \<and>
    snd (try_parse d p) \<noteq> (Panic :: ('v, 'd) message option protocol_result)"
proof (intro conjI iffI)
  assume "try_parse d p = (p', Ok (Some m))"
  from try_parse_SomeD [OF assms this]
  show "framed m" and "m = fresh_message (m_base_header m) (m_raw_data m)"
    and "p_buffer p = m_raw_data m @ p_buffer p'" and "p' = p\<lparr>p_buffer := p_buffer p'\<rparr>"
    and "bh_header_length (m_base_header m) \<le> ucast (p_max_header_size p)"
    and "total_message_size (m_base_header m) \<le> p_max_message_size p" .
next
  assume R: "framed m \<and> m = fresh_message (m_base_header m) (m_raw_data m) \<and>
      p_buffer p = m_raw_data m @ p_buffer p' \<and> p' = p\<lparr>p_buffer := p_buffer p'\<rparr> \<and>
      bh_header_length (m_base_header m) \<le> ucast (p_max_header_size p) \<and>
      total_message_size (m_base_header m) \<le> p_max_message_size p"
  then have "try_parse d p = (p\<lparr>p_buffer := p_buffer p'\<rparr>, Ok (Some m))"
    by (intro try_parse_SomeI [OF assms]) blast+
  with R show "try_parse d p = (p', Ok (Some m))"
    by simp
next
  show "snd (try_parse d p) \<noteq> (Panic :: ('v, 'd) message option protocol_result)"
    by (metis prod.collapse try_parse_no_panic)
qed

theorem try_parse_exact_witness:
  "try_parse demo_deps (parser_new\<lparr>p_buffer := frame_bytes demo_frame @ [9]\<rparr>) =
     (parser_new\<lparr>p_buffer := [9]\<rparr>, Ok (Some (frame_message demo_frame :: (nat, nat) message)))"
proof -
  let ?p = "parser_new\<lparr>p_buffer := frame_bytes demo_frame @ [9]\<rparr>"
  let ?m = "frame_message demo_frame :: (nat, nat) message"
  have sized: "rust_sized (p_buffer ?p)" and "rust_sized (frame_bytes demo_frame)"
    by (simp_all add: rust_sized_def)
  then have "from_bytes demo_deps (frame_bytes demo_frame) = Ok ?m"
    by (intro frame_from_bytes [OF nom_laws_demo demo_frame_ok])
  then have "framed ?m"
    using from_bytes_iff [OF nom_laws_demo \<open>rust_sized (frame_bytes demo_frame)\<close>] by blast
  then show ?thesis
    using demo_frame_ok frame_no_wrap(2) [OF demo_frame_ok]
    by (intro try_parse_exact [OF nom_laws_demo sized, THEN conjunct1, THEN iffD2])
      (simp add: frame_message_def frame_ok_def default_limits_def parser_new_def
        parser_with_limits_def word_le_nat_alt)
qed

text \<open>
  Reassembly: on a buffer of complete frames followed by a proper prefix of one more
  (possibly empty), \<open>parse_all\<close> returns exactly the messages of the complete frames, in
  order, and leaves the prefix in the buffer for the bytes to come.
\<close>

theorem parse_all_reassembles:
  assumes "nom_laws d" and "\<forall>f \<in> set fs. frame_ok (p_limits p) f" and "frame_ok (p_limits p) g"
    and "rust_sized (p_buffer p)" and "p_buffer p = concat (map frame_bytes fs) @ part"
    and "frame_bytes g = part @ missing" and "missing \<noteq> []"
  shows "parse_all d p = (p\<lparr>p_buffer := part\<rparr>, Ok (map frame_message fs :: ('v, 'd) message list))"
proof -
  let ?p = "p\<lparr>p_buffer := part\<rparr>"
  have "try_parse d ?p = (?p, Ok (None :: ('v, 'd) message option))"
    using assms by (intro try_parse_prefix) (auto simp: p_limits_def rust_sized_def)
  then have "parse_all_loop d ?p ms = (?p, Ok ms)" for ms :: "('v, 'd) message list"
    by (rule parse_all_loop_stop)
  then show ?thesis
    using parse_all_loop_frames [OF assms(1,2,4,5), where ms = "[] :: ('v, 'd) message list"]
    by (simp add: parse_all_def)
qed

theorem parse_all_reassembles_witness:
  "parse_all demo_deps
     (parser_new\<lparr>p_buffer := frame_bytes demo_frame @ frame_bytes demo_frame @ take 35 (frame_bytes demo_frame)\<rparr>) =
   (parser_new\<lparr>p_buffer := take 35 (frame_bytes demo_frame)\<rparr>,
    Ok [frame_message demo_frame, frame_message demo_frame :: (nat, nat) message])"
  using parse_all_reassembles [OF nom_laws_demo, of "[demo_frame, demo_frame]"
      "parser_new\<lparr>p_buffer := frame_bytes demo_frame @ frame_bytes demo_frame @ take 35 (frame_bytes demo_frame)\<rparr>"
      demo_frame "take 35 (frame_bytes demo_frame)" "drop 35 (frame_bytes demo_frame)"]
  by (simp add: p_limits_def [of "parser_new\<lparr>p_buffer := _\<rparr>"] rust_sized_def flip: p_limits_def)

text \<open>
  Conservation over every run: whatever the interleaving of accepted and refused
  pushes with parse attempts, the bytes handed in are exactly the raw bytes of the
  messages yielded so far followed by the buffer (nothing lost, duplicated or reordered),
  and the buffer never exceeds the maximum message size. Runs exclude only the error that
  a wrapping length field provokes.
\<close>

theorem parser_conserves_bytes:
  assumes "nom_laws d" and "parser_run d parser_new ins outs p"
  shows "ins = concat (map m_raw_bytes outs) @ p_buffer p \<and>
    length (p_buffer p) \<le> unat DEFAULT_MAX_MESSAGE_SIZE"
  using parser_run_conserves [OF assms within_limits_new]
  by (auto simp: m_raw_bytes_def [abs_def] within_limits_def p_limits_def parser_new_def
      parser_with_limits_def)

theorem parser_conserves_bytes_witness:
  "frame_bytes demo_frame @ [1] =
     concat (map m_raw_bytes [frame_message demo_frame :: (nat, nat) message]) @ [1] \<and>
   length [1 :: u8] \<le> unat DEFAULT_MAX_MESSAGE_SIZE"
proof -
  let ?data = "frame_bytes demo_frame @ [1]"
  let ?m = "frame_message demo_frame :: (nat, nat) message"
  have "push_data parser_new ?data = (parser_new\<lparr>p_buffer := ?data\<rparr>, Ok ())"
    using push_data_Ok [of parser_new ?data]
    by (simp add: parser_new_def parser_with_limits_def DEFAULT_MAX_MESSAGE_SIZE_def)
  then have "parser_run demo_deps parser_new ([] @ ?data) ([] :: (nat, nat) message list)
      (parser_new\<lparr>p_buffer := ?data\<rparr>)"
    by (intro parser_run.pushed [OF parser_run.start]) (simp_all add: rust_sized_def)
  moreover have "try_parse demo_deps (parser_new\<lparr>p_buffer := ?data\<rparr>) =
      (parser_new\<lparr>p_buffer := [1]\<rparr>, Ok (Some ?m))"
    using try_parse_frame [OF nom_laws_demo, of "parser_new\<lparr>p_buffer := ?data\<rparr>" demo_frame "[1]"]
    by (simp add: rust_sized_def p_limits_def [of "parser_new\<lparr>p_buffer := _\<rparr>"] flip: p_limits_def)
  ultimately have "parser_run demo_deps parser_new ([] @ ?data) ([] @ [?m]) (parser_new\<lparr>p_buffer := [1]\<rparr>)"
    by (rule parser_run.yielded)
  from parser_conserves_bytes [OF nom_laws_demo this] show ?thesis
    by simp
qed

text \<open>
  C38. A stream that does not start with a base header blocks the parser for good: with a
  wrong version or an unknown type at the front of a complete base header, no later push
  and no later attempt yields a message; every attempt answers \<open>Ok(None)\<close>, as it would
  for a message still on its way, and the bytes stay.
\<close>

theorem bad_start_blocks:
  fixes outs :: "('v, 'd) message list"
  assumes "nom_laws d" and "within_limits p" and "bad_start (p_buffer p)"
    and "parser_run d p ins outs p'"
  shows "outs = [] \<and> p_buffer p' = p_buffer p @ ins \<and>
    try_parse d p' = (p', Ok (None :: ('v, 'd) message option))"
proof -
  have step: "try_parse d q = (q, Ok (None :: ('v, 'd) message option))"
    if "within_limits q" "p_buffer q = p_buffer p @ ins" for q ins
  proof (rule try_parse_bad_start [OF assms(1)])
    show "rust_sized (p_buffer q)"
      using that(1) by (rule within_limits_sized)
    show "bad_start (p_buffer q)"
      using that(2) assms(3) by (simp add: bad_start_append)
  qed
  have "outs = [] \<and> p_buffer p' = p_buffer p @ ins"
    using assms(4)
  proof (induction rule: parser_run.induct)
    case (yielded ins outs q q' m)
    then have "within_limits q" and "p_buffer q = p_buffer p @ ins"
      using parser_run_conserves [OF assms(1) yielded.hyps(1) assms(2)] by simp_all
    from step [OF this] yielded.hyps(2) show ?case by simp
  next
    case (refused ins outs q q' e)
    then have "within_limits q" and "p_buffer q = p_buffer p @ ins"
      using parser_run_conserves [OF assms(1) refused.hyps(1) assms(2)] by simp_all
    from step [OF this] refused.hyps(2) show ?case by simp
  qed (auto dest!: push_data_ErrD try_parse_NoneD simp: push_data_def split: if_splits)
  then show ?thesis
    using step [of p' ins] parser_run_conserves [OF assms(1,4,2)] by simp
qed

theorem bad_start_blocks_witness:
  "try_parse demo_deps (parser_new\<lparr>p_buffer := replicate 40 0\<rparr>) =
     (parser_new\<lparr>p_buffer := replicate 40 0\<rparr>, Ok (None :: (nat, nat) message option))"
proof -
  let ?p = "parser_new\<lparr>p_buffer := replicate 40 (0 :: u8)\<rparr>"
  have "within_limits ?p"
    by (simp add: within_limits_def p_limits_def parser_new_def parser_with_limits_def
        limits_sane_def DEFAULT_MAX_MESSAGE_SIZE_def)
  moreover have "bad_start (p_buffer ?p)"
    by (simp add: bad_start_def PROTOCOL_VERSION_def)
  ultimately show ?thesis
    using bad_start_blocks [OF nom_laws_demo _ _ parser_run.start] by blast
qed

text \<open>
  C39. An error of \<open>parse_all\<close> costs the messages before it: with complete frames in front
  of a frame whose header is announced too large, the call returns the error and the
  frames are gone from the buffer, so their messages are never delivered.
\<close>

theorem parse_all_drops_messages:
  assumes "nom_laws d" and "\<forall>f \<in> set fs. frame_ok (p_limits p) f" and "rust_sized (p_buffer p)"
    and "p_buffer p = concat (map frame_bytes fs) @ base_header_bytes bh @ rest"
    and "wf_base_header bh" and "ucast (p_max_header_size p) < bh_header_length bh"
  shows "parse_all d p =
    (p\<lparr>p_buffer := base_header_bytes bh @ rest\<rparr>,
     Err (HeaderTooLarge (ucast (bh_header_length bh)) (p_max_header_size p))
       :: ('v, 'd) message list protocol_result)"
proof -
  let ?p = "p\<lparr>p_buffer := base_header_bytes bh @ rest\<rparr>"
  have "rust_sized (p_buffer ?p)" and "34 \<le> length (p_buffer ?p)"
    using assms(3-5) by (auto simp: rust_sized_def)
  moreover have "parse_base_header d (take 34 (p_buffer ?p)) = Ok bh"
    using assms(5) unfolding parse_prefix_iff [OF assms(1)] by simp
  ultimately have "try_parse d ?p =
      (?p, Err (HeaderTooLarge (ucast (bh_header_length bh)) (p_max_header_size p))
        :: ('v, 'd) message option protocol_result)"
    using assms(6) by (simp add: try_parse_header)
  from parse_all_loop_stop(2) [OF this]
  show ?thesis
    using parse_all_loop_frames [OF assms(1-4), where ms = "[] :: ('v, 'd) message list"]
    by (simp add: parse_all_def)
qed

theorem parse_all_drops_messages_witness:
  "parse_all demo_deps
     (parser_new\<lparr>p_buffer := frame_bytes demo_frame @ base_header_bytes (base_header_new Publish 1000 70000 0)\<rparr>) =
   (parser_new\<lparr>p_buffer := base_header_bytes (base_header_new Publish 1000 70000 0)\<rparr>,
    Err (HeaderTooLarge 70000 65536) :: (nat, nat) message list protocol_result)"
  using parse_all_drops_messages [OF nom_laws_demo, of "[demo_frame]"
      "parser_new\<lparr>p_buffer := frame_bytes demo_frame @ base_header_bytes (base_header_new Publish 1000 70000 0)\<rparr>"
      "base_header_new Publish 1000 70000 0" "[]"] demo_frame_ok
  by (simp add: p_limits_def rust_sized_def parser_new_def parser_with_limits_def
      default_limits_def base_header_new_def wf_base_header_def DEFAULT_MAX_HEADER_SIZE_def
      word_less_nat_alt)

end
