(* ===== verification/Codecs.thy ===== *)
theory Codecs
  imports Stream_Parser
begin

text \<open>
  The codecs of \<open>codec.rs\<close>: \<open>MessageCodec\<close>, \<open>MessageDecoder\<close> and \<open>MessageEncoder\<close>. What a
  framed stream relies on is stated as two interfaces, \<open>stream_decoder\<close> and
  \<open>frame_encoder\<close>: reassembly of an arbitrarily chunked stream and concatenation of
  encoded frames are proved once from their laws, and the laws hold of every codec.
\<close>

section \<open>The model\<close>

record message_codec =
  c_parser :: message_parser
  c_max_frame_size :: usize

record message_decoder =
  d_parser :: message_parser
  d_max_frame_size :: usize

record message_encoder =
  e_max_frame_size :: usize

definition codec_new :: message_codec where
  "codec_new = \<lparr>c_parser = parser_new, c_max_frame_size = DEFAULT_MAX_MESSAGE_SIZE\<rparr>"

definition codec_with_limits :: "usize \<Rightarrow> usize \<Rightarrow> message_codec" where
  "codec_with_limits max_message_size max_header_size =
     \<lparr>c_parser = parser_with_limits max_message_size max_header_size,
      c_max_frame_size = max_message_size\<rparr>"

definition codec_default :: message_codec where
  "codec_default = codec_new"

definition codec_buffer_size :: "message_codec \<Rightarrow> usize" where
  "codec_buffer_size c = parser_buffer_size (c_parser c)"

definition decoder_new :: message_decoder where
  "decoder_new = \<lparr>d_parser = parser_new, d_max_frame_size = DEFAULT_MAX_MESSAGE_SIZE\<rparr>"

definition decoder_with_limits :: "usize \<Rightarrow> usize \<Rightarrow> message_decoder" where
  "decoder_with_limits max_message_size max_header_size =
     \<lparr>d_parser = parser_with_limits max_message_size max_header_size,
      d_max_frame_size = max_message_size\<rparr>"

definition decoder_default :: message_decoder where
  "decoder_default = decoder_new"

definition decoder_buffer_size :: "message_decoder \<Rightarrow> usize" where
  "decoder_buffer_size c = parser_buffer_size (d_parser c)"

definition decoder_clear :: "message_decoder \<Rightarrow> message_decoder" where
  "decoder_clear c = c\<lparr>d_parser := parser_clear (d_parser c)\<rparr>"

definition encoder_new :: message_encoder where
  "encoder_new = \<lparr>e_max_frame_size = DEFAULT_MAX_MESSAGE_SIZE\<rparr>"

definition encoder_with_max_frame_size :: "usize \<Rightarrow> message_encoder" where
  "encoder_with_max_frame_size n = \<lparr>e_max_frame_size = n\<rparr>"

definition encoder_default :: message_encoder where
  "encoder_default = encoder_new"

definition encoder :: message_encoder where
  "encoder = encoder_new"

definition decoder :: message_decoder where
  "decoder = decoder_new"

definition codec :: message_codec where
  "codec = codec_new"

text \<open>
  The body of \<open>decode\<close>, which the codec and the decoder share word for word. \<open>src\<close> is the
  caller's read buffer: it is cleared when its bytes have gone to the parser, and an
  early return of \<open>?\<close> leaves it as it is.
\<close>

definition parser_decode ::
  "'v deps \<Rightarrow> usize \<Rightarrow> message_parser \<Rightarrow> bytes \<Rightarrow>
   (message_parser \<times> bytes) \<times> ('v, 'd) message option protocol_result" where
  "parser_decode d max_frame_size p src =
     (if usize_len src > max_frame_size then
        ((p, src), Err (MessageTooLarge (usize_len src) max_frame_size))
      else if src \<noteq> [] then
        (case push_data p src of
           (p', Ok _) \<Rightarrow> (let (p'', r) = try_parse d p' in ((p'', []), r))
         | (p', Err e) \<Rightarrow> ((p', src), Err e)
         | (p', Panic) \<Rightarrow> ((p', src), Panic))
      else (let (p', r) = try_parse d p in ((p', src), r)))"

definition codec_decode ::
  "'v deps \<Rightarrow> message_codec \<Rightarrow> bytes \<Rightarrow>
   (message_codec \<times> bytes) \<times> ('v, 'd) message option protocol_result" where
  "codec_decode d c src =
     (case parser_decode d (c_max_frame_size c) (c_parser c) src of
        ((p, src'), r) \<Rightarrow> ((c\<lparr>c_parser := p\<rparr>, src'), r))"

definition decoder_decode ::
  "'v deps \<Rightarrow> message_decoder \<Rightarrow> bytes \<Rightarrow>
   (message_decoder \<times> bytes) \<times> ('v, 'd) message option protocol_result" where
  "decoder_decode d c src =
     (case parser_decode d (d_max_frame_size c) (d_parser c) src of
        ((p, src'), r) \<Rightarrow> ((c\<lparr>d_parser := p\<rparr>, src'), r))"

text \<open>The second half of every \<open>encode\<close>: the size check, and \<open>dst.put\<close>.\<close>

definition put_frame :: "usize \<Rightarrow> bytes \<Rightarrow> bytes \<Rightarrow> bytes \<times> unit protocol_result" where
  "put_frame max_frame_size bs dst =
     (if usize_len bs > max_frame_size then
        (dst, Err (MessageTooLarge (usize_len bs) max_frame_size))
      else (dst @ bs, Ok ()))"

definition codec_encode_raw ::
  "'v deps \<Rightarrow> message_codec \<Rightarrow> 'v raw_message \<Rightarrow> bytes \<Rightarrow> bytes \<times> unit protocol_result" where
  "codec_encode_raw d c item dst =
     (case to_bytes d item of
        Ok bs \<Rightarrow> put_frame (c_max_frame_size c) bs dst
      | Err e \<Rightarrow> (dst, Err e)
      | Panic \<Rightarrow> (dst, Panic))"

definition codec_encode_message ::
  "message_codec \<Rightarrow> ('v, 'd) message \<Rightarrow> bytes \<Rightarrow> bytes \<times> unit protocol_result" where
  "codec_encode_message c item dst = put_frame (c_max_frame_size c) (m_raw_bytes item) dst"

definition encoder_encode_raw ::
  "'v deps \<Rightarrow> message_encoder \<Rightarrow> 'v raw_message \<Rightarrow> bytes \<Rightarrow> bytes \<times> unit protocol_result" where
  "encoder_encode_raw d c item dst =
     (case to_bytes d item of
        Ok bs \<Rightarrow> put_frame (e_max_frame_size c) bs dst
      | Err e \<Rightarrow> (dst, Err e)
      | Panic \<Rightarrow> (dst, Panic))"

definition encoder_encode_message ::
  "message_encoder \<Rightarrow> ('v, 'd) message \<Rightarrow> bytes \<Rightarrow> bytes \<times> unit protocol_result" where
  "encoder_encode_message c item dst = put_frame (e_max_frame_size c) (m_raw_bytes item) dst"

section \<open>The reader of a framed stream\<close>

text \<open>
  What a reader does with a decoder, as documented for \<open>FramedRead\<close>: append what arrives
  to the read buffer, and decode until the decoder asks for more. The loop is the
  caller's, so nothing makes it end for an arbitrary decoder: \<open>None\<close> is a reader that
  never comes back.
\<close>

type_synonym ('s, 'm) decode_fun = "'s \<Rightarrow> bytes \<Rightarrow> ('s \<times> bytes) \<times> 'm option protocol_result"

partial_function (option) drain ::
  "('s, 'm) decode_fun \<Rightarrow> 's \<Rightarrow> bytes \<Rightarrow> 'm list \<Rightarrow> (('s \<times> bytes) \<times> 'm list protocol_result) option"
where
  "drain dec s src ms =
     (case dec s src of
        (q, Ok (Some m)) \<Rightarrow> drain dec (fst q) (snd q) (ms @ [m])
      | (q, Ok None) \<Rightarrow> Some (q, Ok ms)
      | (q, Err e) \<Rightarrow> Some (q, Err e)
      | (q, Panic) \<Rightarrow> Some (q, Panic))"

fun feed ::
  "('s, 'm) decode_fun \<Rightarrow> 's \<Rightarrow> bytes \<Rightarrow> bytes list \<Rightarrow> 'm list \<Rightarrow>
   (('s \<times> bytes) \<times> 'm list protocol_result) option" where
  "feed dec s src [] ms = Some ((s, src), Ok ms)"
| "feed dec s src (chunk # chunks) ms =
     (case drain dec s (src @ chunk) ms of
        Some (q, Ok ms') \<Rightarrow> feed dec (fst q) (snd q) chunks ms'
      | other \<Rightarrow> other)"

text \<open>
  The interface: a decoder whose state is the bytes it holds back. It yields a frame as
  soon as the frame is complete and waits on a part of one; within its capacity it never
  refuses. \<open>good\<close> says which frames it takes.
\<close>

locale stream_decoder =
  fixes dec :: "('s, 'm) decode_fun"
    and state :: "bytes \<Rightarrow> 's"
    and good :: "'f \<Rightarrow> bool"
    and wire :: "'f \<Rightarrow> bytes"
    and msg :: "'f \<Rightarrow> 'm"
    and capacity :: nat
  assumes yields: "good f \<Longrightarrow> held @ src = wire f @ rest \<Longrightarrow> length (held @ src) \<le> capacity \<Longrightarrow>
      dec (state held) src = ((state rest, []), Ok (Some (msg f)))"
    and waits: "good f \<Longrightarrow> wire f = held @ src @ missing \<Longrightarrow> missing \<noteq> [] \<Longrightarrow>
      dec (state held) src = ((state (held @ src), []), Ok None)"
begin

text \<open>One read: the complete frames of what is held and what arrived come out.\<close>

lemma drain_frames:
  assumes "\<forall>f \<in> set fs. good f" and "good g"
    and "held @ src = concat (map wire fs) @ part" and "wire g = part @ missing" and "missing \<noteq> []"
    and "length (held @ src) \<le> capacity"
  shows "drain dec (state held) src ms = Some ((state part, []), Ok (ms @ map msg fs))"
  using assms(1,3,6)
proof (induction fs arbitrary: held src ms)
  case Nil
  then have "wire g = held @ src @ missing"
    using assms(4) by simp
  from waits [OF assms(2) this assms(5)] Nil show ?case
    by (simp add: drain.simps [of dec "state held"])
next
  case (Cons f fs)
  let ?rest = "concat (map wire fs) @ part"
  have "held @ src = wire f @ ?rest" and "good f"
    using Cons.prems by simp_all
  from yields [OF this(2,1) Cons.prems(3)]
  have "drain dec (state held) src ms = drain dec (state ?rest) [] (ms @ [msg f])"
    by (simp add: drain.simps [of dec "state held"])
  also have "\<dots> = Some ((state part, []), Ok ((ms @ [msg f]) @ map msg fs))"
    using Cons.prems by (intro Cons.IH) (simp_all flip: append_assoc)
  finally show ?case by simp
qed

text \<open>Where a prefix of the stream cuts the sequence of frames.\<close>

lemma cut_frames:
  assumes "bs @ later = concat (map wire fs) @ part" and "wire g = part @ missing" and "missing \<noteq> []"
  obtains fa fb f cut gap where "fs = fa @ fb" and "bs = concat (map wire fa) @ cut"
    and "f = hd (fb @ [g])" and "wire f = cut @ gap" and "gap \<noteq> []"
    and "cut @ later = concat (map wire fb) @ part"
  using assms(1)
proof (induction fs arbitrary: bs thesis)
  case Nil
  then show ?case
    using assms(2,3) Nil.prems(1) [of "[]" "[]" bs g "later @ missing"] by simp
next
  case (Cons f fs)
  show ?case
  proof (cases "length bs < length (wire f)")
    case True
    then have "bs = take (length bs) (wire f)"
      using Cons.prems(2) by (simp add: append_eq_append_conv_if split: if_splits)
    then have "wire f = bs @ drop (length bs) (wire f)"
      by (metis append_take_drop_id)
    then show ?thesis
      using True Cons.prems by (intro Cons.prems(1) [of "[]" "f # fs" bs f "drop (length bs) (wire f)"]) auto
  next
    case False
    have "take (length (wire f)) (bs @ later) = wire f"
      using Cons.prems(2) by simp
    then have bs: "bs = wire f @ drop (length (wire f)) bs"
      using False by (metis append_take_drop_id diff_is_0_eq' not_le_imp_less take_append take_eq_Nil append_Nil2)
    then have rest: "drop (length (wire f)) bs @ later = concat (map wire fs) @ part"
      using Cons.prems(2) by (metis append_assoc concat.simps(2) list.simps(9) same_append_eq)
    from Cons.IH [OF _ rest] obtain fa fb h cut gap where "fs = fa @ fb"
      "drop (length (wire f)) bs = concat (map wire fa) @ cut" "h = hd (fb @ [g])" "wire h = cut @ gap" "gap \<noteq> []"
      "cut @ later = concat (map wire fb) @ part"
      by metis
    then show ?thesis
      using bs by (intro Cons.prems(1) [of "f # fa" fb cut h gap]) auto
  qed
qed

text \<open>
  Reassembly: however the stream is cut into reads, the frames come out in order and
  their completed count does not depend on the cut.
\<close>

lemma feed_frames:
  assumes "\<forall>f \<in> set (fs @ [g]). good f" and "wire g = part @ missing" and "missing \<noteq> []"
    and "held @ concat chunks = concat (map wire fs) @ part"
    and "wire (hd (fs @ [g])) = held @ gap" and "gap \<noteq> []"
    and "\<forall>f \<in> set (fs @ [g]). \<forall>c \<in> set chunks. length (wire f) + length c \<le> capacity"
  shows "feed dec (state held) [] chunks ms = Some ((state part, []), Ok (ms @ map msg fs))"
  using assms(1,4-7)
proof (induction chunks arbitrary: held fs gap ms)
  case Nil
  have "fs = []"
  proof (cases fs)
    case (Cons f fs')
    then have "length held < length (wire f)"
      using Nil.prems(3,4) by simp
    moreover have "held = wire f @ concat (map wire fs') @ part"
      using Nil.prems(2) Cons by simp
    ultimately show ?thesis by simp
  qed
  with Nil.prems show ?case by simp
next
  case (Cons c chunks)
  have "(held @ c) @ concat chunks = concat (map wire fs) @ part"
    using Cons.prems(2) by simp
  from cut_frames [OF this assms(2,3)] obtain fa fb f cut gap' where cut: "fs = fa @ fb"
    "held @ c = concat (map wire fa) @ cut" "f = hd (fb @ [g])" "wire f = cut @ gap'" "gap' \<noteq> []"
    "cut @ concat chunks = concat (map wire fb) @ part"
    by metis
  have "f \<in> set (fs @ [g])"
    using cut(1,3) by (cases fb) auto
  then have "good f"
    using Cons.prems(1) by blast
  have "hd (fs @ [g]) \<in> set (fs @ [g])"
    by (rule hd_in_set) simp
  then have "length (held @ c) \<le> capacity"
    using Cons.prems(3,5) by fastforce
  moreover have "\<forall>f \<in> set fa. good f"
    using Cons.prems(1) cut(1) by simp
  ultimately have "drain dec (state held) c ms = Some ((state cut, []), Ok (ms @ map msg fa))"
    using cut \<open>good f\<close> by (intro drain_frames [of fa f held c cut gap' ms])
  moreover have "feed dec (state cut) [] chunks (ms @ map msg fa) =
      Some ((state part, []), Ok ((ms @ map msg fa) @ map msg fb))"
    using cut Cons.prems by (intro Cons.IH [of fb cut gap']) auto
  ultimately show ?case
    using cut(1) by simp
qed

end

section \<open>The writer of a framed stream\<close>

text \<open>
  The interface of an encoder: an item becomes its wire bytes at the end of the buffer, or
  the buffer stays as it was.
\<close>

locale frame_encoder =
  fixes enc :: "'i \<Rightarrow> bytes \<Rightarrow> bytes \<times> unit protocol_result"
    and item_bytes :: "'i \<Rightarrow> bytes protocol_result"
    and limit :: usize
  assumes accepts: "item_bytes i = Ok bs \<Longrightarrow> usize_len bs \<le> limit \<Longrightarrow> enc i dst = (dst @ bs, Ok ())"
    and refuses: "enc i dst = (dst', r) \<Longrightarrow> r \<noteq> Ok () \<Longrightarrow> dst' = dst"
    and takes: "enc i dst = (dst', Ok ()) \<Longrightarrow> \<exists>bs. item_bytes i = Ok bs \<and> usize_len bs \<le> limit"
begin

lemma accepted_iff:
  "enc i dst = (dst', Ok ()) \<longleftrightarrow>
     (\<exists>bs. item_bytes i = Ok bs \<and> usize_len bs \<le> limit \<and> dst' = dst @ bs)"
  using accepts takes by fastforce

end

text \<open>Items written one after another, as a sink does; the first error stops the writer.\<close>

fun encode_all ::
  "('i \<Rightarrow> bytes \<Rightarrow> bytes \<times> unit protocol_result) \<Rightarrow> 'i list \<Rightarrow> bytes \<Rightarrow> bytes \<times> unit protocol_result"
where
  "encode_all enc [] dst = (dst, Ok ())"
| "encode_all enc (i # is) dst =
     (case enc i dst of
        (dst', Ok _) \<Rightarrow> encode_all enc is dst'
      | (dst', Err e) \<Rightarrow> (dst', Err e)
      | (dst', Panic) \<Rightarrow> (dst', Panic))"

context frame_encoder
begin

lemma encode_all_wire:
  "encode_all enc is dst = (dst', Ok ()) \<longleftrightarrow>
     (\<exists>bss. list_all2 (\<lambda>i bs. item_bytes i = Ok bs \<and> usize_len bs \<le> limit) is bss \<and> dst' = dst @ concat bss)"
proof (induction "is" arbitrary: dst)
  case Nil
  then show ?case by auto
next
  case (Cons i "is")
  show ?case
  proof (cases "enc i dst")
    case (Pair d r)
    show ?thesis
    proof (cases "r = Ok ()")
      case True
      with Pair obtain bs where bs: "item_bytes i = Ok bs" "usize_len bs \<le> limit" "d = dst @ bs"
        using accepted_iff by blast
      then show ?thesis
        using Pair True Cons.IH [of d] by (auto simp: list_all2_Cons1)
    next
      case False
      then have "\<nexists>bs. item_bytes i = Ok bs \<and> usize_len bs \<le> limit"
        using Pair accepts by force
      then show ?thesis
        using Pair False by (auto simp: list_all2_Cons1 split: res.splits)
    qed
  qed
qed

end

section \<open>The codecs provide both interfaces\<close>

definition codec_state :: "limits \<Rightarrow> bytes \<Rightarrow> message_codec" where
  "codec_state l held =
     (codec_with_limits (fst l) (snd l))
       \<lparr>c_parser := (parser_with_limits (fst l) (snd l))\<lparr>p_buffer := held\<rparr>\<rparr>"

definition decoder_state :: "limits \<Rightarrow> bytes \<Rightarrow> message_decoder" where
  "decoder_state l held =
     (decoder_with_limits (fst l) (snd l))
       \<lparr>d_parser := (parser_with_limits (fst l) (snd l))\<lparr>p_buffer := held\<rparr>\<rparr>"

definition parser_state :: "limits \<Rightarrow> bytes \<Rightarrow> message_parser" where
  "parser_state l held = (parser_with_limits (fst l) (snd l))\<lparr>p_buffer := held\<rparr>"

lemma parser_state_simps [simp]:
  "p_buffer (parser_state l held) = held" "p_max_message_size (parser_state l held) = fst l"
  "p_limits (parser_state l held) = l" "(parser_state l held)\<lparr>p_buffer := bs\<rparr> = parser_state l bs"
  by (simp_all add: parser_state_def p_limits_def parser_with_limits_def)

definition takes_frame :: "'v deps \<Rightarrow> limits \<Rightarrow> frame \<Rightarrow> bool" where
  "takes_frame d l f \<longleftrightarrow> nom_laws d \<and> limits_sane l \<and> frame_ok l f"

lemma parser_decode_push:
  assumes "limits_sane l" and "length (held @ src) \<le> unat (fst l)"
  shows "parser_decode d (fst l) (parser_state l held) src =
    (let (p, r) = try_parse d (parser_state l (held @ src)) in ((p, []), r))"
proof -
  have "unat (usize_len src) = length src"
    using assms by (intro unat_usize_len) (simp add: limits_sane_def)
  then have "\<not> usize_len src > fst l"
    using assms by (simp add: word_less_nat_alt)
  then show ?thesis
    using push_data_Ok [of "parser_state l held" src] assms(2)
    by (simp add: parser_decode_def split_beta)
qed

lemma parser_decode_yields:
  assumes "takes_frame d l f" and "held @ src = frame_bytes f @ rest"
    and "length (held @ src) \<le> unat (fst l)"
  shows "parser_decode d (fst l) (parser_state l held) src =
    ((parser_state l rest, []), Ok (Some (frame_message f :: ('v, 'd) message)))"
proof -
  have "rust_sized (held @ src)"
    using assms(1,3) by (simp add: takes_frame_def limits_sane_def rust_sized_def)
  then show ?thesis
    using assms try_parse_frame [of d "parser_state l (held @ src)" f rest, where 'b = 'd]
    by (simp add: parser_decode_push takes_frame_def)
qed

lemma parser_decode_waits:
  assumes "takes_frame d l f" and "frame_bytes f = held @ src @ missing" and "missing \<noteq> []"
  shows "parser_decode d (fst l) (parser_state l held) src =
    ((parser_state l (held @ src), []), Ok (None :: ('v, 'd) message option))"
proof -
  have "length (frame_bytes f) \<le> unat (fst l)"
    using assms(1) by (simp add: takes_frame_def frame_ok_def)
  then have len: "length (held @ src) \<le> unat (fst l)"
    using assms(2) by simp
  then have "rust_sized (held @ src)"
    using assms(1) by (simp add: takes_frame_def limits_sane_def rust_sized_def)
  then show ?thesis
    using assms len try_parse_prefix [of d "parser_state l (held @ src)" f missing, where 'b = 'd]
    by (simp add: parser_decode_push takes_frame_def)
qed

lemma codec_parts_decode:
  "codec_decode d \<lparr>c_parser = p, c_max_frame_size = n\<rparr> src =
     (case parser_decode d n p src of
        ((p', src'), r) \<Rightarrow> ((\<lparr>c_parser = p', c_max_frame_size = n\<rparr>, src'), r))"
  by (simp add: codec_decode_def split_beta)

lemma decoder_parts_decode:
  "decoder_decode d \<lparr>d_parser = p, d_max_frame_size = n\<rparr> src =
     (case parser_decode d n p src of
        ((p', src'), r) \<Rightarrow> ((\<lparr>d_parser = p', d_max_frame_size = n\<rparr>, src'), r))"
  by (simp add: decoder_decode_def split_beta)

lemma codec_state_parser: "codec_state l held = \<lparr>c_parser = parser_state l held, c_max_frame_size = fst l\<rparr>"
  by (simp add: codec_state_def codec_with_limits_def parser_state_def)

lemma decoder_state_parser:
  "decoder_state l held = \<lparr>d_parser = parser_state l held, d_max_frame_size = fst l\<rparr>"
  by (simp add: decoder_state_def decoder_with_limits_def parser_state_def)

interpretation codec_dec: stream_decoder "codec_decode d" "codec_state l" "takes_frame d l" frame_bytes
    "frame_message :: frame \<Rightarrow> ('v, 'd) message" "unat (fst l)"
  for d :: "'v deps" and l :: limits
  by unfold_locales
    (simp_all add: codec_parts_decode codec_state_parser parser_decode_yields parser_decode_waits)

interpretation decoder_dec: stream_decoder "decoder_decode d" "decoder_state l" "takes_frame d l" frame_bytes
    "frame_message :: frame \<Rightarrow> ('v, 'd) message" "unat (fst l)"
  for d :: "'v deps" and l :: limits
  by unfold_locales
    (simp_all add: decoder_parts_decode decoder_state_parser parser_decode_yields parser_decode_waits)

interpretation codec_raw: frame_encoder "codec_encode_raw d c" "to_bytes d" "c_max_frame_size c"
  for d :: "'v deps" and c :: message_codec
  by unfold_locales
    (auto simp: codec_encode_raw_def put_frame_def split: res.splits if_splits)

interpretation codec_msg: frame_encoder "codec_encode_message c"
    "\<lambda>m :: ('v, 'd) message. Ok (m_raw_bytes m)" "c_max_frame_size c"
  for c :: message_codec
  by unfold_locales (auto simp: codec_encode_message_def put_frame_def split: if_splits)

interpretation encoder_raw: frame_encoder "encoder_encode_raw d c" "to_bytes d" "e_max_frame_size c"
  for d :: "'v deps" and c :: message_encoder
  by unfold_locales
    (auto simp: encoder_encode_raw_def put_frame_def split: res.splits if_splits)

interpretation encoder_msg: frame_encoder "encoder_encode_message c"
    "\<lambda>m :: ('v, 'd) message. Ok (m_raw_bytes m)" "e_max_frame_size c"
  for c :: message_encoder
  by unfold_locales (auto simp: encoder_encode_message_def put_frame_def split: if_splits)

section \<open>Draining ends\<close>

text \<open>
  A decoder that takes at least \<open>least\<close> bytes for every message, out of what it holds and
  what it is given, can be drained: the reader comes back, with at most as many messages
  as the bytes allow.
\<close>

locale consuming_decoder =
  fixes dec :: "('s, 'm) decode_fun"
    and held :: "'s \<Rightarrow> nat"
    and least :: nat
  assumes consumes: "dec s src = (q, Ok (Some m)) \<Longrightarrow>
      held (fst q) + length (snd q) + least \<le> held s + length src"
    and keeps: "dec s src = (q, Ok None) \<Longrightarrow> held (fst q) + length (snd q) = held s + length src"
    and least_pos: "0 < least"
begin

lemma drain_returns:
  "\<exists>q r. drain dec s src ms = Some (q, r) \<and>
     (\<forall>ms'. r = Ok ms' \<longrightarrow> (\<exists>new. ms' = ms @ new \<and>
        held (fst q) + length (snd q) + least * length new \<le> held s + length src))"
proof (induction "held s + length src" arbitrary: s src ms rule: less_induct)
  case less
  show ?case
  proof (cases "dec s src")
    case (Pair q r)
    consider (message) m where "r = Ok (Some m)" | (wait) "r = Ok None" | (stop) "\<forall>x. r \<noteq> Ok x"
    proof (cases r)
      case (Ok x)
      then show thesis using that(1,2) by (cases x) blast+
    qed (use that(3) in blast)+
    then show ?thesis
    proof cases
      case message
      with Pair have step: "held (fst q) + length (snd q) + least \<le> held s + length src"
        using consumes by simp
      then have "held (fst q) + length (snd q) < held s + length src"
        using least_pos by linarith
      from less [OF this, of "ms @ [m]"] obtain q' r' where
        run: "drain dec (fst q) (snd q) (ms @ [m]) = Some (q', r')"
        and bound: "\<forall>ms'. r' = Ok ms' \<longrightarrow> (\<exists>new. ms' = (ms @ [m]) @ new \<and>
            held (fst q') + length (snd q') + least * length new \<le> held (fst q) + length (snd q))"
        by blast
      have "\<exists>new. ms' = ms @ new \<and>
          held (fst q') + length (snd q') + least * length new \<le> held s + length src"
        if r': "r' = Ok ms'" for ms'
      proof -
        obtain new where "ms' = (ms @ [m]) @ new"
          "held (fst q') + length (snd q') + least * length new \<le> held (fst q) + length (snd q)"
          using bound r' by blast
        with step show ?thesis
          by (intro exI [of _ "m # new"]) simp
      qed
      with run Pair message show ?thesis
        by (simp add: drain.simps [of dec s])
    next
      case wait
      with Pair keeps [of s src q] show ?thesis
        by (simp add: drain.simps [of dec s])
    next
      case stop
      with Pair show ?thesis
        by (cases r) (auto simp: drain.simps [of dec s])
    qed
  qed
qed

lemma feed_returns:
  "\<exists>q r. feed dec s src chunks ms = Some (q, r) \<and>
     (\<forall>ms'. r = Ok ms' \<longrightarrow> (\<exists>new. ms' = ms @ new \<and>
        held (fst q) + length (snd q) + least * length new \<le> held s + length src + length (concat chunks)))"
proof (induction chunks arbitrary: s src ms)
  case (Cons c chunks)
  obtain q r where run: "drain dec s (src @ c) ms = Some (q, r)"
    and bound: "\<And>ms'. r = Ok ms' \<Longrightarrow> \<exists>new. ms' = ms @ new \<and>
        held (fst q) + length (snd q) + least * length new \<le> held s + length (src @ c)"
    using drain_returns [of s "src @ c" ms] by blast
  show ?case
  proof (cases r)
    case (Ok ms1)
    obtain new1 where new1: "ms1 = ms @ new1"
      "held (fst q) + length (snd q) + least * length new1 \<le> held s + length (src @ c)"
      using bound [OF Ok] by blast
    obtain q2 r2 where run2: "feed dec (fst q) (snd q) chunks ms1 = Some (q2, r2)"
      and bound2: "\<And>ms'. r2 = Ok ms' \<Longrightarrow> \<exists>new. ms' = ms1 @ new \<and>
        held (fst q2) + length (snd q2) + least * length new \<le>
          held (fst q) + length (snd q) + length (concat chunks)"
      using Cons.IH [of "fst q" "snd q" ms1] by blast
    have "\<exists>new. ms' = ms @ new \<and> held (fst q2) + length (snd q2) + least * length new \<le>
        held s + length src + length (concat (c # chunks))" if r2: "r2 = Ok ms'" for ms'
    proof -
      obtain new2 where "ms' = ms1 @ new2" "held (fst q2) + length (snd q2) + least * length new2 \<le>
          held (fst q) + length (snd q) + length (concat chunks)"
        using bound2 [OF r2] by blast
      with new1 show ?thesis
        by (intro exI [of _ "new1 @ new2"]) (simp add: add_mult_distrib2)
    qed
    with run Ok run2 show ?thesis by simp
  qed (use run in auto)
qed simp

end

text \<open>Both decoders take a whole frame for every message, and nothing when they wait.\<close>

lemma parser_decode_takes:
  fixes m :: "('v, 'd) message"
  assumes "parser_decode d n p src = (q, Ok (Some m))"
  shows "length (p_buffer (fst q)) + length (snd q) + 34 \<le> length (p_buffer p) + length src"
  using assms
  by (auto simp: parser_decode_def push_data_def Let_def split: if_splits prod.splits res.splits
      dest!: try_parse_consumes)

lemma parser_decode_keeps:
  assumes "parser_decode d n p src = (q, Ok (None :: ('v, 'd) message option))"
  shows "length (p_buffer (fst q)) + length (snd q) = length (p_buffer p) + length src"
  using assms
  by (auto simp: parser_decode_def push_data_def Let_def split: if_splits prod.splits res.splits
      dest!: try_parse_NoneD)

interpretation codec_use: consuming_decoder
  "codec_decode d :: (message_codec, ('v, 'd) message) decode_fun" "\<lambda>c. length (p_buffer (c_parser c))" 34
  for d :: "'v deps"
  by unfold_locales
    (auto simp: codec_decode_def split: prod.splits dest: parser_decode_takes parser_decode_keeps)

interpretation decoder_use: consuming_decoder
  "decoder_decode d :: (message_decoder, ('v, 'd) message) decode_fun" "\<lambda>c. length (p_buffer (d_parser c))" 34
  for d :: "'v deps"
  by unfold_locales
    (auto simp: decoder_decode_def split: prod.splits dest: parser_decode_takes parser_decode_keeps)

section \<open>The utilities over \<open>Framed\<close>\<close>

text \<open>
  \<open>tokio_util\<close>'s \<open>Framed\<close> is a parameter: its constructor, one \<open>send().await\<close> and one
  \<open>next().await\<close> that complete.
\<close>

record ('io, 'fr, 'v, 'd) framed_lib =
  framed_new :: "'io \<Rightarrow> message_codec \<Rightarrow> 'fr"
  sink_send :: "'fr \<Rightarrow> 'v raw_message \<Rightarrow> 'fr \<times> (protocol_error + unit)"
  stream_next :: "'fr \<Rightarrow> 'fr \<times> (protocol_error + ('v, 'd) message) option"

definition utils_framed :: "('io, 'fr, 'v, 'd) framed_lib \<Rightarrow> 'io \<Rightarrow> 'fr" where
  "utils_framed lib io = framed_new lib io codec_new"

definition utils_framed_with_limits ::
  "('io, 'fr, 'v, 'd) framed_lib \<Rightarrow> 'io \<Rightarrow> usize \<Rightarrow> usize \<Rightarrow> 'fr" where
  "utils_framed_with_limits lib io max_message_size max_header_size =
     framed_new lib io (codec_with_limits max_message_size max_header_size)"

definition utils_send_message ::
  "('io, 'fr, 'v, 'd) framed_lib \<Rightarrow> 'fr \<Rightarrow> 'v raw_message \<Rightarrow> 'fr \<times> unit protocol_result" where
  "utils_send_message lib sink message =
     (case sink_send lib sink message of
        (sink', Inl e) \<Rightarrow> (sink', Err (ProtocolIo (protocol_error_text e)))
      | (sink', Inr _) \<Rightarrow> (sink', Ok ()))"

definition utils_receive_message ::
  "('io, 'fr, 'v, 'd) framed_lib \<Rightarrow> 'fr \<Rightarrow> 'fr \<times> ('v, 'd) message option protocol_result" where
  "utils_receive_message lib stream =
     (case stream_next lib stream of
        (stream', Some (Inr message)) \<Rightarrow> (stream', Ok (Some message))
      | (stream', Some (Inl e)) \<Rightarrow> (stream', Err e)
      | (stream', None) \<Rightarrow> (stream', Ok None))"

section \<open>Properties\<close>

lemma codec_state_Nil [simp]: "codec_state l [] = codec_with_limits (fst l) (snd l)"
  by (simp add: codec_state_def codec_with_limits_def parser_with_limits_def)

lemma codec_new_state: "codec_new = codec_state default_limits []"
  by (simp add: codec_new_def codec_with_limits_def parser_new_def default_limits_def)

lemma decoder_new_state: "decoder_new = decoder_state default_limits []"
  by (simp add: decoder_new_def decoder_state_def decoder_with_limits_def parser_new_def
      parser_with_limits_def default_limits_def)

lemma hd_frame_nonempty:
  assumes "\<forall>f \<in> set (fs @ [g]). frame_ok l f"
  shows "frame_bytes (hd (fs @ [g])) \<noteq> []"
proof -
  have "hd (fs @ [g]) \<in> set (fs @ [g])"
    by (rule hd_in_set) simp
  with assms show ?thesis
    using frame_nonempty by blast
qed

text \<open>
  C20. Reassembly by the codec: however a stream of acceptable frames, with a part of one
  more at its end, is cut into reads, reading it through \<open>MessageCodec\<close> comes back with
  exactly the messages of the complete frames in order, and holds the part. The reads
  have to leave room for the longest frame within the limit.
\<close>

theorem codec_reassembles:
  fixes d :: "'v deps"
  assumes "nom_laws d" and "limits_sane l" and "\<forall>f \<in> set (fs @ [g]). frame_ok l f"
    and "concat chunks = concat (map frame_bytes fs) @ part"
    and "frame_bytes g = part @ missing" and "missing \<noteq> []"
    and "\<forall>f \<in> set (fs @ [g]). \<forall>c \<in> set chunks. length (frame_bytes f) + length c \<le> unat (fst l)"
  shows "feed (codec_decode d) (codec_with_limits (fst l) (snd l)) [] chunks [] =
    Some ((codec_state l part, []), Ok (map frame_message fs :: ('v, 'd) message list))"
proof -
  have good: "\<forall>f \<in> set (fs @ [g]). takes_frame d l f"
    using assms(1-3) by (simp add: takes_frame_def)
  show ?thesis
    using hd_frame_nonempty [OF assms(3)] codec_dec.feed_frames [OF good assms(5,6), of "[]" chunks _ "[]"] assms(4,7) by simp
qed

theorem codec_reassembles_witness:
  "feed (codec_decode demo_deps) (codec_with_limits 80 10) []
     [take 20 (frame_bytes demo_frame), drop 20 (frame_bytes demo_frame) @ take 10 (frame_bytes demo_frame)] [] =
   Some ((codec_state (80, 10) (take 10 (frame_bytes demo_frame)), []),
     Ok [frame_message demo_frame :: (nat, nat) message])"
proof -
  have "bh_header_length (fst demo_frame) = 1" and "bh_payload_length (fst demo_frame) = 1"
    and "wf_base_header (fst demo_frame)" and "length (snd demo_frame) = 2"
    by (simp_all add: demo_frame_def wire_header_def base_header_new_def wf_base_header_def)
  then have "frame_ok (80, 10) demo_frame"
    by (simp add: frame_ok_def word_le_nat_alt)
  then show ?thesis
    using codec_reassembles [OF nom_laws_demo, of "(80, 10)" "[demo_frame]" demo_frame
        "[take 20 (frame_bytes demo_frame), drop 20 (frame_bytes demo_frame) @ take 10 (frame_bytes demo_frame)]"
        "take 10 (frame_bytes demo_frame)" "drop 10 (frame_bytes demo_frame)"]
    by (simp add: limits_sane_def flip: append_assoc)
qed

text \<open>The frame a raw message becomes, and the smallest frame as a bound for the rest.\<close>

definition sent_frame :: "'v deps \<Rightarrow> 'v raw_message \<Rightarrow> frame" where
  "sent_frame d rm =
     (case header_bytes_of d (rm_header rm) of
        Ok hb \<Rightarrow> (wire_header rm hb, hb @ rm_payload_data rm)
      | _ \<Rightarrow> (wire_header rm [], rm_payload_data rm))"

lemma sent_frame:
  fixes d :: "'v deps"
  assumes "nom_laws d" and "encodable d rm" and "to_bytes d rm = Ok b"
  shows "b = frame_bytes (sent_frame d rm)" and "frame_ok default_limits (sent_frame d rm)"
    and "into_message d rm = Ok (frame_message (sent_frame d rm) :: ('v, 'd) message)"
proof -
  obtain hb where hb: "header_bytes_of d (rm_header rm) = Ok hb"
    "frame_ok default_limits (wire_header rm hb, hb @ rm_payload_data rm)"
    "b = frame_bytes (wire_header rm hb, hb @ rm_payload_data rm)"
    by (rule to_bytes_frame [OF assms(2,3)])
  then show b: "b = frame_bytes (sent_frame d rm)" and ok: "frame_ok default_limits (sent_frame d rm)"
    by (simp_all add: sent_frame_def)
  from ok have "rust_sized (frame_bytes (sent_frame d rm))"
    by (simp add: frame_ok_def default_limits_def DEFAULT_MAX_MESSAGE_SIZE_def rust_sized_def)
  from frame_from_bytes [OF assms(1) ok this]
  show "into_message d rm = Ok (frame_message (sent_frame d rm) :: ('v, 'd) message)"
    using assms(3) b by (simp add: into_message_def)
qed

definition empty_frame :: frame where
  "empty_frame = (base_header_new Publish 0 0 0, [])"

lemma empty_frame [simp]:
  "frame_ok default_limits empty_frame" "length (frame_bytes empty_frame) = 34"
  by (simp_all add: empty_frame_def frame_ok_def frame_bytes_def base_header_new_def
      wf_base_header_def default_limits_def DEFAULT_MAX_MESSAGE_SIZE_def)

lemma frame_min_length: "frame_ok l f \<Longrightarrow> 34 \<le> length (frame_bytes f)"
  by (simp add: frame_length announced_size_def)

lemma frames_written:
  assumes "nom_laws d" and "\<forall>rm \<in> set rms. encodable d rm"
    and "encode_all (codec_encode_raw d c) rms [] = (bs, Ok ())"
  shows "\<forall>rm \<in> set rms. \<exists>b. to_bytes d rm = Ok b" and "bs = concat (map frame_bytes (map (sent_frame d) rms))"
proof -
  obtain bss where bss: "list_all2 (\<lambda>rm b. to_bytes d rm = Ok b \<and> usize_len b \<le> c_max_frame_size c) rms bss"
    and bs: "bs = [] @ concat bss"
    using codec_raw.encode_all_wire [THEN iffD1, OF assms(3)] by blast
  then show "\<forall>rm \<in> set rms. \<exists>b. to_bytes d rm = Ok b"
    by (auto simp: list_all2_conv_all_nth in_set_conv_nth)
  have "bss = map frame_bytes (map (sent_frame d) rms)"
    using bss assms(1,2) sent_frame(1) by (fastforce simp: list_all2_conv_all_nth intro!: nth_equalityI)
  with bs show "bs = concat (map frame_bytes (map (sent_frame d) rms))"
    by simp
qed

text \<open>
  Sending and receiving: what a codec writes for a sequence of raw messages, cut into
  any reads that leave room for a frame, is what a decoder at the other end yields: the
  same number of messages in the same order, each the \<open>into_message\<close> of the one sent,
  with nothing left over.
\<close>

lemma codec_delivers:
  fixes d :: "'v deps"
  assumes "nom_laws d" and "\<forall>rm \<in> set rms. encodable d rm"
    and "encode_all (codec_encode_raw d codec) rms [] = (bs, Ok ())"
    and "concat chunks = bs"
    and "\<forall>c \<in> set chunks. length c + 34 \<le> 2 ^ 30"
    and "\<forall>rm \<in> set rms. \<forall>b. to_bytes d rm = Ok b \<longrightarrow> (\<forall>c \<in> set chunks. length b + length c \<le> 2 ^ 30)"
  shows "\<exists>ms :: ('v, 'd) message list.
    feed (decoder_decode d) decoder [] chunks [] = Some ((decoder, []), Ok ms) \<and>
    list_all2 (\<lambda>rm m. into_message d rm = Ok m) rms ms"
proof -
  let ?fs = "map (sent_frame d) rms"
  note written = frames_written [OF assms(1-3)]
  have sent: "frame_ok default_limits (sent_frame d rm)"
      "to_bytes d rm = Ok (frame_bytes (sent_frame d rm))"
      "into_message d rm = Ok (frame_message (sent_frame d rm) :: ('v, 'd) message)"
    if rm: "rm \<in> set rms" for rm
  proof -
    obtain b where b: "to_bytes d rm = Ok b"
      using written(1) rm by blast
    have enc: "encodable d rm"
      using assms(2) rm by blast
    show "frame_ok default_limits (sent_frame d rm)"
      and "into_message d rm = Ok (frame_message (sent_frame d rm) :: ('v, 'd) message)"
      by (rule sent_frame [OF assms(1) enc b])+
    show "to_bytes d rm = Ok (frame_bytes (sent_frame d rm))"
      using b sent_frame(1) [OF assms(1) enc b] by simp
  qed
  have good: "\<forall>f \<in> set (?fs @ [empty_frame]). takes_frame d default_limits f"
    using sent(1) assms(1) by (auto simp: takes_frame_def)
  have room: "\<forall>f \<in> set (?fs @ [empty_frame]). \<forall>c \<in> set chunks.
      length (frame_bytes f) + length c \<le> unat (fst default_limits)"
    using assms(5,6) sent(2) by (auto simp: default_limits_def DEFAULT_MAX_MESSAGE_SIZE_def)
  have "frame_bytes (hd (?fs @ [empty_frame])) \<noteq> []"
    using good by (intro hd_frame_nonempty [of ?fs empty_frame default_limits]) (simp add: takes_frame_def)
  moreover have "frame_bytes empty_frame \<noteq> []"
    by (rule frame_nonempty [of default_limits]) simp
  ultimately have "feed (decoder_decode d) decoder [] chunks [] =
      Some ((decoder, []), Ok (map frame_message ?fs :: ('v, 'd) message list))"
    using decoder_dec.feed_frames [OF good, of "[]" "frame_bytes empty_frame" "[]" chunks _ "[]"]
      room written(2) assms(4) by (simp add: decoder_def decoder_new_state)
  moreover have "list_all2 (\<lambda>rm m. into_message d rm = Ok m) rms
      (map frame_message ?fs :: ('v, 'd) message list)"
    using sent(3) by (simp add: list_all2_conv_all_nth)
  ultimately show ?thesis by blast
qed

text \<open>
  C10. Reading always comes back: from every state of a codec or of a decoder, for every
  sequence of reads (well-formed or not), decoding until it asks for more ends with a result.
  A result without error has yielded at most one message per 34 bytes of what was held and
  read, the size of a base header, so a peer cannot make a reader loop or produce more
  messages than bytes sent.
\<close>

theorem reading_ends:
  fixes d :: "'v deps"
  shows "(\<exists>q r. feed (codec_decode d) c src chunks [] = Some (q, r :: ('v, 'd) message list protocol_result) \<and>
      (\<forall>ms. r = Ok ms \<longrightarrow>
         34 * length ms \<le> length (p_buffer (c_parser c)) + length src + length (concat chunks))) \<and>
    (\<exists>q r. feed (decoder_decode d) dc src chunks [] = Some (q, r :: ('v, 'd) message list protocol_result) \<and>
      (\<forall>ms. r = Ok ms \<longrightarrow>
         34 * length ms \<le> length (p_buffer (d_parser dc)) + length src + length (concat chunks)))"
  using codec_use.feed_returns [of d c src chunks "[] :: ('v, 'd) message list"]
    decoder_use.feed_returns [of d dc src chunks "[] :: ('v, 'd) message list"]
  by (intro conjI) fastforce+

theorem reading_ends_witness:
  "(\<exists>q r. feed (codec_decode demo_deps) codec [] [replicate 100 0] [] =
      Some (q, r :: (nat, nat) message list protocol_result) \<and> (\<forall>ms. r = Ok ms \<longrightarrow> length ms \<le> 2)) \<and>
   (\<exists>q r. feed (decoder_decode demo_deps) decoder [] [replicate 100 0] [] =
      Some (q, r :: (nat, nat) message list protocol_result) \<and> (\<forall>ms. r = Ok ms \<longrightarrow> length ms \<le> 2))"
proof -
  have "p_buffer (c_parser codec) = []" "p_buffer (d_parser decoder) = []"
    by (simp_all add: codec_def codec_new_def decoder_def decoder_new_def parser_new_def parser_with_limits_def)
  with reading_ends [of demo_deps codec "[]" "[replicate 100 0]" decoder, where 'd = nat] show ?thesis
    by fastforce
qed

text \<open>
  The size check looks at the bytes of a read, not at the messages in it: when what is
  held and what arrived exceed the limit together, the codec refuses the read with
  \<open>MessageTooLarge\<close> although every frame in it may be acceptable, and it changes nothing,
  so the next attempt on the same buffer fails in the same way.
\<close>

theorem coalesced_read_refused:
  fixes d :: "'v deps"
  assumes "limits_sane l" and "length held \<le> unat (fst l)" and "rust_sized src"
    and "unat (fst l) < length held + length src"
  shows "\<exists>n. codec_decode d (codec_state l held) src =
    ((codec_state l held, src), Err (MessageTooLarge n (fst l)) :: ('v, 'd) message option protocol_result) \<and>
    unat (fst l) < unat n"
proof (cases "usize_len src > fst l")
  case True
  then show ?thesis
    by (simp add: codec_parts_decode codec_state_parser parser_decode_def word_less_nat_alt)
next
  case False
  then have "src \<noteq> []" and "length held + length src < 2 ^ 64"
    using assms by (auto simp: limits_sane_def rust_sized_def)
  moreover from this have "unat (of_nat (length held + length src) :: u64) = length held + length src"
    by (intro unat_of_nat_u64)
  ultimately show ?thesis
    using False assms(4) push_data_Err [of "parser_state l held" src]
    by (simp add: codec_parts_decode codec_state_parser parser_decode_def)
qed

theorem coalesced_read_refused_witness:
  "frame_ok (70, 10) demo_frame \<and>
   (\<exists>n. codec_decode demo_deps (codec_state (70, 10) []) (frame_bytes demo_frame @ frame_bytes demo_frame) =
     ((codec_state (70, 10) [], frame_bytes demo_frame @ frame_bytes demo_frame),
      Err (MessageTooLarge n 70) :: (nat, nat) message option protocol_result) \<and> 70 < unat n)"
proof
  have "bh_header_length (fst demo_frame) = 1" and "bh_payload_length (fst demo_frame) = 1"
    and "wf_base_header (fst demo_frame)" and "length (snd demo_frame) = 2"
    by (simp_all add: demo_frame_def wire_header_def base_header_new_def wf_base_header_def)
  then show "frame_ok (70, 10) demo_frame"
    by (simp add: frame_ok_def word_le_nat_alt)
  show "\<exists>n. codec_decode demo_deps (codec_state (70, 10) []) (frame_bytes demo_frame @ frame_bytes demo_frame) =
     ((codec_state (70, 10) [], frame_bytes demo_frame @ frame_bytes demo_frame),
      Err (MessageTooLarge n 70) :: (nat, nat) message option protocol_result) \<and> 70 < unat n"
    using coalesced_read_refused [of "(70, 10)" "[]" "frame_bytes demo_frame @ frame_bytes demo_frame"
        demo_deps, where 'd = nat]
    by (simp add: limits_sane_def rust_sized_def)
qed

text \<open>
  Exact outcome of writing with an encoder: a sequence of raw messages is written
  completely exactly when each of them serialises to at most the frame limit, and then
  the buffer has grown by their wire bytes in order; an item that does not is refused and
  leaves the buffer as the items before it made it.
\<close>

theorem encoder_outcome:
  "(encode_all (encoder_encode_raw d c) rms dst = (dst', Ok ()) \<longleftrightarrow>
      (\<exists>bss. list_all2 (\<lambda>rm bs. to_bytes d rm = Ok bs \<and> usize_len bs \<le> e_max_frame_size c) rms bss \<and>
         dst' = dst @ concat bss)) \<and>
   (snd (encoder_encode_raw d c rm dst) = Ok () \<or> fst (encoder_encode_raw d c rm dst) = dst)"
  using encoder_raw.encode_all_wire [of d c rms dst dst']
    encoder_raw.refuses [of d c rm dst "fst (encoder_encode_raw d c rm dst)"
      "snd (encoder_encode_raw d c rm dst)"]
  by auto

end
