(* ===== verification/Message_Builder.thy ===== *)
theory Message_Builder
  imports Messages
begin

text \<open>
  \<open>builder.rs\<close>: the fluent builder, one function per method, the specialised builders
  composed of them as in the source, and what each of them can build. A method that reads
  the header of a received message fills that message's cache, so it returns the message
  too.
\<close>

section \<open>The model\<close>

record 'v message_builder =
  mb_message_type :: message_type
  mb_client_id :: u32
  mb_header :: "'v header"

definition mb_new :: "message_type \<Rightarrow> u32 \<Rightarrow> 'v message_builder" where
  "mb_new message_type client_id =
     \<lparr>mb_message_type = message_type, mb_client_id = client_id, mb_header = header_new\<rparr>"

definition mb_set_routing :: "'v message_builder \<Rightarrow> routing list \<Rightarrow> 'v message_builder" where
  "mb_set_routing b routing = b\<lparr>mb_header := (mb_header b)\<lparr>h_routing := Some routing\<rparr>\<rparr>"

definition mb_set_routing_target ::
  "'v message_builder \<Rightarrow> string \<Rightarrow> string \<Rightarrow> u32 option \<Rightarrow> 'v message_builder" where
  "mb_set_routing_target b client_name path client_id =
     b\<lparr>mb_header := (mb_header b)\<lparr>h_routing :=
         Some [\<lparr>r_client_name = client_name, r_path = path, r_client_id = client_id\<rparr>]\<rparr>\<rparr>"

definition mb_route_with_id ::
  "'v message_builder \<Rightarrow> string \<Rightarrow> string \<Rightarrow> u32 \<Rightarrow> 'v message_builder" where
  "mb_route_with_id b client_name path client_id =
     b\<lparr>mb_header := header_with_route_and_id (mb_header b) client_name path client_id\<rparr>"

definition mb_route_to ::
  "'v message_builder \<Rightarrow> string \<Rightarrow> string \<Rightarrow> u32 option \<Rightarrow> 'v message_builder" where
  "mb_route_to b client_name path client_id =
     b\<lparr>mb_header := (mb_header b)\<lparr>h_routing :=
         Some [\<lparr>r_client_name = client_name, r_path = path, r_client_id = client_id\<rparr>]\<rparr>\<rparr>"

definition mb_route_to_many ::
  "'v message_builder \<Rightarrow> (string \<times> string \<times> u32 option) list \<Rightarrow> 'v message_builder" where
  "mb_route_to_many b targets =
     b\<lparr>mb_header := (mb_header b)\<lparr>h_routing :=
         Some (map (\<lambda>(client_name, path, client_id).
           \<lparr>r_client_name = client_name, r_path = path, r_client_id = client_id\<rparr>) targets)\<rparr>\<rparr>"

text \<open>
  Reading the header of the message can panic, which ends \<open>forward_to\<close> and
  \<open>response_from_request\<close>; an error is passed over.
\<close>

definition mb_forward_to ::
  "'v deps \<Rightarrow> 'v message_builder \<Rightarrow> ('v, 'd) message \<Rightarrow> string \<Rightarrow> string \<Rightarrow> u32 option \<Rightarrow>
   ('v, 'd) message \<times> 'v message_builder protocol_result" where
  "mb_forward_to d b message client_name path client_id =
     (let (message, r) = m_header d message;
          routing = [\<lparr>r_client_name = client_name, r_path = path, r_client_id = client_id\<rparr>];
          set_routing = (\<lambda>b. b\<lparr>mb_header := (mb_header b)\<lparr>h_routing := Some routing\<rparr>\<rparr>)
      in (message,
          case r of
            Panic \<Rightarrow> Panic
          | Err _ \<Rightarrow> Ok (set_routing b)
          | Ok header \<Rightarrow>
              (case h_reqrep header of
                 Some reqrep \<Rightarrow> Ok (set_routing (b\<lparr>mb_header := (mb_header b)\<lparr>h_reqrep := Some reqrep\<rparr>\<rparr>))
               | None \<Rightarrow> Ok (set_routing b))))"

definition mb_reqrep :: "'v message_builder \<Rightarrow> request_response \<Rightarrow> 'v message_builder" where
  "mb_reqrep b reqrep = b\<lparr>mb_header := (mb_header b)\<lparr>h_reqrep := Some reqrep\<rparr>\<rparr>"

definition mb_as_request :: "'v message_builder \<Rightarrow> string \<Rightarrow> 'v message_builder" where
  "mb_as_request b request_id =
     b\<lparr>mb_header := (mb_header b)\<lparr>h_reqrep := Some \<lparr>rr_type = RequestType, rr_id = request_id\<rparr>\<rparr>\<rparr>"

definition mb_as_response :: "'v message_builder \<Rightarrow> string \<Rightarrow> 'v message_builder" where
  "mb_as_response b request_id =
     b\<lparr>mb_header := (mb_header b)\<lparr>h_reqrep := Some \<lparr>rr_type = Correlation, rr_id = request_id\<rparr>\<rparr>\<rparr>"

definition mb_with_topic :: "'v message_builder \<Rightarrow> string \<Rightarrow> 'v message_builder" where
  "mb_with_topic b topic = b\<lparr>mb_header := (mb_header b)\<lparr>h_topic := Some topic\<rparr>\<rparr>"

definition mb_status :: "'v message_builder \<Rightarrow> status_code \<Rightarrow> 'v message_builder" where
  "mb_status b status = b\<lparr>mb_header := (mb_header b)\<lparr>h_status := Some status\<rparr>\<rparr>"

definition mb_with_status :: "'v message_builder \<Rightarrow> status_code \<Rightarrow> 'v message_builder" where
  "mb_with_status b status = mb_status b status"

definition mb_auth :: "'v message_builder \<Rightarrow> auth \<Rightarrow> 'v message_builder" where
  "mb_auth b a = b\<lparr>mb_header := (mb_header b)\<lparr>h_auth := Some a\<rparr>\<rparr>"

definition mb_auth_token :: "'v message_builder \<Rightarrow> string \<Rightarrow> 'v message_builder" where
  "mb_auth_token b token = b\<lparr>mb_header := header_with_auth (mb_header b) (auth_token token)\<rparr>"

definition mb_auth_token_legacy :: "'v message_builder \<Rightarrow> string \<Rightarrow> 'v message_builder" where
  "mb_auth_token_legacy b token =
     b\<lparr>mb_header := (mb_header b)\<lparr>h_auth := Some (auth_token token)\<rparr>\<rparr>"

definition mb_auth_basic :: "'v message_builder \<Rightarrow> string \<Rightarrow> string \<Rightarrow> 'v message_builder" where
  "mb_auth_basic b username password =
     b\<lparr>mb_header := (mb_header b)\<lparr>h_auth := Some (auth_basic username password)\<rparr>\<rparr>"

definition mb_auth_api_key :: "'v message_builder \<Rightarrow> string \<Rightarrow> 'v message_builder" where
  "mb_auth_api_key b api_key =
     b\<lparr>mb_header := (mb_header b)\<lparr>h_auth := Some (auth_api_key api_key)\<rparr>\<rparr>"

definition mb_with_client_name :: "'v message_builder \<Rightarrow> string \<Rightarrow> 'v message_builder" where
  "mb_with_client_name b client_name =
     b\<lparr>mb_header := (mb_header b)\<lparr>h_client_name := Some client_name\<rparr>\<rparr>"

text \<open>\<open>payload\<close> is the outcome of serialising the payload.\<close>

definition build_with_payload ::
  "'v message_builder \<Rightarrow> string + bytes \<Rightarrow> 'v raw_message protocol_result" where
  "build_with_payload b payload =
     res_bind (validate_message_structure (mb_message_type b) (mb_header b)) (\<lambda>_.
       raw_message_new (mb_message_type b) (mb_client_id b) (mb_header b) payload)"

definition build :: "'v deps \<Rightarrow> 'v message_builder \<Rightarrow> 'v raw_message protocol_result" where
  "build d b =
     res_bind (validate_message_structure (mb_message_type b) (mb_header b)) (\<lambda>_.
       raw_message_new (mb_message_type b) (mb_client_id b) (mb_header b)
         (rmp_value_write d (rmpv_nil d)))"

subsection \<open>Specialised builders\<close>

definition mb_join :: "u32 \<Rightarrow> string \<Rightarrow> 'v message_builder" where
  "mb_join client_id client_name = mb_with_client_name (mb_new Join client_id) client_name"

definition mb_request :: "u32 \<Rightarrow> string \<Rightarrow> string \<Rightarrow> u32 option \<Rightarrow> 'v message_builder" where
  "mb_request client_id target_client_name path target_id =
     mb_route_to (mb_new Request client_id) target_client_name path target_id"

definition mb_notification :: "u32 \<Rightarrow> string \<Rightarrow> string \<Rightarrow> u32 option \<Rightarrow> 'v message_builder" where
  "mb_notification client_id target_name path target_id =
     mb_route_to (mb_new Notification client_id) target_name path target_id"

definition mb_broadcast :: "u32 \<Rightarrow> 'v message_builder" where
  "mb_broadcast client_id = mb_new Broadcast client_id"

definition mb_subscribe :: "u32 \<Rightarrow> 'v message_builder" where
  "mb_subscribe client_id = mb_new Subscribe client_id"

definition mb_response ::
  "u32 \<Rightarrow> string \<Rightarrow> string \<Rightarrow> string \<Rightarrow> u32 \<Rightarrow> 'v message_builder" where
  "mb_response client_id target_name request_id path target_id =
     mb_as_response (mb_route_with_id (mb_new Response client_id) target_name path target_id)
       request_id"

definition mb_publish :: "u32 \<Rightarrow> 'v message_builder" where
  "mb_publish client_id = mb_new Publish client_id"

definition mb_unsubscribe :: "u32 \<Rightarrow> 'v message_builder" where
  "mb_unsubscribe client_id = mb_new Unsubscribe client_id"

definition mb_forwarded_response_with_status ::
  "u32 \<Rightarrow> string \<Rightarrow> string \<Rightarrow> string \<Rightarrow> u32 \<Rightarrow> 'v message_builder" where
  "mb_forwarded_response_with_status client_id requester_name request_id path requester_id =
     mb_as_response (mb_route_to (mb_new Response client_id) requester_name path (Some requester_id))
       request_id"

definition mb_response_from_request ::
  "'v deps \<Rightarrow> u32 \<Rightarrow> ('v, 'd) message \<Rightarrow> status_code option \<Rightarrow>
   ('v, 'd) message \<times> 'v message_builder protocol_result" where
  "mb_response_from_request d client_id message status =
     (let builder = mb_new Response client_id;
          (message, r) = m_header d message;
          set_status = (\<lambda>builder. case status of Some status \<Rightarrow> mb_status builder status | None \<Rightarrow> builder)
      in (message,
          case r of
            Panic \<Rightarrow> Panic
          | Err _ \<Rightarrow> Ok (set_status builder)
          | Ok header \<Rightarrow>
              (case h_reqrep header of
                 Some reqrep \<Rightarrow> Ok (set_status (mb_reqrep builder reqrep))
               | None \<Rightarrow> Ok (set_status builder))))"

definition mb_simple_notification ::
  "u32 \<Rightarrow> string \<Rightarrow> string \<Rightarrow> u32 option \<Rightarrow> 'v message_builder" where
  "mb_simple_notification client_id target_name path target_id =
     mb_route_to (mb_new Notification client_id) target_name path target_id"

definition mb_simple_broadcast :: "u32 \<Rightarrow> string \<Rightarrow> 'v message_builder" where
  "mb_simple_broadcast client_id topic = mb_with_topic (mb_broadcast client_id) topic"

definition mb_simple_publish :: "u32 \<Rightarrow> string \<Rightarrow> 'v message_builder" where
  "mb_simple_publish client_id topic = mb_with_topic (mb_publish client_id) topic"

definition mb_simple_subscribe :: "u32 \<Rightarrow> string \<Rightarrow> 'v message_builder" where
  "mb_simple_subscribe client_id topic = mb_with_topic (mb_subscribe client_id) topic"

definition mb_join_with_token :: "u32 \<Rightarrow> string \<Rightarrow> string \<Rightarrow> 'v message_builder" where
  "mb_join_with_token client_id client_name token =
     mb_auth_token (mb_join client_id client_name) token"

definition mb_join_with_basic_auth ::
  "u32 \<Rightarrow> string \<Rightarrow> string \<Rightarrow> string \<Rightarrow> 'v message_builder" where
  "mb_join_with_basic_auth client_id client_name username password =
     mb_auth_basic (mb_join client_id client_name) username password"

definition mb_join_with_api_key :: "u32 \<Rightarrow> string \<Rightarrow> string \<Rightarrow> 'v message_builder" where
  "mb_join_with_api_key client_id client_name api_key =
     mb_auth_api_key (mb_join client_id client_name) api_key"

lemmas builder_steps =
  mb_new_def mb_set_routing_def mb_set_routing_target_def mb_route_with_id_def mb_route_to_def
  mb_route_to_many_def mb_reqrep_def mb_as_request_def mb_as_response_def mb_with_topic_def
  mb_status_def mb_with_status_def mb_auth_def mb_auth_token_def mb_auth_token_legacy_def
  mb_auth_basic_def mb_auth_api_key_def mb_with_client_name_def header_with_defs

lemmas builder_shapes =
  mb_join_def mb_request_def mb_notification_def mb_broadcast_def mb_subscribe_def mb_response_def
  mb_publish_def mb_unsubscribe_def mb_forwarded_response_with_status_def
  mb_simple_notification_def mb_simple_broadcast_def mb_simple_publish_def mb_simple_subscribe_def
  mb_join_with_token_def mb_join_with_basic_auth_def mb_join_with_api_key_def

section \<open>Lemmas\<close>

text \<open>Building needs a well-formed header and a payload that serialises, and copies the rest.\<close>

definition buildable :: "'v message_builder \<Rightarrow> bool" where
  "buildable b \<longleftrightarrow> well_formed (mb_message_type b) (mb_header b)"

definition built :: "'v message_builder \<Rightarrow> bytes \<Rightarrow> 'v raw_message" where
  "built b pb =
     \<lparr>rm_message_type = mb_message_type b, rm_client_id = mb_client_id b, rm_header = mb_header b,
      rm_payload_data = pb\<rparr>"

lemma build_with_payload_Ok_iff:
  "build_with_payload b payload = Ok rm \<longleftrightarrow>
     buildable b \<and> (\<exists>pb. payload = Inr pb \<and> rm = built b pb)"
  by (auto simp: build_with_payload_def raw_message_new_def outcome validate_ok_iff buildable_def
      built_def)

lemma build_is_build_with_nil: "build d b = build_with_payload b (rmp_value_write d (rmpv_nil d))"
  by (simp add: build_def build_with_payload_def)

lemma response_from_request_shape:
  "snd (mb_response_from_request d c m st) =
     (case snd (m_header d m) of
        Panic \<Rightarrow> Panic
      | r \<Rightarrow> Ok \<lparr>mb_message_type = Response, mb_client_id = c,
          mb_header = header_new\<lparr>h_reqrep := (case r of Ok h \<Rightarrow> h_reqrep h | _ \<Rightarrow> None),
            h_status := st\<rparr>\<rparr>)"
  by (auto simp: mb_response_from_request_def builder_steps header_new_def Let_def
      split: prod.splits res.splits option.splits)

section \<open>Properties\<close>

text \<open>
  A builder builds exactly when its header is well formed for its message type and
  its payload serialises; the raw message then has the builder's type, client id and
  header and the serialised payload. An ill-formed header is reported before the payload
  is touched.
\<close>

theorem build_outcome:
  "(build_with_payload b payload = Ok rm \<longleftrightarrow>
      well_formed (mb_message_type b) (mb_header b) \<and>
      (\<exists>pb. payload = Inr pb \<and> rm =
        \<lparr>rm_message_type = mb_message_type b, rm_client_id = mb_client_id b,
         rm_header = mb_header b, rm_payload_data = pb\<rparr>)) \<and>
   (\<not> well_formed (mb_message_type b) (mb_header b) \<longleftrightarrow>
      (\<exists>e. validate_message_structure (mb_message_type b) (mb_header b) = Err e \<and>
        (\<forall>payload. build_with_payload b payload = Err e)))"
proof -
  have "validate_message_structure (mb_message_type b) (mb_header b) = Ok () \<or>
      (\<exists>e. validate_message_structure (mb_message_type b) (mb_header b) = Err e)"
    using validate_no_panic [of "mb_message_type b" "mb_header b"]
    by (cases "validate_message_structure (mb_message_type b) (mb_header b)") simp_all
  then show ?thesis
    using validate_ok_iff [of "mb_message_type b" "mb_header b"]
    by (intro conjI, simp add: build_with_payload_Ok_iff buildable_def built_def)
      (auto simp: build_with_payload_def)
qed

text \<open>
  Which specialised builders are complete: joins (with or without credentials),
  notifications, broadcasts, publications and subscriptions with a topic and responses
  can be built as they come; a request needs a request id, an unsubscription, a
  publication and a subscription need a topic, and nothing else.
\<close>

theorem specialised_builders:
  "buildable (mb_join c n) \<and> buildable (mb_join_with_token c n tok) \<and>
   buildable (mb_join_with_basic_auth c n user pw) \<and> buildable (mb_join_with_api_key c n key) \<and>
   buildable (mb_notification c n p tid) \<and> buildable (mb_simple_notification c n p tid) \<and>
   buildable (mb_broadcast c) \<and> buildable (mb_simple_publish c t) \<and>
   buildable (mb_simple_subscribe c t) \<and> buildable (mb_response c n i p tid') \<and>
   buildable (mb_forwarded_response_with_status c n i p tid') \<and>
   \<not> buildable (mb_request c n p tid) \<and> buildable (mb_as_request (mb_request c n p tid) i) \<and>
   \<not> buildable (mb_unsubscribe c) \<and> buildable (mb_with_topic (mb_unsubscribe c) t) \<and>
   \<not> buildable (mb_publish c) \<and> \<not> buildable (mb_subscribe c)"
  by (simp add: buildable_def builder_shapes builder_steps header_new_def)

text \<open>
  \<open>simple_broadcast\<close> can never be built: it sets a topic, which validation forbids on
  a broadcast, so \<open>build\<close> and \<open>build_with_payload\<close> fail for every client, topic and payload.
\<close>

theorem simple_broadcast_never_builds:
  "build_with_payload (mb_simple_broadcast c topic) payload =
     Err (ForbiddenField ''topic'' ''BCAST'') \<and>
   build d (mb_simple_broadcast c topic) = Err (ForbiddenField ''topic'' ''BCAST'')"
  by (simp add: build_def build_with_payload_def validate_cases builder_shapes builder_steps
      header_new_def)

text \<open>
  \<open>response_from_request\<close> alone can never be built, for every message and status: it
  sets no routing, and a response requires one. Once a route with a client id is added,
  it builds exactly when the request's header could be read and had a correlation; the
  response then keeps the request's correlation unchanged, still marked as a request
  (where \<open>create_response\<close> marks it as a \<open>Correlation\<close>). It panics exactly when reading the
  header does.
\<close>

theorem response_from_request_incomplete:
  assumes "caches_coherent d m"
  shows "(snd (mb_response_from_request d c m st) = Panic \<longleftrightarrow> header_init d m = Panic) \<and>
    (\<forall>b. snd (mb_response_from_request d c m st) = Ok b \<longrightarrow>
      build d b = Err (MissingRequiredField ''routing'' ''REP'') \<and>
      (buildable (mb_route_to b n p (Some i)) \<longleftrightarrow>
        (\<exists>h q. header_init d m = Ok h \<and> h_reqrep h = Some q \<and>
          h_reqrep (mb_header (mb_route_to b n p (Some i))) = Some q)))"
  unfolding response_from_request_shape m_header_snd [OF assms]
  by (auto simp: buildable_def mb_route_to_def header_new_def build_def validate_cases split: res.splits)

theorem response_from_request_incomplete_witness:
  "\<exists>b. snd (mb_response_from_request demo_deps 7 demo_request (Some STATUS_OK)) = Ok b \<and>
     build demo_deps b = Err (MissingRequiredField ''routing'' ''REP'')"
proof -
  have "caches_coherent demo_deps demo_request" and "header_init demo_deps demo_request \<noteq> Panic"
    by (simp add: demo_request_def) (simp add: demo_request_init)
  with response_from_request_incomplete [OF this(1), of 7 "Some STATUS_OK"] show ?thesis
    by (cases "snd (mb_response_from_request demo_deps 7 demo_request (Some STATUS_OK))")
      (auto simp: response_from_request_shape split: res.splits)
qed

text \<open>What the receiver of one raw message reads.\<close>

lemma received_reads_back:
  fixes d :: "'v deps" and m :: "('v, 'd) message"
  assumes "nom_laws d" and "encodable d rm" and "decodes_back d (rm_header rm)"
    and "into_message d rm = Ok m"
  shows "m_message_type m = rm_message_type rm" and "m_client_id m = rm_client_id rm"
    and "snd (m_header d m) = Ok (rm_header rm)" and "raw_payload_bytes m = Ok (rm_payload_data rm)"
proof -
  obtain hb where hb: "length hb \<le> 65536" "wire_size rm hb \<le> 2 ^ 30"
    and m: "m = fresh_message (wire_header rm hb) (base_header_bytes (wire_header rm hb) @ hb @ rm_payload_data rm)"
    by (rule into_message_OkD [OF assms(1,2,4)])
  have "snd (m_header d m) = header_init d m"
    using m by (intro m_header_snd) simp
  then show "snd (m_header d m) = Ok (rm_header rm)"
    using header_init_roundtrip [OF assms(1,2) _ assms(4)] assms(3) by simp
  show "m_message_type m = rm_message_type rm" and "m_client_id m = rm_client_id rm"
    and "raw_payload_bytes m = Ok (rm_payload_data rm)"
    using wire_header_simps(6,7) [OF hb] wire_message(5) [OF hb] m
    by (simp_all add: m_message_type_def m_client_id_def)
qed

text \<open>
  End to end: what is built is what arrives. A message built with a payload,
  serialised and parsed by the receiver has the builder's type and client id, its header
  reads back as the builder's header, which is well formed, and its raw payload is the
  serialised payload.
\<close>

theorem build_send_receive:
  fixes d :: "'v deps" and m :: "('v, 'd) message"
  assumes "nom_laws d" and "build_with_payload b (Inr pb) = Ok rm" and "encodable d rm"
    and "decodes_back d (mb_header b)" and "into_message d rm = Ok m"
  shows "m_message_type m = mb_message_type b \<and> m_client_id m = mb_client_id b \<and>
    snd (m_header d m) = Ok (mb_header b) \<and> well_formed (m_message_type m) (mb_header b) \<and>
    raw_payload_bytes m = Ok pb"
  using received_reads_back [OF assms(1,3) _ assms(5)] assms(2,4)
  by (auto simp: build_with_payload_Ok_iff buildable_def built_def)

theorem build_send_receive_witness:
  "\<exists>m :: (nat, nat) message. into_message demo_deps demo_raw = Ok m \<and>
     m_message_type m = Publish \<and> snd (m_header demo_deps m) = Ok demo_header"
proof -
  let ?b = "mb_simple_publish 1000 ''t'' :: nat message_builder"
  have built: "build_with_payload ?b (Inr [7]) = Ok demo_raw"
    by (simp add: build_with_payload_Ok_iff buildable_def built_def builder_shapes builder_steps
        demo_raw_def demo_header_def header_new_def)
  have hdr: "mb_header ?b = demo_header" and ty: "mb_message_type ?b = Publish"
    by (simp_all add: builder_shapes builder_steps demo_header_def)
  have bs: "to_bytes demo_deps demo_raw = Ok (base_header_bytes (base_header_new Publish 1000 1 1) @ [1, 7])"
    by (simp add: to_bytes_eq [OF demo_raw_header] rust_sized_def wire_size_def wire_header_def)
  obtain m :: "(nat, nat) message" where m: "into_message demo_deps demo_raw = Ok m"
    using wire_message(6) [of "[1]" demo_raw demo_deps] bs
    by (auto simp: into_message_def wire_size_def nom_laws_demo wire_header_def)
  show ?thesis
    using build_send_receive [OF nom_laws_demo built demo_raw_encodable _ m]
      demo_raw_decodes m hdr ty by auto
qed

end
