(* ===== verification/Transport_Base.thy ===== *)
theory Transport_Base
  imports Protocol_Types
begin

text \<open>
  What the transports of \<open>fleximq-transport\<close> share: the errors of \<open>error.rs\<close> with their
  conversions and the context helpers, the connection data of \<open>traits.rs\<close>, operations on
  strings, and the interface of a transport that is selected by URL scheme.
\<close>

section \<open>Strings\<close>

definition starts_with :: "string \<Rightarrow> string \<Rightarrow> bool" where
  "starts_with s p \<longleftrightarrow> take (length p) s = p"

definition strip_prefix :: "string \<Rightarrow> string \<Rightarrow> string option" where
  "strip_prefix s p = (if starts_with s p then Some (drop (length p) s) else None)"

lemma starts_with_iff: "starts_with s p \<longleftrightarrow> (\<exists>rest. s = p @ rest)"
  by (metis append_eq_conv_conj append_take_drop_id starts_with_def)

lemma strip_prefix_Some_iff: "strip_prefix s p = Some rest \<longleftrightarrow> s = p @ rest"
  by (auto simp: strip_prefix_def starts_with_iff)

section \<open>Time\<close>

text \<open>Durations and instants in nanoseconds.\<close>

type_synonym duration = nat
type_synonym instant = nat

definition from_secs :: "nat \<Rightarrow> duration" where
  "from_secs n = n * 1000000000"

definition as_secs :: "duration \<Rightarrow> u64" where
  "as_secs t = of_nat (t div 1000000000)"

lemma as_secs_from_secs [simp]: "as_secs (from_secs n) = of_nat n"
  by (simp add: as_secs_def from_secs_def)

text \<open>
  An awaited operation of the runtime is \<open>Ready\<close> with its result or \<open>Pending\<close> when it has
  not completed by the time the caller stops waiting for it; a caller without a deadline
  waits for ever, so its own operation is \<open>Pending\<close> then.
\<close>

datatype 'a wait = Ready 'a | Pending

section \<open>Errors (\<open>error.rs\<close>)\<close>

datatype io_error_kind =
    TimedOut | ConnectionRefused | ConnectionReset | ConnectionAborted | NotConnected
  | WouldBlock | PermissionDenied | OtherKind

record io_error =
  io_kind :: io_error_kind
  io_text :: string

datatype transport_error =
    T_Io string
  | T_InvalidUrl string
  | T_ConnectionFailure string
  | T_Protocol protocol_error
  | T_WebSocket string
  | T_ConnectionDropped
  | T_Multiple "transport_error list"
  | T_ConnectionNotFound string
  | T_Timeout duration
  | T_ConnectionClosed
  | T_UnsupportedTransport string
  | T_ResourceUnavailable string
  | T_TransportError string
  | T_Config string
  | T_AccessDenied string
  | T_TransportNotFound string
  | T_ConnectionPool string
  | T_MessageTooLarge (tmtl_size: usize) (tmtl_max: usize)
  | T_Other string

type_synonym 'a transport_result = "('a, transport_error) res"

text \<open>
  The texts of the error attributes. A \<open>Duration\<close> is printed for debugging in the largest
  unit it reaches, with its fraction less trailing zeros.
\<close>

definition fraction_text :: "nat \<Rightarrow> nat \<Rightarrow> string" where
  "fraction_text width f =
     (let digits = replicate (width - length (display_nat f)) (CHR ''0'') @ display_nat f;
          kept = rev (dropWhile (\<lambda>c. c = CHR ''0'') (rev digits))
      in if kept = [] then [] else CHR ''.'' # kept)"

definition debug_duration :: "duration \<Rightarrow> string" where
  "debug_duration t =
     (if 10 ^ 9 \<le> t then display_nat (t div 10 ^ 9) @ fraction_text 9 (t mod 10 ^ 9) @ ''s''
      else if 10 ^ 6 \<le> t then display_nat (t div 10 ^ 6) @ fraction_text 6 (t mod 10 ^ 6) @ ''ms''
      else if 10 ^ 3 \<le> t then
        display_nat (t div 10 ^ 3) @ fraction_text 3 (t mod 10 ^ 3) @ [CHR 0xC2, CHR 0xB5, CHR ''s'']
      else display_nat t @ ''ns'')"

lemma debug_duration_secs: "0 < n \<Longrightarrow> debug_duration (from_secs n) = display_nat n @ ''s''"
proof -
  have "display_nat 0 = ''0''"
    by (simp add: display_nat.simps [of 0] digit_char_def) code_simp
  then show "0 < n \<Longrightarrow> debug_duration (from_secs n) = display_nat n @ ''s''"
    by (simp add: debug_duration_def from_secs_def fraction_text_def)
qed

primrec transport_error_text :: "transport_error \<Rightarrow> string" where
  "transport_error_text (T_Io e) = ''IO error: '' @ e"
| "transport_error_text (T_InvalidUrl e) = ''Invalid URL: '' @ e"
| "transport_error_text (T_ConnectionFailure e) = ''Connection failure: '' @ e"
| "transport_error_text (T_Protocol e) = ''Protocol error: '' @ protocol_error_text e"
| "transport_error_text (T_WebSocket e) = ''WebSocket error: '' @ e"
| "transport_error_text T_ConnectionDropped = ''Connection dropped''"
| "transport_error_text (T_Multiple es) = ''Multiple errors occurred''"
| "transport_error_text (T_ConnectionNotFound e) = ''Connection not found: '' @ e"
| "transport_error_text (T_Timeout t) = ''Operation timed out after '' @ debug_duration t"
| "transport_error_text T_ConnectionClosed = ''Connection closed''"
| "transport_error_text (T_UnsupportedTransport e) = ''Unsupported transport: '' @ e"
| "transport_error_text (T_ResourceUnavailable e) = ''Resource unavailable: '' @ e"
| "transport_error_text (T_TransportError e) = ''Transport error: '' @ e"
| "transport_error_text (T_Config e) = ''Configuration error: '' @ e"
| "transport_error_text (T_AccessDenied e) = ''Access denied: '' @ e"
| "transport_error_text (T_TransportNotFound e) = ''Transport not found: '' @ e"
| "transport_error_text (T_ConnectionPool e) = ''Connection pool error: '' @ e"
| "transport_error_text (T_MessageTooLarge n m) =
     ''Message too large: '' @ display_nat (unat n) @ '' bytes (max: '' @ display_nat (unat m) @ '' bytes)''"
| "transport_error_text (T_Other e) = e"

definition transport_from_io :: "io_error \<Rightarrow> transport_error" where
  "transport_from_io err =
     (case io_kind err of
        TimedOut \<Rightarrow> T_Timeout (from_secs 30)
      | ConnectionRefused \<Rightarrow> T_ConnectionFailure ''Connection refused''
      | ConnectionReset \<Rightarrow> T_ConnectionDropped
      | ConnectionAborted \<Rightarrow> T_ConnectionDropped
      | NotConnected \<Rightarrow> T_ConnectionClosed
      | WouldBlock \<Rightarrow> T_ResourceUnavailable ''Operation would block''
      | PermissionDenied \<Rightarrow> T_AccessDenied ''Permission denied''
      | OtherKind \<Rightarrow> T_Io (io_text err))"

definition transport_from_url_error :: "string \<Rightarrow> transport_error" where
  "transport_from_url_error err = T_InvalidUrl err"

text \<open>
  The WebSocket library's errors, by the variants the conversion tells apart, with the
  texts it formats from them.
\<close>

datatype ws_error =
    WsConnectionClosed | WsAlreadyClosed | WsIo io_error | WsTls string | WsCapacity
  | WsProtocol string | WsUtf8 | WsHttp string | WsHttpFormat string | WsUrl string
  | WsOther string

primrec transport_from_ws :: "ws_error \<Rightarrow> transport_error" where
  "transport_from_ws WsConnectionClosed = T_ConnectionClosed"
| "transport_from_ws WsAlreadyClosed = T_ConnectionClosed"
| "transport_from_ws (WsIo io_err) = transport_from_io io_err"
| "transport_from_ws (WsTls tls_err) = T_WebSocket (''TLS error: '' @ tls_err)"
| "transport_from_ws WsCapacity = T_MessageTooLarge 0 (1024 * 1024)"
| "transport_from_ws (WsProtocol proto_err) = T_Protocol (InvalidFormat proto_err)"
| "transport_from_ws WsUtf8 = T_ResourceUnavailable ''WebSocket resource error''"
| "transport_from_ws (WsHttp e) = T_ConnectionFailure (''HTTP error: '' @ e)"
| "transport_from_ws (WsHttpFormat e) = T_ConnectionFailure (''HTTP format error: '' @ e)"
| "transport_from_ws (WsUrl e) = T_InvalidUrl e"
| "transport_from_ws (WsOther e) = T_WebSocket e"

definition timeout_error :: "duration \<Rightarrow> transport_error" where
  "timeout_error t = T_Timeout t"

definition with_context :: "string \<Rightarrow> 'a transport_result \<Rightarrow> 'a transport_result" where
  "with_context context r =
     map_err (\<lambda>err. case err of
         T_Io msg \<Rightarrow> T_Io (context @ '': '' @ msg)
       | T_ConnectionFailure msg \<Rightarrow> T_ConnectionFailure (context @ '': '' @ msg)
       | T_InvalidUrl msg \<Rightarrow> T_InvalidUrl (context @ '': '' @ msg)
       | _ \<Rightarrow> err) r"

definition connection_text :: "string \<Rightarrow> string option \<Rightarrow> string option \<Rightarrow> string" where
  "connection_text transport_type local_end remote =
     (case (local_end, remote) of
        (Some l, Some r) \<Rightarrow> ''['' @ transport_type @ '' '' @ l @ ''->'' @ r @ '']''
      | (Some l, None) \<Rightarrow> ''['' @ transport_type @ '' '' @ l @ '']''
      | (None, Some r) \<Rightarrow> ''['' @ transport_type @ '' ->'' @ r @ '']''
      | (None, None) \<Rightarrow> ''['' @ transport_type @ '']'')"

definition with_connection_info ::
  "string \<Rightarrow> string option \<Rightarrow> string option \<Rightarrow> 'a transport_result \<Rightarrow> 'a transport_result" where
  "with_connection_info transport_type local_end remote r =
     map_err (\<lambda>err.
       let conn_info = connection_text transport_type local_end remote in
       case err of
         T_Io msg \<Rightarrow> T_Io (conn_info @ '' '' @ msg)
       | T_ConnectionFailure msg \<Rightarrow> T_ConnectionFailure (conn_info @ '' '' @ msg)
       | T_ConnectionDropped \<Rightarrow> T_ConnectionDropped
       | _ \<Rightarrow> err) r"

text \<open>
  Results of the operating system and of the URL parser, turned into transport results:
  \<open>map_err\<close> with a formatted text, or \<open>?\<close> with the \<open>From\<close> conversion.
\<close>

primrec of_io :: "(io_error \<Rightarrow> transport_error) \<Rightarrow> io_error + 'a \<Rightarrow> 'a transport_result" where
  "of_io g (Inl e) = Err (g e)"
| "of_io g (Inr x) = Ok x"

definition io_failed :: "string \<Rightarrow> io_error \<Rightarrow> transport_error" where
  "io_failed what e = T_Io (what @ '': '' @ io_text e)"

lemma of_io_eq_Ok [outcome]: "of_io g s = Ok x \<longleftrightarrow> s = Inr x"
  by (cases s) auto

lemma of_io_eq_Err [outcome]: "of_io g s = Err f \<longleftrightarrow> (\<exists>e. s = Inl e \<and> f = g e)"
  by (cases s) auto

lemma of_io_no_panic [simp]: "of_io g s \<noteq> Panic"
  by (cases s) auto

section \<open>Connections (\<open>traits.rs\<close>)\<close>

record connection_info =
  ci_transport_type :: string
  ci_local_addr :: "string option"
  ci_remote_addr :: "string option"
  ci_metadata :: "(string, string) fmap"
  ci_established_at :: instant

record connection_timeouts =
  ct_read_timeout :: "duration option"
  ct_write_timeout :: "duration option"
  ct_connect_timeout :: "duration option"

definition timeouts_default :: connection_timeouts where
  "timeouts_default =
     \<lparr>ct_read_timeout = Some (from_secs 30), ct_write_timeout = Some (from_secs 30),
      ct_connect_timeout = Some (from_secs 10)\<rparr>"

text \<open>\<open>url::Url\<close> as the program reads it; \<open>Url::parse\<close> is a parameter of its users.\<close>

record url =
  url_scheme :: string
  url_host_str :: "string option"
  url_port :: "u16 option"
  url_path :: string
  url_text :: string

type_synonym url_parser = "string \<Rightarrow> string + url"

definition parse_url_with :: "url_parser \<Rightarrow> string \<Rightarrow> url transport_result" where
  "parse_url_with parse u = of_ext T_InvalidUrl (parse u)"

section \<open>Selection by URL scheme\<close>

text \<open>The text before \<open>://\<close>, where that is the first colon.\<close>

definition scheme_prefix :: "string \<Rightarrow> string option" where
  "scheme_prefix u =
     (let s = takeWhile (\<lambda>c. c \<noteq> CHR '':'') u in
      if starts_with (drop (length s) u) ''://'' then Some s else None)"

lemma scheme_prefix_iff:
  assumes "CHR '':'' \<notin> set s"
  shows "starts_with u (s @ ''://'') \<longleftrightarrow> scheme_prefix u = Some s"
proof
  assume "starts_with u (s @ ''://'')"
  then obtain rest where u: "u = s @ ''://'' @ rest"
    by (auto simp: starts_with_iff)
  have "takeWhile (\<lambda>c. c \<noteq> CHR '':'') u = s"
    unfolding u using assms by (subst takeWhile_append2) auto
  then show "scheme_prefix u = Some s"
    by (simp add: scheme_prefix_def u starts_with_def)
next
  let ?s = "takeWhile (\<lambda>c. c \<noteq> CHR '':'') u"
  assume "scheme_prefix u = Some s"
  then have "s = ?s" and "starts_with (drop (length s) u) ''://''"
    by (auto simp: scheme_prefix_def Let_def split: if_splits)
  then obtain rest where "drop (length s) u = ''://'' @ rest"
    by (auto simp: starts_with_iff)
  moreover have "u = s @ drop (length s) u"
    using \<open>s = ?s\<close> by (metis append_take_drop_id takeWhile_eq_take)
  ultimately have "u = (s @ ''://'') @ rest"
    by simp
  then show "starts_with u (s @ ''://'')"
    unfolding starts_with_iff by blast
qed

text \<open>
  What a registry may rely on when it selects a transport by URL: the URLs a transport
  claims are those of its schemes.
\<close>

locale scheme_transport =
  fixes supports :: "string \<Rightarrow> bool"
    and schemes :: "string list"
  assumes supports_iff: "supports u \<longleftrightarrow> (\<exists>s \<in> set schemes. starts_with u (s @ ''://''))"
    and scheme_chars: "s \<in> set schemes \<Longrightarrow> CHR '':'' \<notin> set s"
begin

lemma supports_scheme: "supports u \<longleftrightarrow> (\<exists>s \<in> set schemes. scheme_prefix u = Some s)"
  using supports_iff scheme_prefix_iff scheme_chars by blast

lemma supports_excludes:
  "supports u \<Longrightarrow> scheme_prefix u = Some s \<Longrightarrow> s \<in> set schemes"
  using supports_scheme by auto

end

section \<open>Properties\<close>

text \<open>The variant of an error, without its texts.\<close>

primrec error_variant :: "transport_error \<Rightarrow> string" where
  "error_variant (T_Io _) = ''Io''"
| "error_variant (T_InvalidUrl _) = ''InvalidUrl''"
| "error_variant (T_ConnectionFailure _) = ''ConnectionFailure''"
| "error_variant (T_Protocol _) = ''Protocol''"
| "error_variant (T_WebSocket _) = ''WebSocket''"
| "error_variant T_ConnectionDropped = ''ConnectionDropped''"
| "error_variant (T_Multiple _) = ''Multiple''"
| "error_variant (T_ConnectionNotFound _) = ''ConnectionNotFound''"
| "error_variant (T_Timeout _) = ''Timeout''"
| "error_variant T_ConnectionClosed = ''ConnectionClosed''"
| "error_variant (T_UnsupportedTransport _) = ''UnsupportedTransport''"
| "error_variant (T_ResourceUnavailable _) = ''ResourceUnavailable''"
| "error_variant (T_TransportError _) = ''TransportError''"
| "error_variant (T_Config _) = ''Config''"
| "error_variant (T_AccessDenied _) = ''AccessDenied''"
| "error_variant (T_TransportNotFound _) = ''TransportNotFound''"
| "error_variant (T_ConnectionPool _) = ''ConnectionPool''"
| "error_variant (T_MessageTooLarge _ _) = ''MessageTooLarge''"
| "error_variant (T_Other _) = ''Other''"

text \<open>
  Adding context is safe to do at every level: a success is never touched and an error
  never changes its variant, so a caller's match on it is unaffected; only the three
  variants with a free text take the context, and contexts nest from the outside in.
\<close>

theorem error_context_preserves:
  "(with_context c r = Ok x \<longleftrightarrow> r = Ok x) \<and>
   (with_connection_info t l m r = Ok x \<longleftrightarrow> r = Ok x) \<and>
   (case r of Err e \<Rightarrow> (\<exists>f. with_context c r = Err f \<and> error_variant f = error_variant e) \<and>
        (\<exists>f. with_connection_info t l m r = Err f \<and> error_variant f = error_variant e) | _ \<Rightarrow> True) \<and>
   with_context c (with_context c' r) = with_context (c @ '': '' @ c') r"
proof (cases r)
  case (Err e)
  then show ?thesis
    by (cases e) (simp_all add: with_context_def with_connection_info_def)
qed (simp_all add: with_context_def with_connection_info_def)

end
