(* ===== verification/Stream_Objects.thy ===== *)
theory Stream_Objects
  imports Transport_Base
begin

text \<open>
  Transport streams as objects: the byte-stream operations of the runtime (\<open>AsyncRead\<close> and
  \<open>AsyncWrite\<close>), the trait \<open>TransportStream\<close> of \<open>traits.rs\<close> with its implementation for
  \<open>Box\<close>, and the borrowed stream of \<open>message.rs\<close>. A trait object is a record of its
  operations; \<open>perform\<close> calls one of them, so that a use of a stream is a list of calls.
\<close>

section \<open>Bytes in and out\<close>

text \<open>
  \<open>tokio\<close>'s \<open>ReadBuf\<close> by what is filled and how much room is left; \<open>put_slice\<close> is documented
  to panic when the room is too small.
\<close>

record read_buf =
  rb_filled :: bytes
  rb_remaining :: nat

definition put_slice :: "bytes \<Rightarrow> read_buf \<Rightarrow> (read_buf, io_error) res" where
  "put_slice bs buf =
     (if length bs \<le> rb_remaining buf then
        Ok \<lparr>rb_filled = rb_filled buf @ bs, rb_remaining = rb_remaining buf - length bs\<rparr>
      else Panic)"

text \<open>
  One poll of a stream of the runtime: it is \<open>Pending\<close>, or \<open>Ready\<close> with its result and the
  buffer as it leaves it.
\<close>

record 's async_io =
  ai_poll_read :: "'s \<Rightarrow> read_buf \<Rightarrow> 's \<times> (read_buf, io_error) res wait"
  ai_poll_write :: "'s \<Rightarrow> bytes \<Rightarrow> 's \<times> (usize, io_error) res wait"
  ai_poll_flush :: "'s \<Rightarrow> 's \<times> (unit, io_error) res wait"
  ai_poll_shutdown :: "'s \<Rightarrow> 's \<times> (unit, io_error) res wait"

text \<open>A read puts bytes behind what the buffer holds, within its room.\<close>

definition extends_buf :: "read_buf \<Rightarrow> read_buf \<Rightarrow> bool" where
  "extends_buf buf buf' \<longleftrightarrow>
     (\<exists>bs. rb_filled buf' = rb_filled buf @ bs \<and> rb_remaining buf' + length bs = rb_remaining buf)"

lemma extends_refl [simp]: "extends_buf buf buf"
  by (simp add: extends_buf_def)

lemma extends_trans: "extends_buf a b \<Longrightarrow> extends_buf b c \<Longrightarrow> extends_buf a c"
  unfolding extends_buf_def by (elim exE conjE) (rule exI, auto)

lemma put_slice_extends: "put_slice bs buf = Ok buf' \<Longrightarrow> extends_buf buf buf'"
  by (auto simp: put_slice_def extends_buf_def split: if_splits)

text \<open>
  What both traits are documented to do: a read that succeeds extends the buffer, a write
  that succeeds has taken at most the bytes it was given.
\<close>

locale async_stream =
  fixes io :: "'s async_io"
  assumes read_extends: "ai_poll_read io s buf = (s', Ready (Ok buf')) \<Longrightarrow> extends_buf buf buf'"
    and write_takes: "ai_poll_write io s bs = (s', Ready (Ok n)) \<Longrightarrow> unat n \<le> length bs"
begin

text \<open>Polling into one buffer until it is full or a poll is not ready.\<close>

fun poll_reads :: "nat \<Rightarrow> 's \<Rightarrow> read_buf \<Rightarrow> 's \<times> read_buf" where
  "poll_reads 0 s buf = (s, buf)"
| "poll_reads (Suc n) s buf =
     (case ai_poll_read io s buf of
        (s', Ready (Ok buf')) \<Rightarrow> poll_reads n s' buf'
      | (s', _) \<Rightarrow> (s', buf))"

lemma poll_reads_extends: "poll_reads n s buf = (s', buf') \<Longrightarrow> extends_buf buf buf'"
proof (induction n arbitrary: s buf)
  case (Suc n)
  then show ?case
    by (auto split: prod.splits wait.splits res.splits dest!: read_extends intro: extends_trans)
qed simp

end

text \<open>A method that passes a call on to a field.\<close>

definition on_field ::
  "('o \<Rightarrow> 's) \<Rightarrow> (('s \<Rightarrow> 's) \<Rightarrow> 'o \<Rightarrow> 'o) \<Rightarrow> ('s \<Rightarrow> 's \<times> 'a) \<Rightarrow> 'o \<Rightarrow> 'o \<times> 'a" where
  "on_field get upd f s = (case f (get s) of (x, a) \<Rightarrow> (upd (\<lambda>_. x) s, a))"

section \<open>The trait \<open>TransportStream\<close>\<close>

record 's stream_ops =
  so_io :: "'s async_io"
  so_connection_info :: "'s \<Rightarrow> connection_info"
  so_is_connected :: "'s \<Rightarrow> bool"
  so_close :: "'s \<Rightarrow> 's \<times> unit transport_result wait"
  so_timeouts :: "'s \<Rightarrow> connection_timeouts"

text \<open>A call of a stream, and its answer.\<close>

datatype stream_call =
    PollRead read_buf | PollWrite bytes | PollFlush | PollShutdown
  | GetConnectionInfo | IsConnected | CloseStream | GetTimeouts

datatype stream_answer =
    ReadAnswer "(read_buf, io_error) res wait"
  | WriteAnswer "(usize, io_error) res wait"
  | UnitAnswer "(unit, io_error) res wait"
  | InfoAnswer connection_info
  | BoolAnswer bool
  | CloseAnswer "unit transport_result wait"
  | TimeoutsAnswer connection_timeouts

primrec perform :: "'s stream_ops \<Rightarrow> stream_call \<Rightarrow> 's \<Rightarrow> 's \<times> stream_answer" where
  "perform ops (PollRead buf) s = map_prod id ReadAnswer (ai_poll_read (so_io ops) s buf)"
| "perform ops (PollWrite bs) s = map_prod id WriteAnswer (ai_poll_write (so_io ops) s bs)"
| "perform ops PollFlush s = map_prod id UnitAnswer (ai_poll_flush (so_io ops) s)"
| "perform ops PollShutdown s = map_prod id UnitAnswer (ai_poll_shutdown (so_io ops) s)"
| "perform ops GetConnectionInfo s = (s, InfoAnswer (so_connection_info ops s))"
| "perform ops IsConnected s = (s, BoolAnswer (so_is_connected ops s))"
| "perform ops CloseStream s = map_prod id CloseAnswer (so_close ops s)"
| "perform ops GetTimeouts s = (s, TimeoutsAnswer (so_timeouts ops s))"

fun perform_all :: "'s stream_ops \<Rightarrow> stream_call list \<Rightarrow> 's \<Rightarrow> 's \<times> stream_answer list" where
  "perform_all ops [] s = (s, [])"
| "perform_all ops (c # cs) s =
     (case perform ops c s of (s', a) \<Rightarrow>
        (case perform_all ops cs s' of (s'', as) \<Rightarrow> (s'', a # as)))"

primrec about_identity :: "stream_answer \<Rightarrow> bool" where
  "about_identity (ReadAnswer r) = False"
| "about_identity (WriteAnswer r) = False"
| "about_identity (UnitAnswer r) = False"
| "about_identity (InfoAnswer i) = True"
| "about_identity (BoolAnswer b) = False"
| "about_identity (CloseAnswer r) = False"
| "about_identity (TimeoutsAnswer t) = True"

definition identity_replies ::
  "connection_info \<Rightarrow> connection_timeouts \<Rightarrow> stream_call list \<Rightarrow> stream_answer list" where
  "identity_replies i t cs =
     map (\<lambda>c. if c = GetConnectionInfo then InfoAnswer i else TimeoutsAnswer t)
       (filter (\<lambda>c. c \<in> {GetConnectionInfo, GetTimeouts}) cs)"

text \<open>
  The interface the rest of the program relies on: a stream keeps its identity (what
  \<open>connection_info\<close> and \<open>timeouts\<close> report) whatever is done with it.
\<close>

locale transport_stream =
  fixes ops :: "'s stream_ops"
  assumes keeps_info: "perform ops c s = (s', a) \<Longrightarrow> so_connection_info ops s' = so_connection_info ops s"
    and keeps_timeouts: "perform ops c s = (s', a) \<Longrightarrow> so_timeouts ops s' = so_timeouts ops s"
begin

lemma identity_kept:
  "so_connection_info ops (fst (perform_all ops cs s)) = so_connection_info ops s \<and>
   so_timeouts ops (fst (perform_all ops cs s)) = so_timeouts ops s"
proof (induction cs arbitrary: s)
  case (Cons c cs)
  obtain s' a where step: "perform ops c s = (s', a)"
    by fastforce
  then show ?case
    using Cons.IH [of s'] keeps_info [OF step] keeps_timeouts [OF step] by (simp add: split_beta)
qed simp

text \<open>The answers about the identity, anywhere in a use of the stream, are the first ones.\<close>

lemma identity_constant:
  "filter about_identity (snd (perform_all ops cs s)) =
     identity_replies (so_connection_info ops s) (so_timeouts ops s) cs"
proof (induction cs arbitrary: s)
  case (Cons c cs)
  obtain s' a where step: "perform ops c s = (s', a)"
    by fastforce
  show ?case
    using Cons.IH [of s'] step keeps_info [OF step] keeps_timeouts [OF step]
    by (cases c) (auto simp: split_beta map_prod_def identity_replies_def)
qed (simp add: identity_replies_def)

end

section \<open>\<open>Box\<close> and \<open>StreamBorrow\<close>\<close>

text \<open>
  \<open>Box<dyn TransportStream>\<close> is a pointer to the operations with the stream they act on; the
  polls of a box are those of the runtime's implementation for \<open>Box\<close>, which passes them on.
\<close>

record 's boxed =
  bx_ops :: "'s stream_ops"
  bx_self :: 's

definition boxed_connection_info :: "'s boxed \<Rightarrow> connection_info" where
  "boxed_connection_info b = so_connection_info (bx_ops b) (bx_self b)"

definition boxed_is_connected :: "'s boxed \<Rightarrow> bool" where
  "boxed_is_connected b = so_is_connected (bx_ops b) (bx_self b)"

definition boxed_close :: "'s boxed \<Rightarrow> 's boxed \<times> unit transport_result wait" where
  "boxed_close b = on_field bx_self bx_self_update (so_close (bx_ops b)) b"

definition boxed_timeouts :: "'s boxed \<Rightarrow> connection_timeouts" where
  "boxed_timeouts b = so_timeouts (bx_ops b) (bx_self b)"

definition boxed_io :: "'s boxed async_io" where
  "boxed_io =
     \<lparr>ai_poll_read = (\<lambda>b buf. on_field bx_self bx_self_update (\<lambda>s. ai_poll_read (so_io (bx_ops b)) s buf) b),
      ai_poll_write = (\<lambda>b bs. on_field bx_self bx_self_update (\<lambda>s. ai_poll_write (so_io (bx_ops b)) s bs) b),
      ai_poll_flush = (\<lambda>b. on_field bx_self bx_self_update (ai_poll_flush (so_io (bx_ops b))) b),
      ai_poll_shutdown = (\<lambda>b. on_field bx_self bx_self_update (ai_poll_shutdown (so_io (bx_ops b))) b)\<rparr>"

definition boxed_ops :: "'s boxed stream_ops" where
  "boxed_ops =
     \<lparr>so_io = boxed_io, so_connection_info = boxed_connection_info,
      so_is_connected = boxed_is_connected, so_close = boxed_close, so_timeouts = boxed_timeouts\<rparr>"

text \<open>\<open>StreamBorrow\<close> of \<open>message.rs\<close> borrows a stream of a known type.\<close>

record 's stream_borrow =
  sb_stream :: 's

definition borrow_new :: "'s \<Rightarrow> 's stream_borrow" where
  "borrow_new s = \<lparr>sb_stream = s\<rparr>"

definition borrow_connection_info :: "'s stream_ops \<Rightarrow> 's stream_borrow \<Rightarrow> connection_info" where
  "borrow_connection_info ops b = so_connection_info ops (sb_stream b)"

definition borrow_is_connected :: "'s stream_ops \<Rightarrow> 's stream_borrow \<Rightarrow> bool" where
  "borrow_is_connected ops b = so_is_connected ops (sb_stream b)"

definition borrow_close ::
  "'s stream_ops \<Rightarrow> 's stream_borrow \<Rightarrow> 's stream_borrow \<times> unit transport_result wait" where
  "borrow_close ops = on_field sb_stream sb_stream_update (so_close ops)"

definition borrow_timeouts :: "'s stream_ops \<Rightarrow> 's stream_borrow \<Rightarrow> connection_timeouts" where
  "borrow_timeouts ops b = so_timeouts ops (sb_stream b)"

definition borrow_poll_read ::
  "'s stream_ops \<Rightarrow> 's stream_borrow \<Rightarrow> read_buf \<Rightarrow> 's stream_borrow \<times> (read_buf, io_error) res wait" where
  "borrow_poll_read ops b buf =
     on_field sb_stream sb_stream_update (\<lambda>s. ai_poll_read (so_io ops) s buf) b"

definition borrow_poll_write ::
  "'s stream_ops \<Rightarrow> 's stream_borrow \<Rightarrow> bytes \<Rightarrow> 's stream_borrow \<times> (usize, io_error) res wait" where
  "borrow_poll_write ops b bs =
     on_field sb_stream sb_stream_update (\<lambda>s. ai_poll_write (so_io ops) s bs) b"

definition borrow_poll_flush ::
  "'s stream_ops \<Rightarrow> 's stream_borrow \<Rightarrow> 's stream_borrow \<times> (unit, io_error) res wait" where
  "borrow_poll_flush ops = on_field sb_stream sb_stream_update (ai_poll_flush (so_io ops))"

definition borrow_poll_shutdown ::
  "'s stream_ops \<Rightarrow> 's stream_borrow \<Rightarrow> 's stream_borrow \<times> (unit, io_error) res wait" where
  "borrow_poll_shutdown ops = on_field sb_stream sb_stream_update (ai_poll_shutdown (so_io ops))"

definition borrow_ops :: "'s stream_ops \<Rightarrow> 's stream_borrow stream_ops" where
  "borrow_ops ops =
     \<lparr>so_io = \<lparr>ai_poll_read = borrow_poll_read ops, ai_poll_write = borrow_poll_write ops,
        ai_poll_flush = borrow_poll_flush ops, ai_poll_shutdown = borrow_poll_shutdown ops\<rparr>,
      so_connection_info = borrow_connection_info ops, so_is_connected = borrow_is_connected ops,
      so_close = borrow_close ops, so_timeouts = borrow_timeouts ops\<rparr>"

section \<open>Properties\<close>

lemmas boxed_defs =
  boxed_ops_def boxed_io_def boxed_connection_info_def boxed_is_connected_def boxed_close_def
  boxed_timeouts_def

lemmas borrow_defs =
  borrow_ops_def borrow_connection_info_def borrow_is_connected_def borrow_close_def
  borrow_timeouts_def borrow_poll_read_def borrow_poll_write_def borrow_poll_flush_def
  borrow_poll_shutdown_def

lemma boxed_step:
  "perform boxed_ops c \<lparr>bx_ops = ops, bx_self = s\<rparr> =
     map_prod (\<lambda>s. \<lparr>bx_ops = ops, bx_self = s\<rparr>) id (perform ops c s)"
  by (cases c) (simp_all add: boxed_defs on_field_def split: prod.splits)

lemma borrow_step:
  "perform (borrow_ops ops) c \<lparr>sb_stream = s\<rparr> =
     map_prod (\<lambda>s. \<lparr>sb_stream = s\<rparr>) id (perform ops c s)"
  by (cases c) (simp_all add: borrow_defs on_field_def split: prod.splits)

text \<open>A wrapper whose every step is one of the wrapped stream's is never noticed.\<close>

lemma wrapped_run:
  assumes "\<And>c s. perform wops c (w s) = map_prod w id (perform ops c s)"
  shows "perform_all wops cs (w s) = map_prod w id (perform_all ops cs s)"
  using assms by (induction cs arbitrary: s) (auto split: prod.splits)

lemma boxed_answers: "snd (perform_all boxed_ops cs \<lparr>bx_ops = ops, bx_self = s\<rparr>) = snd (perform_all ops cs s)"
  by (simp add: wrapped_run [where w = "\<lambda>s. \<lparr>bx_ops = ops, bx_self = s\<rparr>", OF boxed_step])

text \<open>
  The wrappers are transparent: a stream behind a \<open>Box\<close>, behind a \<open>StreamBorrow\<close>, or
  behind a borrow of a box (as \<open>Framed\<close> and the manager use it) gives the same answers to
  every sequence of calls as the stream itself, and the stream inside ends in the same
  state.
\<close>

theorem wrappers_transparent:
  "perform_all boxed_ops cs \<lparr>bx_ops = ops, bx_self = s\<rparr> =
     map_prod (\<lambda>s. \<lparr>bx_ops = ops, bx_self = s\<rparr>) id (perform_all ops cs s) \<and>
   perform_all (borrow_ops ops) cs (borrow_new s) = map_prod borrow_new id (perform_all ops cs s) \<and>
   perform_all (borrow_ops boxed_ops) cs (borrow_new \<lparr>bx_ops = ops, bx_self = s\<rparr>) =
     map_prod (\<lambda>s. borrow_new \<lparr>bx_ops = ops, bx_self = s\<rparr>) id (perform_all ops cs s)"
proof (intro conjI)
  show box: "perform_all boxed_ops cs \<lparr>bx_ops = ops, bx_self = s\<rparr> =
      map_prod (\<lambda>s. \<lparr>bx_ops = ops, bx_self = s\<rparr>) id (perform_all ops cs s)"
    by (rule wrapped_run) (rule boxed_step)
  have borrow: "perform_all (borrow_ops ops) cs (borrow_new s) = map_prod borrow_new id (perform_all ops cs s)"
    for ops :: "'x stream_ops" and s
    by (rule wrapped_run) (simp add: borrow_new_def [abs_def] borrow_step)
  show "perform_all (borrow_ops ops) cs (borrow_new s) = map_prod borrow_new id (perform_all ops cs s)"
    by (rule wrapped_run) (simp add: borrow_new_def [abs_def] borrow_step)
  have "perform_all (borrow_ops boxed_ops) cs (borrow_new \<lparr>bx_ops = ops, bx_self = s\<rparr>) =
      map_prod borrow_new id (perform_all boxed_ops cs \<lparr>bx_ops = ops, bx_self = s\<rparr>)"
    by (rule wrapped_run) (simp add: borrow_new_def [abs_def] borrow_step)
  also have "\<dots> = map_prod (\<lambda>s. borrow_new \<lparr>bx_ops = ops, bx_self = s\<rparr>) id (perform_all ops cs s)"
    by (simp add: box prod.map_comp o_def id_def)
  finally show "perform_all (borrow_ops boxed_ops) cs (borrow_new \<lparr>bx_ops = ops, bx_self = s\<rparr>) =
      map_prod (\<lambda>s. borrow_new \<lparr>bx_ops = ops, bx_self = s\<rparr>) id (perform_all ops cs s)" .
qed

end
