(* ===== verification/Tcp_Transport.thy ===== *)
theory Tcp_Transport
  imports Stream_Objects
begin

text \<open>
  The TCP transport of \<open>tcp.rs\<close>: configuration, connecting and listening, and the
  length-prefixed frames of \<open>FramedTransport\<close>. The operating system's sockets, the URL
  parser and the clock are the parameters of \<open>tcp_lib\<close>; \<open>tcp_io_laws\<close> states what the byte
  operations of \<open>tokio\<close> promise of the bytes a socket delivers and takes.
\<close>

section \<open>Parameters\<close>

text \<open>
  \<^item> \<open>tl_connect\<close>, \<open>tl_bind\<close>, \<open>tl_accept\<close>: one call of \<open>TcpStream::connect\<close>,
    \<open>TcpListener::bind\<close> and \<open>TcpListener::accept\<close>.
  \<^item> \<open>tl_local_addr\<close>, \<open>tl_peer_addr\<close>, \<open>tl_listener_addr\<close>: socket addresses, by their text.
  \<^item> \<open>tl_set_nodelay\<close>, \<open>tl_into_std\<close>, \<open>tl_set_keepalive\<close>, \<open>tl_from_std\<close>: socket options and
    the conversions around \<open>socket2\<close>.
  \<^item> \<open>tl_read_exact\<close>, \<open>tl_write_all\<close>, \<open>tl_flush\<close>, \<open>tl_shutdown\<close>: the asynchronous byte
    operations; \<open>Pending\<close> is an operation that has not completed when the deadline of the
    surrounding call passes, or ever, and its future is dropped then.
\<close>

record ('s, 'l) tcp_lib =
  tl_url_parse :: url_parser
  tl_now :: instant
  tl_connect :: "string \<Rightarrow> (io_error + 's) wait"
  tl_bind :: "string \<Rightarrow> io_error + 'l"
  tl_accept :: "'l \<Rightarrow> io_error + 's \<times> string"
  tl_listener_addr :: "'l \<Rightarrow> io_error + string"
  tl_local_addr :: "'s \<Rightarrow> io_error + string"
  tl_peer_addr :: "'s \<Rightarrow> io_error + string"
  tl_set_nodelay :: "bool \<Rightarrow> 's \<Rightarrow> io_error + 's"
  tl_into_std :: "'s \<Rightarrow> io_error + 's"
  tl_set_keepalive :: "duration \<Rightarrow> duration \<Rightarrow> 's \<Rightarrow> io_error + 's"
  tl_from_std :: "'s \<Rightarrow> io_error + 's"
  tl_read_exact :: "nat \<Rightarrow> 's \<Rightarrow> 's \<times> (io_error + bytes) wait"
  tl_write_all :: "bytes \<Rightarrow> 's \<Rightarrow> 's \<times> (io_error + unit) wait"
  tl_flush :: "'s \<Rightarrow> 's \<times> (io_error + unit) wait"
  tl_shutdown :: "'s \<Rightarrow> 's \<times> (io_error + unit) wait"

section \<open>Configuration\<close>

definition TCP_CONNECTION_TIMEOUT_SECS :: nat where "TCP_CONNECTION_TIMEOUT_SECS = 30"
definition TCP_KEEP_ALIVE_INTERVAL_SECS :: nat where "TCP_KEEP_ALIVE_INTERVAL_SECS = 30"
definition TCP_MAX_MESSAGE_SIZE :: usize where "TCP_MAX_MESSAGE_SIZE = 1024 * 1024"
definition TCP_KEEP_ALIVE_SECS :: nat where "TCP_KEEP_ALIVE_SECS = 60"

record tcp_config =
  tc_nodelay :: bool
  tc_keepalive :: "duration option"
  tc_send_buffer_size :: "usize option"
  tc_recv_buffer_size :: "usize option"
  tc_connect_timeout :: "duration option"
  tc_read_timeout :: "duration option"
  tc_write_timeout :: "duration option"
  tc_max_message_size :: usize

definition tcp_config_default :: tcp_config where
  "tcp_config_default =
     \<lparr>tc_nodelay = True, tc_keepalive = Some (from_secs TCP_KEEP_ALIVE_SECS),
      tc_send_buffer_size = None, tc_recv_buffer_size = None,
      tc_connect_timeout = Some (from_secs TCP_CONNECTION_TIMEOUT_SECS),
      tc_read_timeout = Some (from_secs 30), tc_write_timeout = Some (from_secs 30),
      tc_max_message_size = TCP_MAX_MESSAGE_SIZE\<rparr>"

record tcp_transport =
  tt_config :: tcp_config

definition tcp_with_config :: "tcp_config \<Rightarrow> tcp_transport" where
  "tcp_with_config config = \<lparr>tt_config = config\<rparr>"

definition tcp_new :: tcp_transport where
  "tcp_new = \<lparr>tt_config = tcp_config_default\<rparr>"

definition tcp_default :: tcp_transport where
  "tcp_default = tcp_new"

text \<open>Only the options that the source applies have an effect; buffer sizes are only logged.\<close>

definition apply_config :: "('s, 'l) tcp_lib \<Rightarrow> tcp_transport \<Rightarrow> 's \<Rightarrow> 's transport_result" where
  "apply_config lib tr stream =
     res_bind (of_io (io_failed ''Failed to set TCP nodelay'')
         (tl_set_nodelay lib (tc_nodelay (tt_config tr)) stream)) (\<lambda>stream.
     res_bind (of_io transport_from_io (tl_peer_addr lib stream)) (\<lambda>_.
       case tc_keepalive (tt_config tr) of
         Some keepalive \<Rightarrow>
           res_bind (of_io transport_from_io (tl_into_std lib stream)) (\<lambda>socket.
           res_bind (of_io (io_failed ''Failed to set TCP keepalive'')
               (tl_set_keepalive lib keepalive (from_secs TCP_KEEP_ALIVE_INTERVAL_SECS) socket)) (\<lambda>socket.
           of_io transport_from_io (tl_from_std lib socket)))
       | None \<Rightarrow> Ok stream))"

section \<open>Streams\<close>

record 's tcp_stream =
  ts_stream :: 's
  ts_info :: connection_info
  ts_timeouts :: connection_timeouts

definition tcp_stream_new ::
  "('s, 'l) tcp_lib \<Rightarrow> 's \<Rightarrow> string \<Rightarrow> string \<Rightarrow> connection_timeouts \<Rightarrow> 's tcp_stream" where
  "tcp_stream_new lib stream local_addr remote_addr timeouts =
     \<lparr>ts_stream = stream,
      ts_info = \<lparr>ci_transport_type = ''tcp'', ci_local_addr = Some local_addr,
        ci_remote_addr = Some remote_addr, ci_metadata = fmempty, ci_established_at = tl_now lib\<rparr>,
      ts_timeouts = timeouts\<rparr>"

definition tcp_is_connected :: "'s tcp_stream \<Rightarrow> bool" where
  "tcp_is_connected s = True"

definition tcp_timeouts :: "'s tcp_stream \<Rightarrow> connection_timeouts" where
  "tcp_timeouts s = ts_timeouts s"

definition tcp_connection_info :: "'s tcp_stream \<Rightarrow> connection_info" where
  "tcp_connection_info s = ts_info s"

text \<open>Sequencing of an awaited operation and the code after it.\<close>

definition await ::
  "(io_error \<Rightarrow> transport_error) \<Rightarrow> 's tcp_stream \<Rightarrow> 's \<times> (io_error + 'a) wait \<Rightarrow>
   ('s tcp_stream \<Rightarrow> 'a \<Rightarrow> 's tcp_stream \<times> 'b transport_result wait) \<Rightarrow>
   's tcp_stream \<times> 'b transport_result wait" where
  "await g s op cont =
     (case op of
        (s', Pending) \<Rightarrow> (s\<lparr>ts_stream := s'\<rparr>, Pending)
      | (s', Ready (Inl e)) \<Rightarrow> (s\<lparr>ts_stream := s'\<rparr>, Ready (Err (g e)))
      | (s', Ready (Inr x)) \<Rightarrow> cont (s\<lparr>ts_stream := s'\<rparr>) x)"

definition tcp_close ::
  "('s, 'l) tcp_lib \<Rightarrow> 's tcp_stream \<Rightarrow> 's tcp_stream \<times> unit transport_result wait" where
  "tcp_close lib s =
     await (io_failed ''Failed to shut down TCP stream'') s (tl_shutdown lib (ts_stream s))
       (\<lambda>s _. (s, Ready (Ok ())))"

text \<open>
  The frame length is compared with the number of seconds of the read timeout, as the
  source does; \<open>as usize\<close> of a \<open>u64\<close> changes nothing on a 64-bit target.
\<close>

definition read_limit :: "'s tcp_stream \<Rightarrow> usize" where
  "read_limit s =
     as_secs (case ct_read_timeout (tcp_timeouts s) of
        Some t \<Rightarrow> t
      | None \<Rightarrow> from_secs TCP_CONNECTION_TIMEOUT_SECS)"

definition read_frame_internal ::
  "('s, 'l) tcp_lib \<Rightarrow> 's tcp_stream \<Rightarrow> 's tcp_stream \<times> bytes transport_result wait" where
  "read_frame_internal lib s =
     await (io_failed ''Failed to read frame length'') s (tl_read_exact lib 4 (ts_stream s))
       (\<lambda>s length_buf.
          let len = ucast (u32_from_be_bytes length_buf) :: usize in
          if len > read_limit s then
            (s, Ready (Err (T_MessageTooLarge len (read_limit s))))
          else
            await (io_failed (''Failed to read frame data of length '' @ display_nat (unat len))) s
              (tl_read_exact lib (unat len) (ts_stream s)) (\<lambda>s data. (s, Ready (Ok data))))"

definition write_frame_internal ::
  "('s, 'l) tcp_lib \<Rightarrow> 's tcp_stream \<Rightarrow> bytes \<Rightarrow> 's tcp_stream \<times> unit transport_result wait" where
  "write_frame_internal lib s data =
     (if usize_len data > TCP_MAX_MESSAGE_SIZE then
        (s, Ready (Err (T_MessageTooLarge (usize_len data) TCP_MAX_MESSAGE_SIZE)))
      else
        let buf = u32_to_be_bytes (ucast (usize_len data)) @ data in
        await (io_failed (''Failed to write frame of length '' @ display_nat (length data))) s
          (tl_write_all lib buf (ts_stream s))
          (\<lambda>s _. await (io_failed ''Failed to flush TCP stream'') s (tl_flush lib (ts_stream s))
             (\<lambda>s _. (s, Ready (Ok ())))))"

text \<open>\<open>time::timeout\<close>: the deadline turns an operation still pending into an error.\<close>

definition with_deadline ::
  "duration option \<Rightarrow> 's tcp_stream \<times> 'a transport_result wait \<Rightarrow> 's tcp_stream \<times> 'a transport_result wait"
where
  "with_deadline deadline r =
     (case (deadline, r) of
        (Some t, (s, Pending)) \<Rightarrow> (s, Ready (Err (T_Timeout t)))
      | _ \<Rightarrow> r)"

definition read_frame ::
  "('s, 'l) tcp_lib \<Rightarrow> 's tcp_stream \<Rightarrow> 's tcp_stream \<times> bytes transport_result wait" where
  "read_frame lib s = with_deadline (ct_read_timeout (ts_timeouts s)) (read_frame_internal lib s)"

definition write_frame ::
  "('s, 'l) tcp_lib \<Rightarrow> 's tcp_stream \<Rightarrow> bytes \<Rightarrow> 's tcp_stream \<times> unit transport_result wait" where
  "write_frame lib s data =
     with_deadline (ct_write_timeout (ts_timeouts s)) (write_frame_internal lib s data)"

section \<open>The stream as an object\<close>

definition tcp_get_stream :: "'s tcp_stream \<Rightarrow> 's" where
  "tcp_get_stream s = ts_stream s"

text \<open>\<open>get_stream_mut\<close> gives access to the stream in place: what the caller does to it is done.\<close>

definition tcp_get_stream_mut :: "('s \<Rightarrow> 's \<times> 'a) \<Rightarrow> 's tcp_stream \<Rightarrow> 's tcp_stream \<times> 'a" where
  "tcp_get_stream_mut = on_field ts_stream ts_stream_update"

definition tcp_poll_read ::
  "'s async_io \<Rightarrow> 's tcp_stream \<Rightarrow> read_buf \<Rightarrow> 's tcp_stream \<times> (read_buf, io_error) res wait" where
  "tcp_poll_read io s buf = on_field ts_stream ts_stream_update (\<lambda>x. ai_poll_read io x buf) s"

definition tcp_poll_write ::
  "'s async_io \<Rightarrow> 's tcp_stream \<Rightarrow> bytes \<Rightarrow> 's tcp_stream \<times> (usize, io_error) res wait" where
  "tcp_poll_write io s buf = on_field ts_stream ts_stream_update (\<lambda>x. ai_poll_write io x buf) s"

definition tcp_poll_flush :: "'s async_io \<Rightarrow> 's tcp_stream \<Rightarrow> 's tcp_stream \<times> (unit, io_error) res wait" where
  "tcp_poll_flush io = on_field ts_stream ts_stream_update (ai_poll_flush io)"

definition tcp_poll_shutdown :: "'s async_io \<Rightarrow> 's tcp_stream \<Rightarrow> 's tcp_stream \<times> (unit, io_error) res wait" where
  "tcp_poll_shutdown io = on_field ts_stream ts_stream_update (ai_poll_shutdown io)"

definition tcp_ops :: "('s, 'l) tcp_lib \<Rightarrow> 's async_io \<Rightarrow> 's tcp_stream stream_ops" where
  "tcp_ops lib io =
     \<lparr>so_io = \<lparr>ai_poll_read = tcp_poll_read io, ai_poll_write = tcp_poll_write io,
        ai_poll_flush = tcp_poll_flush io, ai_poll_shutdown = tcp_poll_shutdown io\<rparr>,
      so_connection_info = tcp_connection_info, so_is_connected = tcp_is_connected,
      so_close = tcp_close lib, so_timeouts = tcp_timeouts\<rparr>"

lemmas tcp_stream_defs =
  tcp_ops_def tcp_poll_read_def tcp_poll_write_def tcp_poll_flush_def tcp_poll_shutdown_def
  tcp_close_def tcp_timeouts_def tcp_connection_info_def await_def on_field_def

lemma tcp_identity: "so_connection_info (tcp_ops lib io) = ts_info" "so_timeouts (tcp_ops lib io) = ts_timeouts"
  by (simp_all add: tcp_stream_defs fun_eq_iff)

lemma tcp_perform_keeps:
  "perform (tcp_ops lib io) c s = (s', a) \<Longrightarrow> ts_info s' = ts_info s \<and> ts_timeouts s' = ts_timeouts s"
  by (cases c) (auto simp: tcp_stream_defs split: prod.splits wait.splits sum.splits)

interpretation tcp_object: transport_stream "tcp_ops lib io" for lib :: "('s, 'l) tcp_lib" and io
  by unfold_locales (simp_all add: tcp_identity tcp_perform_keeps)

section \<open>Connecting and listening\<close>

text \<open>The checks on the URL, which \<open>connect\<close> and \<open>listen\<close> make in the same words.\<close>

definition tcp_address :: "('s, 'l) tcp_lib \<Rightarrow> string \<Rightarrow> string transport_result" where
  "tcp_address lib u =
     res_bind (parse_url_with (tl_url_parse lib) u) (\<lambda>parsed.
       if url_scheme parsed \<noteq> ''tcp'' then
         Err (T_InvalidUrl (''Expected tcp:// scheme, got '' @ url_scheme parsed @ ''://''))
       else
         (case url_host_str parsed of
            None \<Rightarrow> Err (T_InvalidUrl ''Missing host'')
          | Some host \<Rightarrow>
              (case url_port parsed of
                 None \<Rightarrow> Err (T_InvalidUrl ''Missing port'')
               | Some port \<Rightarrow> Ok (host @ '':'' @ display_nat (unat port)))))"

definition tcp_connect ::
  "('s, 'l) tcp_lib \<Rightarrow> tcp_transport \<Rightarrow> string \<Rightarrow> 's tcp_stream transport_result wait" where
  "tcp_connect lib tr u =
     (case tcp_address lib u of
        Err e \<Rightarrow> Ready (Err e)
      | Panic \<Rightarrow> Ready Panic
      | Ok addr \<Rightarrow>
          (case tl_connect lib addr of
             Pending \<Rightarrow>
               (case tc_connect_timeout (tt_config tr) of
                  Some t \<Rightarrow> Ready (Err (T_Timeout t))
                | None \<Rightarrow> Pending)
           | Ready (Inl e) \<Rightarrow>
               Ready (Err (T_ConnectionFailure
                 (''Failed to connect to '' @ addr @ '': '' @ io_text e)))
           | Ready (Inr stream) \<Rightarrow>
               Ready
                 (res_bind (of_io transport_from_io (tl_local_addr lib stream)) (\<lambda>local_addr.
                  res_bind (of_io transport_from_io (tl_peer_addr lib stream)) (\<lambda>remote_addr.
                  res_bind (apply_config lib tr stream) (\<lambda>stream.
                  Ok (tcp_stream_new lib stream local_addr remote_addr
                       \<lparr>ct_read_timeout = tc_read_timeout (tt_config tr),
                        ct_write_timeout = tc_write_timeout (tt_config tr),
                        ct_connect_timeout = tc_connect_timeout (tt_config tr)\<rparr>)))))))"

record 'l tcp_listener =
  tls_listener :: 'l
  tls_transport :: tcp_transport

definition tcp_listen ::
  "('s, 'l) tcp_lib \<Rightarrow> tcp_transport \<Rightarrow> string \<Rightarrow> 'l tcp_listener transport_result" where
  "tcp_listen lib tr u =
     res_bind (tcp_address lib u) (\<lambda>addr.
     res_bind (of_io (io_failed (''Failed to bind to '' @ addr)) (tl_bind lib addr)) (\<lambda>l.
     Ok \<lparr>tls_listener = l, tls_transport = tr\<rparr>))"

definition tcp_accept ::
  "('s, 'l) tcp_lib \<Rightarrow> 'l tcp_listener \<Rightarrow> 's tcp_stream transport_result" where
  "tcp_accept lib ls =
     res_bind (of_io (io_failed ''Failed to accept TCP connection'') (tl_accept lib (tls_listener ls)))
       (\<lambda>(stream, remote_addr).
     res_bind (of_io (io_failed ''Failed to get local address'') (tl_local_addr lib stream)) (\<lambda>local_addr.
     res_bind (apply_config lib (tls_transport ls) stream) (\<lambda>stream.
     Ok (tcp_stream_new lib stream local_addr remote_addr
          \<lparr>ct_read_timeout = tc_read_timeout (tt_config (tls_transport ls)),
           ct_write_timeout = tc_write_timeout (tt_config (tls_transport ls)),
           ct_connect_timeout = None\<rparr>))))"

definition tcp_listener_local_addr ::
  "('s, 'l) tcp_lib \<Rightarrow> 'l tcp_listener \<Rightarrow> string transport_result" where
  "tcp_listener_local_addr lib ls = of_io transport_from_io (tl_listener_addr lib (tls_listener ls))"

definition tcp_listener_close :: "'l tcp_listener \<Rightarrow> unit transport_result" where
  "tcp_listener_close ls = Ok ()"

definition tcp_transport_type :: string where
  "tcp_transport_type = ''tcp''"

definition tcp_supports_url :: "string \<Rightarrow> bool" where
  "tcp_supports_url u = starts_with u ''tcp://''"

interpretation tcp_scheme: scheme_transport tcp_supports_url "[''tcp'']"
  by unfold_locales (simp_all add: tcp_supports_url_def)

section \<open>The bytes on a socket\<close>

text \<open>
  \<open>inn\<close> gives the bytes a socket delivers, \<open>out\<close> those it has taken. A read that completes
  takes exactly its bytes off the front, and it completes when they are there; one that
  fails or is dropped may have taken some (\<open>read_exact\<close> is documented not to be
  cancellation safe); a completed write appends its bytes.
\<close>

definition tcp_io_laws :: "('s, 'l) tcp_lib \<Rightarrow> ('s \<Rightarrow> bytes) \<Rightarrow> ('s \<Rightarrow> bytes) \<Rightarrow> bool" where
  "tcp_io_laws lib inn out \<longleftrightarrow>
     (\<forall>n s. n \<le> length (inn s) \<longrightarrow>
        (\<exists>s'. tl_read_exact lib n s = (s', Ready (Inr (take n (inn s)))) \<and>
           inn s' = drop n (inn s) \<and> out s' = out s)) \<and>
     (\<forall>n s s' r. length (inn s) < n \<longrightarrow> tl_read_exact lib n s = (s', r) \<longrightarrow>
        (\<forall>bs. r \<noteq> Ready (Inr bs)) \<and> (\<exists>lost. inn s = lost @ inn s') \<and> out s' = out s) \<and>
     (\<forall>bs s s'. tl_write_all lib bs s = (s', Ready (Inr ())) \<longrightarrow>
        out s' = out s @ bs \<and> inn s' = inn s) \<and>
     (\<forall>s s' r. tl_flush lib s = (s', r) \<longrightarrow> out s' = out s \<and> inn s' = inn s)"

lemma read_exact_ready:
  assumes "tcp_io_laws lib inn out" and "n \<le> length (inn s)"
  obtains s' where "tl_read_exact lib n s = (s', Ready (Inr (take n (inn s))))"
    "inn s' = drop n (inn s)" "out s' = out s"
  using assms unfolding tcp_io_laws_def by blast

lemma write_all_done:
  assumes "tcp_io_laws lib inn out" and "tl_write_all lib bs s = (s', Ready (Inr ()))"
  shows "out s' = out s @ bs" and "inn s' = inn s"
  using assms unfolding tcp_io_laws_def by blast+

lemma flush_keeps:
  assumes "tcp_io_laws lib inn out" and "tl_flush lib s = (s', r)"
  shows "out s' = out s" and "inn s' = inn s"
  using assms unfolding tcp_io_laws_def by blast+

lemma await_Ready:
  "await g s (s', Ready (Inr x)) cont = cont (s\<lparr>ts_stream := s'\<rparr>) x"
  by (simp add: await_def)

definition frame_prefix :: "bytes \<Rightarrow> bytes" where
  "frame_prefix data = u32_to_be_bytes (of_nat (length data))"

lemma frame_prefix_read [simp]:
  "length (frame_prefix data) = 4"
  "length data < 2 ^ 32 \<Longrightarrow> unat (ucast (u32_from_be_bytes (frame_prefix data)) :: usize) = length data"
  by (simp_all add: frame_prefix_def unat_of_nat)

lemma ucast_of_nat_u64_u32: "(ucast (of_nat n :: u64) :: u32) = of_nat n"
  by (rule word_unat_eq_iff [THEN iffD2])
    (simp add: unsigned_ucast_eq unat_of_nat take_bit_eq_mod mod_mod_cancel)

lemma read_frame_internal_cases:
  assumes "tcp_io_laws lib inn out" and "length data < 2 ^ 32"
    and "inn (ts_stream s) = frame_prefix data @ data @ rest"
  obtains s' where "inn s' = rest" "out s' = out (ts_stream s)"
      "length data \<le> unat (read_limit s)"
      "read_frame_internal lib s = (s\<lparr>ts_stream := s'\<rparr>, Ready (Ok data))"
  | s' where "inn s' = data @ rest" "out s' = out (ts_stream s)"
      "unat (read_limit s) < length data"
      "read_frame_internal lib s =
        (s\<lparr>ts_stream := s'\<rparr>, Ready (Err (T_MessageTooLarge (of_nat (length data)) (read_limit s))))"
proof -
  let ?len = "ucast (u32_from_be_bytes (frame_prefix data)) :: usize"
  have len: "unat ?len = length data"
    by (rule frame_prefix_read(2) [OF assms(2)])
  then have lenw: "?len = of_nat (length data)"
    using assms(2) by (intro word_unat_eq_iff [THEN iffD2]) (simp add: unat_of_nat)
  obtain s1 where s1: "tl_read_exact lib 4 (ts_stream s) = (s1, Ready (Inr (frame_prefix data)))"
    "inn s1 = data @ rest" "out s1 = out (ts_stream s)"
    by (rule read_exact_ready [OF assms(1), of 4 "ts_stream s"]) (simp_all add: assms(3))
  have limit: "read_limit (s\<lparr>ts_stream := s1\<rparr>) = read_limit s"
    by (simp add: read_limit_def tcp_timeouts_def)
  have run: "read_frame_internal lib s =
      (if of_nat (length data) > read_limit s then
         (s\<lparr>ts_stream := s1\<rparr>, Ready (Err (T_MessageTooLarge (of_nat (length data)) (read_limit s))))
       else await (io_failed (''Failed to read frame data of length '' @ display_nat (length data)))
         (s\<lparr>ts_stream := s1\<rparr>) (tl_read_exact lib (length data) s1) (\<lambda>s data. (s, Ready (Ok data))))"
    unfolding read_frame_internal_def s1(1) await_Ready Let_def limit lenw len [unfolded lenw]
    by simp
  have less: "of_nat (length data) > read_limit s \<longleftrightarrow> unat (read_limit s) < length data"
    using len unfolding lenw by (simp add: word_less_nat_alt)
  show thesis
  proof (cases "unat (read_limit s) < length data")
    case True
    with that(2) [of s1] s1 less show thesis
      by (simp add: run)
  next
    case False
    obtain s2 where s2: "tl_read_exact lib (length data) s1 = (s2, Ready (Inr data))"
      "inn s2 = rest" "out s2 = out s1"
      by (rule read_exact_ready [OF assms(1), of "length data" s1]) (simp_all add: s1(2))
    with that(1) [of s2] s1 False less show thesis
      by (simp add: run await_Ready)
  qed
qed

lemma read_frame_at:
  assumes "tcp_io_laws lib inn out" and "length data < 2 ^ 32"
    and "inn (ts_stream s) = frame_prefix data @ data @ rest"
    and "ct_read_timeout (ts_timeouts s) = Some (from_secs secs)" and "secs < 2 ^ 64"
  obtains s' where "length data \<le> secs" "read_frame lib s = (s\<lparr>ts_stream := s'\<rparr>, Ready (Ok data))"
      "inn s' = rest"
  | s' where "secs < length data" "inn s' = data @ rest"
      "read_frame lib s =
        (s\<lparr>ts_stream := s'\<rparr>, Ready (Err (T_MessageTooLarge (of_nat (length data)) (of_nat secs))))"
proof -
  have limit: "read_limit s = of_nat secs"
    using assms(4) by (simp add: read_limit_def tcp_timeouts_def)
  have secs: "unat (of_nat secs :: u64) = secs"
    using assms(5) by (rule unat_of_nat_u64)
  have ready: "read_frame lib s = (t, Ready x)" if "read_frame_internal lib s = (t, Ready x)" for t x
    using that by (simp add: read_frame_def with_deadline_def split: option.splits)
  show thesis
    by (rule read_frame_internal_cases [OF assms(1-3)]) (auto simp: limit secs dest!: ready intro: that)
qed

lemma write_frame_OkD:
  assumes "tcp_io_laws lib inn out" and "rust_sized data"
    and "write_frame lib s data = (s', Ready (Ok ()))"
  shows "length data \<le> 2 ^ 20" and "out (ts_stream s') = out (ts_stream s) @ frame_prefix data @ data"
    and "inn (ts_stream s') = inn (ts_stream s)"
proof -
  have inner: "write_frame_internal lib s data = (s', Ready (Ok ()))"
    using assms(3) by (auto simp: write_frame_def with_deadline_def split: option.splits prod.splits wait.splits)
  then show "length data \<le> 2 ^ 20"
    using assms(2) by (auto simp: write_frame_internal_def word_less_nat_alt TCP_MAX_MESSAGE_SIZE_def split: if_splits)
  have pre: "u32_to_be_bytes (ucast (usize_len data)) = frame_prefix data"
    by (simp add: frame_prefix_def usize_len_def ucast_of_nat_u64_u32)
  obtain s1 s2 where w: "tl_write_all lib (frame_prefix data @ data) (ts_stream s) = (s1, Ready (Inr ()))"
    and f: "tl_flush lib s1 = (s2, Ready (Inr ()))" and s': "s' = s\<lparr>ts_stream := s2\<rparr>"
    using inner
    by (auto simp: write_frame_internal_def await_def Let_def pre split: if_splits prod.splits wait.splits sum.splits)
  show "out (ts_stream s') = out (ts_stream s) @ frame_prefix data @ data"
    and "inn (ts_stream s') = inn (ts_stream s)"
    using write_all_done [OF assms(1) w] flush_keeps [OF assms(1) f] s' by simp_all
qed

text \<open>Sending frames one after the other, and receiving as many.\<close>

fun write_frames ::
  "('s, 'l) tcp_lib \<Rightarrow> 's tcp_stream \<Rightarrow> bytes list \<Rightarrow> 's tcp_stream \<times> unit transport_result wait" where
  "write_frames lib s [] = (s, Ready (Ok ()))"
| "write_frames lib s (f # fs) =
     (case write_frame lib s f of
        (s', Ready (Ok _)) \<Rightarrow> write_frames lib s' fs
      | stop \<Rightarrow> stop)"

fun read_frames ::
  "('s, 'l) tcp_lib \<Rightarrow> 's tcp_stream \<Rightarrow> nat \<Rightarrow> 's tcp_stream \<times> bytes list \<times> unit transport_result wait" where
  "read_frames lib s 0 = (s, [], Ready (Ok ()))"
| "read_frames lib s (Suc n) =
     (case read_frame lib s of
        (s', Ready (Ok f)) \<Rightarrow> (case read_frames lib s' n of (s'', fs, r) \<Rightarrow> (s'', f # fs, r))
      | (s', Ready (Err e)) \<Rightarrow> (s', [], Ready (Err e))
      | (s', Ready Panic) \<Rightarrow> (s', [], Ready Panic)
      | (s', Pending) \<Rightarrow> (s', [], Pending))"

abbreviation on_wire :: "bytes list \<Rightarrow> bytes" where
  "on_wire fs \<equiv> concat (map (\<lambda>f. frame_prefix f @ f) fs)"

lemma write_frames_OkD:
  assumes "tcp_io_laws lib inn out" and "\<forall>f \<in> set fs. rust_sized f"
    and "write_frames lib s fs = (s', Ready (Ok ()))"
  shows "(\<forall>f \<in> set fs. length f \<le> 2 ^ 20) \<and> out (ts_stream s') = out (ts_stream s) @ on_wire fs"
  using assms(2,3)
proof (induction fs arbitrary: s)
  case (Cons f fs)
  then obtain t where "write_frame lib s f = (t, Ready (Ok ()))"
    and "write_frames lib t fs = (s', Ready (Ok ()))"
    by (auto split: prod.splits wait.splits res.splits)
  then show ?case
    using Cons.IH [of t] Cons.prems(1) write_frame_OkD [OF assms(1), of f s t] by simp
qed simp

lemma read_frames_on_wire:
  assumes "tcp_io_laws lib inn out" and "secs < 2 ^ 64"
    and "\<forall>f \<in> set fs. length f < 2 ^ 32" and "inn (ts_stream s) = on_wire fs @ rest"
    and "ct_read_timeout (ts_timeouts s) = Some (from_secs secs)"
    and "read_frames lib s (length fs) = (s', got, r)"
  shows "got = takeWhile (\<lambda>f. length f \<le> secs) fs \<and> (r = Ready (Ok ()) \<longleftrightarrow> got = fs) \<and>
    (got = fs \<longrightarrow> inn (ts_stream s') = rest)"
  using assms(3-6)
proof (induction fs arbitrary: s got)
  case (Cons f fs)
  have wire: "inn (ts_stream s) = frame_prefix f @ f @ on_wire fs @ rest"
    using Cons.prems(2) by simp
  show ?case
  proof (rule read_frame_at [OF assms(1) _ wire Cons.prems(3) assms(2)])
    show "length f < 2 ^ 32"
      using Cons.prems(1) by simp
  next
    fix t
    assume t: "length f \<le> secs" "read_frame lib s = (s\<lparr>ts_stream := t\<rparr>, Ready (Ok f))" "inn t = on_wire fs @ rest"
    then obtain got' where "got = f # got'"
      and "read_frames lib (s\<lparr>ts_stream := t\<rparr>) (length fs) = (s', got', r)"
      using Cons.prems(4) by (auto split: prod.splits)
    then show ?thesis
      using Cons.IH [of "s\<lparr>ts_stream := t\<rparr>" got'] Cons.prems(1,3) t by simp
  next
    fix t
    assume "secs < length f"
      "read_frame lib s =
        (s\<lparr>ts_stream := t\<rparr>, Ready (Err (T_MessageTooLarge (of_nat (length f)) (of_nat secs))))"
    then show ?thesis
      using Cons.prems(4) by auto
  qed
qed simp

section \<open>Properties\<close>

definition demo_tcp_lib :: "(bytes \<times> bytes, unit) tcp_lib" where
  "demo_tcp_lib =
     \<lparr>tl_url_parse = (\<lambda>u. Inl ''unsupported''), tl_now = 0,
      tl_connect = (\<lambda>a. Ready (Inr ([], []))), tl_bind = (\<lambda>a. Inr ()),
      tl_accept = (\<lambda>l. Inr (([], []), ''peer'')), tl_listener_addr = (\<lambda>l. Inr ''here''),
      tl_local_addr = (\<lambda>s. Inr ''here''), tl_peer_addr = (\<lambda>s. Inr ''peer''),
      tl_set_nodelay = (\<lambda>b s. Inr s), tl_into_std = Inr, tl_set_keepalive = (\<lambda>t i s. Inr s),
      tl_from_std = Inr,
      tl_read_exact = (\<lambda>n (i, w). if n \<le> length i then ((drop n i, w), Ready (Inr (take n i)))
         else (([], w), Pending)),
      tl_write_all = (\<lambda>bs (i, w). ((i, w @ bs), Ready (Inr ()))),
      tl_flush = (\<lambda>s. (s, Ready (Inr ()))), tl_shutdown = (\<lambda>s. (s, Ready (Inr ())))\<rparr>"

lemma demo_tcp_laws: "tcp_io_laws demo_tcp_lib fst snd"
  by (auto simp: tcp_io_laws_def demo_tcp_lib_def split: if_splits)

definition demo_tcp_stream :: "bytes \<Rightarrow> (bytes \<times> bytes) tcp_stream" where
  "demo_tcp_stream bs =
     tcp_stream_new demo_tcp_lib (bs, []) ''here'' ''peer''
       \<lparr>ct_read_timeout = Some (from_secs 30), ct_write_timeout = Some (from_secs 30),
        ct_connect_timeout = None\<rparr>"

text \<open>
  What writing a frame puts on the wire: when the write reports success, exactly the
  four-byte big-endian length and the data have been written; data over 1 MiB is refused
  before anything is written; a write that is not complete at its deadline is a timeout.
\<close>

theorem tcp_write_frame_outcome:
  assumes "tcp_io_laws lib inn out" and "rust_sized data"
  shows "(write_frame lib s data = (s', Ready (Ok ())) \<longrightarrow>
      length data \<le> 2 ^ 20 \<and> out (ts_stream s') = out (ts_stream s) @ frame_prefix data @ data \<and>
      inn (ts_stream s') = inn (ts_stream s)) \<and>
    (2 ^ 20 < length data \<longrightarrow>
      write_frame lib s data = (s, Ready (Err (T_MessageTooLarge (usize_len data) TCP_MAX_MESSAGE_SIZE)))) \<and>
    (ct_write_timeout (ts_timeouts s) = Some t \<longrightarrow> snd (write_frame lib s data) \<noteq> Pending)"
proof (intro conjI impI)
  have big: "usize_len data > TCP_MAX_MESSAGE_SIZE \<longleftrightarrow> 2 ^ 20 < length data"
    using assms(2) by (simp add: word_less_nat_alt TCP_MAX_MESSAGE_SIZE_def)
  show "write_frame lib s data = (s, Ready (Err (T_MessageTooLarge (usize_len data) TCP_MAX_MESSAGE_SIZE)))"
    if "2 ^ 20 < length data"
    using that big by (simp add: write_frame_def with_deadline_def write_frame_internal_def split: option.splits)
  assume "write_frame lib s data = (s', Ready (Ok ()))"
  from write_frame_OkD [OF assms this] show "length data \<le> 2 ^ 20"
    and "out (ts_stream s') = out (ts_stream s) @ frame_prefix data @ data"
    and "inn (ts_stream s') = inn (ts_stream s)" .
next
  assume "ct_write_timeout (ts_timeouts s) = Some t"
  then show "snd (write_frame lib s data) \<noteq> Pending"
    by (auto simp: write_frame_def with_deadline_def split: prod.splits wait.splits)
qed

theorem tcp_write_frame_outcome_witness:
  "snd (ts_stream (fst (write_frame demo_tcp_lib (demo_tcp_stream []) [7, 8]))) =
   frame_prefix [7, 8] @ [7, 8]"
proof -
  let ?s = "fst (write_frame demo_tcp_lib (demo_tcp_stream []) [7, 8])"
  have "write_frame demo_tcp_lib (demo_tcp_stream []) [7, 8] = (?s, Ready (Ok ()))"
    by (simp add: write_frame_def write_frame_internal_def with_deadline_def await_def Let_def
        demo_tcp_lib_def demo_tcp_stream_def tcp_stream_new_def usize_len_def TCP_MAX_MESSAGE_SIZE_def
        split: option.splits)
  then show ?thesis
    using tcp_write_frame_outcome [OF demo_tcp_laws, of "[7, 8]" "demo_tcp_stream []" ?s]
    by (simp add: rust_sized_def) (simp add: demo_tcp_stream_def tcp_stream_new_def)
qed

text \<open>
  Which frames can be read: a frame that is on the wire is delivered exactly when its
  length is at most the number of seconds of the read timeout (30 in the default
  configuration), because that is what the length is compared with; a longer one, which
  the writer accepts up to 1 MiB, is refused as too large after its length prefix has
  been consumed, so the data bytes are what the next read takes for a length.
\<close>

theorem tcp_read_frame_limit:
  assumes "tcp_io_laws lib inn out" and "length data < 2 ^ 32"
    and "inn (ts_stream s) = frame_prefix data @ data @ rest"
    and "ct_read_timeout (ts_timeouts s) = Some (from_secs secs)" and "secs < 2 ^ 64"
  shows "if length data \<le> secs
    then snd (read_frame lib s) = Ready (Ok data) \<and> inn (ts_stream (fst (read_frame lib s))) = rest
    else snd (read_frame lib s) = Ready (Err (T_MessageTooLarge (of_nat (length data)) (of_nat secs))) \<and>
      inn (ts_stream (fst (read_frame lib s))) = data @ rest"
  by (rule read_frame_at [OF assms]) simp_all

theorem tcp_read_frame_limit_witness:
  "snd (read_frame demo_tcp_lib (demo_tcp_stream (frame_prefix (replicate 31 5) @ replicate 31 5))) =
   Ready (Err (T_MessageTooLarge 31 30))"
  using tcp_read_frame_limit [OF demo_tcp_laws, of "replicate 31 5"
      "demo_tcp_stream (frame_prefix (replicate 31 5) @ replicate 31 5)" "[]" 30]
  by (simp add: demo_tcp_stream_def tcp_stream_new_def)

text \<open>
  C28. A whole conversation over TCP: when one end has written a list of frames and the
  other end finds those bytes on its socket, as many reads deliver the frames in order up
  to the first that is longer than the read timeout has seconds; all of them arrive
  exactly when none is, and then nothing but the bytes behind them is left to read.
\<close>

theorem tcp_frames_delivered:
  assumes "tcp_io_laws lib inn out" and "\<forall>f \<in> set fs. rust_sized f"
    and "write_frames lib a fs = (a', Ready (Ok ()))"
    and "inn (ts_stream b) = drop (length (out (ts_stream a))) (out (ts_stream a')) @ rest"
    and "ct_read_timeout (ts_timeouts b) = Some (from_secs secs)" and "secs < 2 ^ 64"
    and "read_frames lib b (length fs) = (b', got, r)"
  shows "got = takeWhile (\<lambda>f. length f \<le> secs) fs \<and>
    (r = Ready (Ok ()) \<longleftrightarrow> (\<forall>f \<in> set fs. length f \<le> secs)) \<and>
    (r = Ready (Ok ()) \<longrightarrow> inn (ts_stream b') = rest)"
proof -
  have sizes: "\<forall>f \<in> set fs. length f \<le> 2 ^ 20" and wire: "inn (ts_stream b) = on_wire fs @ rest"
    using write_frames_OkD [OF assms(1-3)] assms(4) by simp_all
  have "\<forall>f \<in> set fs. length f < 2 ^ 32"
    using sizes by fastforce
  from read_frames_on_wire [OF assms(1,6) this wire assms(5,7)] show ?thesis
    by (auto simp: takeWhile_eq_all_conv)
qed

theorem tcp_frames_delivered_witness:
  "fst (snd (read_frames demo_tcp_lib (demo_tcp_stream (on_wire [[1, 2], replicate 31 5])) 2)) = [[1, 2]]"
proof -
  let ?fs = "[[1, 2], replicate 31 5] :: bytes list"
  let ?a = "fst (write_frames demo_tcp_lib (demo_tcp_stream []) ?fs)"
  have wrote: "write_frame demo_tcp_lib s f = (s\<lparr>ts_stream := (fst (ts_stream s), snd (ts_stream s) @ frame_prefix f @ f)\<rparr>, Ready (Ok ()))"
    if "length f < 100" for s f
    using that by (cases "ts_stream s")
      (simp add: write_frame_def write_frame_internal_def with_deadline_def await_def Let_def usize_len_def
        demo_tcp_lib_def TCP_MAX_MESSAGE_SIZE_def frame_prefix_def ucast_of_nat_u64_u32
        word_less_nat_alt unat_of_nat split: option.splits)
  have "write_frames demo_tcp_lib (demo_tcp_stream []) ?fs = (?a, Ready (Ok ()))"
    and "snd (ts_stream ?a) = on_wire ?fs"
    by (simp_all add: wrote) (simp add: demo_tcp_stream_def tcp_stream_new_def)
  note sent = this
  have stream: "ts_stream (demo_tcp_stream bs) = (bs, [])"
    "ct_read_timeout (ts_timeouts (demo_tcp_stream bs)) = Some (from_secs 30)" for bs
    by (simp_all add: demo_tcp_stream_def tcp_stream_new_def)
  obtain b got r where run: "read_frames demo_tcp_lib (demo_tcp_stream (on_wire ?fs)) (length ?fs) = (b, got, r)"
    by (cases "read_frames demo_tcp_lib (demo_tcp_stream (on_wire ?fs)) (length ?fs)")
  have "got = takeWhile (\<lambda>f. length f \<le> 30) ?fs"
    using tcp_frames_delivered [OF demo_tcp_laws _ sent(1) _ stream(2) _ run, where rest = "[]"] sent(2)
    by (simp only: stream(1) fst_conv snd_conv) (simp add: rust_sized_def)
  with run show ?thesis
    by (simp only: list.size) (simp add: numeral_2_eq_2 del: read_frames.simps)
qed

end
