(* ===== verification/Ipc_Transport.thy ===== *)
theory Ipc_Transport
  imports Stream_Objects
begin

text \<open>
  The IPC transport of \<open>ipc.rs\<close> on a Unix target (\<open>ipc/unix.rs\<close>): the socket path a URL
  names, connecting, and the listener with the files it removes and creates. The URL
  parser and the file system are parameters.
\<close>

section \<open>Parameters\<close>

text \<open>
  The file system and the Unix sockets, over a state \<open>'w\<close>: \<open>Path::exists\<close>,
  \<open>remove_file\<close>, \<open>Path::parent\<close>, \<open>create_dir_all\<close>, \<open>UnixListener::bind\<close>,
  \<open>UnixStream::connect\<close>, and one \<open>accept\<close> and \<open>shutdown\<close>.
\<close>

type_synonym path = string

record ('w, 's, 'l) ipc_lib =
  il_url_parse :: url_parser
  il_now :: instant
  il_exists :: "'w \<Rightarrow> path \<Rightarrow> bool"
  il_remove_file :: "path \<Rightarrow> 'w \<Rightarrow> 'w \<times> (io_error + unit)"
  il_parent :: "path \<Rightarrow> path option"
  il_create_dir_all :: "path \<Rightarrow> 'w \<Rightarrow> 'w \<times> (io_error + unit)"
  il_bind :: "path \<Rightarrow> 'w \<Rightarrow> 'w \<times> (io_error + 'l)"
  il_connect :: "path \<Rightarrow> 'w \<Rightarrow> 'w \<times> (io_error + 's)"
  il_accept :: "'l \<Rightarrow> 'w \<Rightarrow> 'w \<times> (io_error + 's)"
  il_shutdown :: "'s \<Rightarrow> 's \<times> (io_error + unit)"

section \<open>The model\<close>

record ipc_config =
  ic_buffer_size :: usize
  ic_backlog :: u32

record ipc_transport =
  it_config :: ipc_config

definition ipc_config_default :: ipc_config where
  "ipc_config_default = \<lparr>ic_buffer_size = 65536, ic_backlog = 128\<rparr>"

definition ipc_new :: ipc_transport where
  "ipc_new = \<lparr>it_config = ipc_config_default\<rparr>"

definition ipc_default :: ipc_transport where
  "ipc_default = ipc_new"

definition ipc_with_config :: "ipc_config \<Rightarrow> ipc_transport" where
  "ipc_with_config config = \<lparr>it_config = config\<rparr>"

definition normalize_path :: "string \<Rightarrow> path" where
  "normalize_path p = (if starts_with p ''/'' then p else ''/tmp/'' @ p)"

text \<open>The platform normalises the path last.\<close>

definition parse_path_on :: "(string \<Rightarrow> path) \<Rightarrow> url_parser \<Rightarrow> string \<Rightarrow> path transport_result" where
  "parse_path_on final_path parse u =
     res_bind (parse_url_with parse u) (\<lambda>parsed.
       if url_scheme parsed \<noteq> ''ipc'' then
         Err (T_InvalidUrl (''Expected ipc:// scheme, got '' @ url_scheme parsed @ ''://''))
       else
         let path_str = (case url_host_str parsed of
                None \<Rightarrow> url_path parsed
              | Some host \<Rightarrow> if host = [] then url_path parsed else host @ url_path parsed) in
         if path_str = [] then Err (T_InvalidUrl ''Missing path in IPC URL'')
         else
           let normalized_path = (case strip_prefix path_str ''/'' of
                  None \<Rightarrow> path_str
                | Some rest \<Rightarrow> rest)
           in Ok (final_path normalized_path))"

definition ipc_parse_path :: "url_parser \<Rightarrow> string \<Rightarrow> path transport_result" where
  "ipc_parse_path = parse_path_on normalize_path"

record 's ipc_stream =
  is_inner :: 's
  is_info :: connection_info
  is_timeouts :: connection_timeouts

definition ipc_stream_new :: "instant \<Rightarrow> 's \<Rightarrow> path \<Rightarrow> 's ipc_stream" where
  "ipc_stream_new now inner p =
     \<lparr>is_inner = inner,
      is_info = \<lparr>ci_transport_type = ''ipc'', ci_local_addr = Some p, ci_remote_addr = None,
        ci_metadata = fmempty, ci_established_at = now\<rparr>,
      is_timeouts = timeouts_default\<rparr>"

definition ipc_is_connected :: "'s ipc_stream \<Rightarrow> bool" where
  "ipc_is_connected s = True"

definition ipc_stream_close ::
  "('w, 's, 'l) ipc_lib \<Rightarrow> 's ipc_stream \<Rightarrow> 's ipc_stream \<times> unit transport_result" where
  "ipc_stream_close lib s =
     (case il_shutdown lib (is_inner s) of
        (s', r) \<Rightarrow> (s\<lparr>is_inner := s'\<rparr>, of_io transport_from_io r))"

definition ipc_connection_info :: "'s ipc_stream \<Rightarrow> connection_info" where
  "ipc_connection_info s = is_info s"

definition ipc_timeouts :: "'s ipc_stream \<Rightarrow> connection_timeouts" where
  "ipc_timeouts s = is_timeouts s"

definition ipc_poll_read ::
  "'s async_io \<Rightarrow> 's ipc_stream \<Rightarrow> read_buf \<Rightarrow> 's ipc_stream \<times> (read_buf, io_error) res wait" where
  "ipc_poll_read io s buf = on_field is_inner is_inner_update (\<lambda>x. ai_poll_read io x buf) s"

definition ipc_poll_write ::
  "'s async_io \<Rightarrow> 's ipc_stream \<Rightarrow> bytes \<Rightarrow> 's ipc_stream \<times> (usize, io_error) res wait" where
  "ipc_poll_write io s buf = on_field is_inner is_inner_update (\<lambda>x. ai_poll_write io x buf) s"

definition ipc_poll_flush :: "'s async_io \<Rightarrow> 's ipc_stream \<Rightarrow> 's ipc_stream \<times> (unit, io_error) res wait" where
  "ipc_poll_flush io = on_field is_inner is_inner_update (ai_poll_flush io)"

definition ipc_poll_shutdown :: "'s async_io \<Rightarrow> 's ipc_stream \<Rightarrow> 's ipc_stream \<times> (unit, io_error) res wait" where
  "ipc_poll_shutdown io = on_field is_inner is_inner_update (ai_poll_shutdown io)"

definition ipc_ops :: "('w, 's, 'l) ipc_lib \<Rightarrow> 's async_io \<Rightarrow> 's ipc_stream stream_ops" where
  "ipc_ops lib io =
     \<lparr>so_io = \<lparr>ai_poll_read = ipc_poll_read io, ai_poll_write = ipc_poll_write io,
        ai_poll_flush = ipc_poll_flush io, ai_poll_shutdown = ipc_poll_shutdown io\<rparr>,
      so_connection_info = ipc_connection_info, so_is_connected = ipc_is_connected,
      so_close = (\<lambda>s. map_prod id Ready (ipc_stream_close lib s)), so_timeouts = ipc_timeouts\<rparr>"

lemmas ipc_stream_defs =
  ipc_ops_def ipc_poll_read_def ipc_poll_write_def ipc_poll_flush_def ipc_poll_shutdown_def
  ipc_stream_close_def ipc_timeouts_def ipc_connection_info_def on_field_def

lemma ipc_identity: "so_connection_info (ipc_ops lib io) = is_info" "so_timeouts (ipc_ops lib io) = is_timeouts"
  by (simp_all add: ipc_stream_defs fun_eq_iff)

lemma ipc_perform_keeps:
  "perform (ipc_ops lib io) c s = (s', a) \<Longrightarrow> is_info s' = is_info s \<and> is_timeouts s' = is_timeouts s"
  by (cases c) (auto simp: ipc_stream_defs split: prod.splits)

interpretation ipc_object: transport_stream "ipc_ops lib io" for lib :: "('w, 's, 'l) ipc_lib" and io
  by unfold_locales (simp_all add: ipc_identity ipc_perform_keeps)

text \<open>\<open>unix.rs\<close>\<close>

definition unix_connect :: "('w, 's, 'l) ipc_lib \<Rightarrow> path \<Rightarrow> 'w \<Rightarrow> 'w \<times> 's transport_result" where
  "unix_connect lib p w =
     (case il_connect lib p w of
        (w', r) \<Rightarrow> (w', of_io (\<lambda>e. T_ConnectionFailure
          (''Failed to connect to '' @ p @ '': '' @ io_text e)) r))"

definition unix_listen :: "('w, 's, 'l) ipc_lib \<Rightarrow> path \<Rightarrow> 'w \<Rightarrow> 'w \<times> 'l transport_result" where
  "unix_listen lib p w =
     (let w = (if il_exists lib w p then fst (il_remove_file lib p w) else w);
          (w, made) = (case il_parent lib p of
             Some parent \<Rightarrow>
               if \<not> il_exists lib w parent then
                 (case il_create_dir_all lib parent w of (w, r) \<Rightarrow> (w, of_io transport_from_io r))
               else (w, Ok ())
           | None \<Rightarrow> (w, Ok ()))
      in case made of
           Ok _ \<Rightarrow>
             (case il_bind lib p w of
                (w, r) \<Rightarrow> (w, of_io (\<lambda>e. T_ConnectionFailure
                  (''Failed to bind to '' @ p @ '': '' @ io_text e)) r))
         | Err e \<Rightarrow> (w, Err e)
         | Panic \<Rightarrow> (w, Panic))"

definition unix_accept :: "('w, 's, 'l) ipc_lib \<Rightarrow> 'l \<Rightarrow> 'w \<Rightarrow> 'w \<times> 's transport_result" where
  "unix_accept lib l w =
     (case il_accept lib l w of (w', r) \<Rightarrow> (w', of_io transport_from_io r))"

definition unix_close :: "('w, 's, 'l) ipc_lib \<Rightarrow> path \<Rightarrow> 'w \<Rightarrow> 'w" where
  "unix_close lib p w = (if il_exists lib w p then fst (il_remove_file lib p w) else w)"

text \<open>\<open>ipc.rs\<close>: the platform adapter passes on, and the configuration is not used on Unix.\<close>

definition adapter_connect ::
  "('w, 's, 'l) ipc_lib \<Rightarrow> path \<Rightarrow> ipc_config \<Rightarrow> 'w \<Rightarrow> 'w \<times> 's transport_result" where
  "adapter_connect lib p config w = unix_connect lib p w"

definition adapter_listen ::
  "('w, 's, 'l) ipc_lib \<Rightarrow> path \<Rightarrow> ipc_config \<Rightarrow> 'w \<Rightarrow> 'w \<times> 'l transport_result" where
  "adapter_listen lib p config w = unix_listen lib p w"

record 'l ipc_listener =
  il_inner :: 'l
  il_path :: path

definition ipc_connect ::
  "('w, 's, 'l) ipc_lib \<Rightarrow> ipc_transport \<Rightarrow> string \<Rightarrow> 'w \<Rightarrow> 'w \<times> 's ipc_stream transport_result" where
  "ipc_connect lib tr u w =
     (case ipc_parse_path (il_url_parse lib) u of
        Ok p \<Rightarrow>
          (case adapter_connect lib p (it_config tr) w of
             (w', r) \<Rightarrow> (w', res_bind r (\<lambda>s. Ok (ipc_stream_new (il_now lib) s p))))
      | Err e \<Rightarrow> (w, Err e)
      | Panic \<Rightarrow> (w, Panic))"

definition ipc_listen ::
  "('w, 's, 'l) ipc_lib \<Rightarrow> ipc_transport \<Rightarrow> string \<Rightarrow> 'w \<Rightarrow> 'w \<times> 'l ipc_listener transport_result" where
  "ipc_listen lib tr u w =
     (case ipc_parse_path (il_url_parse lib) u of
        Ok p \<Rightarrow>
          (case adapter_listen lib p (it_config tr) w of
             (w', r) \<Rightarrow> (w', res_bind r (\<lambda>l. Ok \<lparr>il_inner = l, il_path = p\<rparr>)))
      | Err e \<Rightarrow> (w, Err e)
      | Panic \<Rightarrow> (w, Panic))"

definition ipc_accept ::
  "('w, 's, 'l) ipc_lib \<Rightarrow> 'l ipc_listener \<Rightarrow> 'w \<Rightarrow> 'w \<times> 's ipc_stream transport_result" where
  "ipc_accept lib ls w =
     (case unix_accept lib (il_inner ls) w of
        (w', r) \<Rightarrow> (w', res_bind r (\<lambda>s. Ok (ipc_stream_new (il_now lib) s (il_path ls)))))"

definition ipc_listener_local_addr :: "'l ipc_listener \<Rightarrow> string transport_result" where
  "ipc_listener_local_addr ls = Ok (il_path ls)"

definition ipc_listener_close ::
  "('w, 's, 'l) ipc_lib \<Rightarrow> 'l ipc_listener \<Rightarrow> 'w \<Rightarrow> 'w \<times> unit transport_result" where
  "ipc_listener_close lib ls w = (unix_close lib (il_path ls) w, Ok ())"

definition ipc_transport_type :: string where
  "ipc_transport_type = ''ipc''"

definition ipc_supports_url :: "string \<Rightarrow> bool" where
  "ipc_supports_url u = starts_with u ''ipc://''"

interpretation ipc_scheme: scheme_transport ipc_supports_url "[''ipc'']"
  by unfold_locales (simp_all add: ipc_supports_url_def)

section \<open>Properties\<close>

text \<open>
  Where a socket ends up: for a URL that the parser reads as \<open>ipc\<close> with an absolute
  path \<open>/p\<close> and no host, the path loses its leading slash before it is normalised, so the
  socket is \<open>/tmp/p\<close> unless \<open>p\<close> itself starts with a slash; a relative URL with host \<open>h\<close>
  and path \<open>q\<close> gives \<open>/tmp/hq\<close>. Hence \<open>ipc:///a/s\<close> and \<open>ipc://a/s\<close> are the same socket, and
  every accepted URL gives an absolute path.
\<close>

theorem ipc_socket_path:
  assumes "parse u = Inr abso" and "url_scheme abso = ''ipc''" and "url_path abso = ''/'' @ p"
    and "url_host_str abso = None \<or> url_host_str abso = Some []"
    and "parse v = Inr relu" and "url_scheme relu = ''ipc''" and "url_host_str relu = Some h"
    and "h \<noteq> []" and "\<not> starts_with h ''/''"
  shows "ipc_parse_path parse u = Ok (if starts_with p ''/'' then p else ''/tmp/'' @ p) \<and>
    ipc_parse_path parse v = Ok (''/tmp/'' @ h @ url_path relu) \<and>
    (\<forall>x q. ipc_parse_path parse x = Ok q \<longrightarrow> starts_with q ''/'')"
proof (intro conjI allI impI)
  show "ipc_parse_path parse u = Ok (if starts_with p ''/'' then p else ''/tmp/'' @ p)"
    using assms(1-4)
    by (auto simp: ipc_parse_path_def parse_path_on_def parse_url_with_def Let_def normalize_path_def
        strip_prefix_def starts_with_def)
  show "ipc_parse_path parse v = Ok (''/tmp/'' @ h @ url_path relu)"
    using assms(5-9)
    by (cases h) (auto simp: ipc_parse_path_def parse_path_on_def parse_url_with_def Let_def normalize_path_def
        strip_prefix_def starts_with_def)
  fix x q
  assume "ipc_parse_path parse x = Ok q"
  then show "starts_with q ''/''"
    by (auto simp: ipc_parse_path_def parse_path_on_def Let_def normalize_path_def outcome starts_with_def
        split: if_splits)
qed

definition demo_ipc_parse :: url_parser where
  "demo_ipc_parse u =
     (if u = ''ipc:///a/s'' then Inr \<lparr>url_scheme = ''ipc'', url_host_str = None, url_port = None,
        url_path = ''/a/s'', url_text = u\<rparr>
      else if u = ''ipc://a/s'' then Inr \<lparr>url_scheme = ''ipc'', url_host_str = Some ''a'',
        url_port = None, url_path = ''/s'', url_text = u\<rparr>
      else Inl ''relative URL without a base'')"

theorem ipc_socket_path_witness:
  "ipc_parse_path demo_ipc_parse ''ipc:///a/s'' = Ok ''/tmp/a/s'' \<and>
   ipc_parse_path demo_ipc_parse ''ipc://a/s'' = Ok ''/tmp/a/s''"
  using ipc_socket_path [of demo_ipc_parse "''ipc:///a/s''" _ "''a/s''" "''ipc://a/s''" _ "''a''"]
  by (auto simp: demo_ipc_parse_def starts_with_def)

text \<open>
  The file system as listening sees it: what is at a path, and what the operations are
  documented to do to it. A socket file leads to the listener that was bound there. Nothing
  is said of when an operation succeeds.
\<close>

datatype 'l fs_entry = SocketFile 'l | RegularFile | Directory

definition fs_laws :: "('w, 's, 'l) ipc_lib \<Rightarrow> ('w \<Rightarrow> path \<Rightarrow> 'l fs_entry option) \<Rightarrow> bool" where
  "fs_laws lib entry \<longleftrightarrow>
     (\<forall>w p. il_exists lib w p \<longleftrightarrow> entry w p \<noteq> None) \<and>
     (\<forall>p w w'. il_remove_file lib p w = (w', Inr ()) \<longrightarrow>
        entry w p \<noteq> Some Directory \<and> entry w' = (entry w)(p := None)) \<and>
     (\<forall>p w w' e. il_remove_file lib p w = (w', Inl e) \<longrightarrow> entry w' = entry w) \<and>
     (\<forall>p w w' r. il_create_dir_all lib p w = (w', r) \<longrightarrow>
        (\<forall>q. entry w' q = entry w q \<or> entry w q = None \<and> entry w' q = Some Directory)) \<and>
     (\<forall>p w w' l. il_bind lib p w = (w', Inr l) \<longrightarrow>
        entry w p = None \<and> entry w' = (entry w)(p \<mapsto> SocketFile l)) \<and>
     (\<forall>p w w' e. il_bind lib p w = (w', Inl e) \<longrightarrow> entry w' = entry w) \<and>
     (\<forall>p w w' s. il_connect lib p w = (w', Inr s) \<longrightarrow> (\<exists>l. entry w p = Some (SocketFile l)))"

definition only_adds_dirs :: "(path \<Rightarrow> 'l fs_entry option) \<Rightarrow> (path \<Rightarrow> 'l fs_entry option) \<Rightarrow> path \<Rightarrow> bool" where
  "only_adds_dirs before after p \<longleftrightarrow>
     (\<forall>q. q \<noteq> p \<longrightarrow> after q = before q \<or> before q = None \<and> after q = Some Directory)"

lemma fs_removed:
  assumes "fs_laws lib entry" and "il_remove_file lib p w = (w', r)"
  shows "entry w' = (entry w)(p := None) \<and> entry w p \<noteq> Some Directory \<or> entry w' = entry w"
proof (cases r)
  case (Inl e)
  have "\<forall>p w w' e. il_remove_file lib p w = (w', Inl e) \<longrightarrow> entry w' = entry w"
    using assms(1) unfolding fs_laws_def by (elim conjE)
  with assms(2) Inl show ?thesis by metis
next
  case (Inr u)
  have "\<forall>p w w'. il_remove_file lib p w = (w', Inr ()) \<longrightarrow>
      entry w p \<noteq> Some Directory \<and> entry w' = (entry w)(p := None)"
    using assms(1) unfolding fs_laws_def by (elim conjE)
  with assms(2) Inr show ?thesis by simp
qed

lemma fs_made_dirs:
  assumes "fs_laws lib entry" and "il_create_dir_all lib p w = (w', r)"
  shows "entry w' q = entry w q \<or> entry w q = None \<and> entry w' q = Some Directory"
  using assms unfolding fs_laws_def by blast

lemma fs_bound:
  assumes "fs_laws lib entry" and "il_bind lib p w = (w', Inr l)"
  shows "entry w p = None" and "entry w' = (entry w)(p \<mapsto> SocketFile l)"
  using assms unfolding fs_laws_def by blast+

lemma fs_connected:
  assumes "fs_laws lib entry" and "il_connect lib p w = (w', Inr s)"
  shows "\<exists>l. entry w p = Some (SocketFile l)"
  using assms unfolding fs_laws_def by blast

lemma unix_close_entry:
  assumes "fs_laws lib entry"
  shows "entry (unix_close lib p w) = (entry w)(p := None) \<or> entry (unix_close lib p w) = entry w"
  using fs_removed [OF assms, of p w] by (cases "il_remove_file lib p w") (auto simp: unix_close_def)

lemma unix_listen_entry:
  assumes "fs_laws lib entry" and "unix_listen lib p w = (w', Ok l)"
  shows "entry w' p = Some (SocketFile l)" and "entry w p \<noteq> Some Directory"
    and "only_adds_dirs (entry w) (entry w') p"
proof -
  define w1 where "w1 = unix_close lib p w"
  define made where "made = (case il_parent lib p of
      Some parent \<Rightarrow>
        if \<not> il_exists lib w1 parent then
          (case il_create_dir_all lib parent w1 of (w, r) \<Rightarrow> (w, of_io transport_from_io r))
        else (w1, Ok ())
    | None \<Rightarrow> (w1, Ok ()))"
  obtain w2 r where w2: "made = (w2, r)"
    by fastforce
  have bind: "il_bind lib p w2 = (w', Inr l)"
    using assms(2) w2 unfolding unix_listen_def Let_def made_def [symmetric, unfolded w1_def unix_close_def]
    by (auto simp: of_io_def split: res.splits prod.splits sum.splits)
  have made2: "entry w2 q = entry w1 q \<or> entry w1 q = None \<and> entry w2 q = Some Directory" for q
    using w2 fs_made_dirs [OF assms(1)]
    by (auto simp: made_def split: option.splits if_splits prod.splits)
  note bound = fs_bound [OF assms(1) bind]
  have "entry w1 p = None"
    using made2 [of p] bound(1) by auto
  have removed: "entry w1 = (entry w)(p := None) \<and> entry w p \<noteq> Some Directory \<or> entry w1 = entry w"
    using fs_removed [OF assms(1), of p w] unfolding w1_def unix_close_def
    by (cases "il_remove_file lib p w") auto
  show "entry w' p = Some (SocketFile l)"
    using bound(2) by simp
  show "entry w p \<noteq> Some Directory"
    using removed \<open>entry w1 p = None\<close> by auto
  show "only_adds_dirs (entry w) (entry w') p"
    unfolding only_adds_dirs_def
  proof (intro allI impI)
    fix q assume "q \<noteq> p"
    then have "entry w' q = entry w2 q" and "entry w1 q = entry w q"
      using bound(2) removed by auto
    with made2 [of q] show "entry w' q = entry w q \<or> entry w q = None \<and> entry w' q = Some Directory"
      by simp
  qed
qed

text \<open>
  A path in whose directory the process may write: what is there can be removed unless it is
  a directory, and a socket can be bound there once nothing is and the directory exists.
\<close>

definition usable_path :: "('w, 's, 'l) ipc_lib \<Rightarrow> ('w \<Rightarrow> path \<Rightarrow> 'l fs_entry option) \<Rightarrow> path \<Rightarrow> bool" where
  "usable_path lib entry p \<longleftrightarrow>
     (\<forall>w. entry w p \<notin> {None, Some Directory} \<longrightarrow> (\<exists>w'. il_remove_file lib p w = (w', Inr ()))) \<and>
     (\<forall>w. entry w p = None \<longrightarrow> (\<forall>q. il_parent lib p = Some q \<longrightarrow> entry w q = Some Directory) \<longrightarrow>
        (\<exists>w' l. il_bind lib p w = (w', Inr l)))"

lemma usable_close:
  assumes "fs_laws lib entry" and "usable_path lib entry p" and "entry w p \<noteq> Some Directory"
  shows "entry (unix_close lib p w) = (entry w)(p := None)"
proof (cases "entry w p = None")
  case True
  then show ?thesis
    using assms(1) by (auto simp: unix_close_def fs_laws_def)
next
  case False
  then obtain w' where "il_remove_file lib p w = (w', Inr ())"
    using assms(2,3) by (auto simp: usable_path_def)
  with False assms(1) show ?thesis
    by (simp add: unix_close_def fs_laws_def)
qed

lemma usable_listen:
  assumes "fs_laws lib entry" and "usable_path lib entry p" and "entry w p \<noteq> Some Directory"
    and "\<forall>q. il_parent lib p = Some q \<longrightarrow> q \<noteq> p \<and> entry w q = Some Directory"
  shows "\<exists>w' l. unix_listen lib p w = (w', Ok l) \<and> entry w' = (entry w)(p \<mapsto> SocketFile l)"
proof -
  define w1 where "w1 = unix_close lib p w"
  have w1: "entry w1 = (entry w)(p := None)"
    unfolding w1_def by (rule usable_close [OF assms(1-3)])
  then have dir: "\<forall>q. il_parent lib p = Some q \<longrightarrow> entry w1 q = Some Directory"
    using assms(4) by auto
  then obtain w' l where bind: "il_bind lib p w1 = (w', Inr l)"
    using assms(2) w1 unfolding usable_path_def by (metis fun_upd_same)
  have there: "il_exists lib w1 q" if "il_parent lib p = Some q" for q
    using that dir assms(1) by (simp add: fs_laws_def)
  have "unix_listen lib p w = (w', Ok l)"
    using there bind unfolding unix_listen_def Let_def w1_def [unfolded unix_close_def, symmetric]
    by (auto simp: of_io_def split: option.splits)
  with fs_bound(2) [OF assms(1) bind] w1 show ?thesis
    by auto
qed

lemma connect_nothing_there:
  assumes "fs_laws lib entry" and "ipc_parse_path (il_url_parse lib) u = Ok p" and "entry w p = None"
  shows "\<not> is_ok (snd (ipc_connect lib tr u w))"
proof (cases "il_connect lib p w")
  case (Pair w' c)
  then have "c \<noteq> Inr s" for s
    using fs_connected [OF assms(1), of p w w' s] assms(3) by auto
  with Pair assms(2) show ?thesis
    by (cases c) (auto simp: ipc_connect_def adapter_connect_def unix_connect_def of_io_def res_bind_def)
qed

text \<open>
  C33. Who owns a socket path. Where the process may write, listening on a path at which there
  is a file succeeds whatever file that is: not only a stale socket, but the socket of a
  listener still at work, or an ordinary file, is removed without a word and the new socket put
  in its place; nothing else changes. Closing any listener of that path, the earlier one
  included, then succeeds and removes the new socket, after which nobody can connect to it.
  Only a directory at the path makes listening fail.
\<close>

theorem ipc_listener_takeover:
  assumes "fs_laws lib entry" and "usable_path lib entry p" and "ipc_parse_path (il_url_parse lib) u = Ok p"
    and "entry w p = Some f" and "\<forall>q. il_parent lib p = Some q \<longrightarrow> q \<noteq> p \<and> entry w q = Some Directory"
    and "il_path earlier = p"
  shows "(f \<noteq> Directory \<longrightarrow>
      (\<exists>w' l. ipc_listen lib tr u w = (w', Ok \<lparr>il_inner = l, il_path = p\<rparr>) \<and>
         entry w' = (entry w)(p \<mapsto> SocketFile l) \<and>
         (\<exists>w''. ipc_listener_close lib earlier w' = (w'', Ok ()) \<and> entry w'' = (entry w)(p := None) \<and>
            \<not> is_ok (snd (ipc_connect lib tr u w''))))) \<and>
    (f = Directory \<longrightarrow> \<not> is_ok (snd (ipc_listen lib tr u w)))"
proof (intro conjI impI)
  assume "f \<noteq> Directory"
  with assms(4) have not_dir: "entry w p \<noteq> Some Directory"
    by simp
  from usable_listen [OF assms(1,2) this assms(5)] obtain w' l where
    listen: "unix_listen lib p w = (w', Ok l)" and entry': "entry w' = (entry w)(p \<mapsto> SocketFile l)"
    by blast
  have "entry (unix_close lib p w') = (entry w)(p := None)"
    using usable_close [OF assms(1,2), of w'] entry' by simp
  moreover from this have "\<not> is_ok (snd (ipc_connect lib tr u (unix_close lib p w')))"
    by (intro connect_nothing_there [OF assms(1,3)]) simp
  ultimately show "\<exists>w' l. ipc_listen lib tr u w = (w', Ok \<lparr>il_inner = l, il_path = p\<rparr>) \<and>
         entry w' = (entry w)(p \<mapsto> SocketFile l) \<and>
         (\<exists>w''. ipc_listener_close lib earlier w' = (w'', Ok ()) \<and> entry w'' = (entry w)(p := None) \<and>
            \<not> is_ok (snd (ipc_connect lib tr u w'')))"
    using listen entry' assms(3,6) by (simp add: ipc_listen_def adapter_listen_def ipc_listener_close_def)
next
  assume "f = Directory"
  then have "unix_listen lib p w \<noteq> (w', Ok l)" for w' l
    using unix_listen_entry(2) [OF assms(1)] assms(4) by blast
  then show "\<not> is_ok (snd (ipc_listen lib tr u w))"
    by (cases "unix_listen lib p w"; cases "snd (unix_listen lib p w)")
      (auto simp: ipc_listen_def adapter_listen_def assms(3))
qed

text \<open>A file system in memory, which numbers its listeners.\<close>

type_synonym demo_files = "nat \<times> (path \<Rightarrow> nat fs_entry option)"

definition demo_fs_error :: io_error where
  "demo_fs_error = \<lparr>io_kind = OtherKind, io_text = ''refused''\<rparr>"

definition demo_ipc_lib :: "(demo_files, nat, nat) ipc_lib" where
  "demo_ipc_lib =
     \<lparr>il_url_parse = demo_ipc_parse, il_now = 0, il_exists = (\<lambda>w p. snd w p \<noteq> None),
      il_remove_file = (\<lambda>p w. case snd w p of
          None \<Rightarrow> (w, Inl demo_fs_error)
        | Some Directory \<Rightarrow> (w, Inl demo_fs_error)
        | Some _ \<Rightarrow> ((fst w, (snd w)(p := None)), Inr ())),
      il_parent = (\<lambda>p. None), il_create_dir_all = (\<lambda>p w. (w, Inr ())),
      il_bind = (\<lambda>p w. case snd w p of
          None \<Rightarrow> ((fst w + 1, (snd w)(p \<mapsto> SocketFile (fst w))), Inr (fst w))
        | Some _ \<Rightarrow> (w, Inl demo_fs_error)),
      il_connect = (\<lambda>p w. case snd w p of
          Some (SocketFile l) \<Rightarrow> (w, Inr l)
        | _ \<Rightarrow> (w, Inl demo_fs_error)),
      il_accept = (\<lambda>l w. (w, Inr l)), il_shutdown = (\<lambda>s. (s, Inr ()))\<rparr>"

lemma demo_fs_laws: "fs_laws demo_ipc_lib snd"
  unfolding fs_laws_def
  by (auto simp: demo_ipc_lib_def split: option.splits fs_entry.splits)

text \<open>Listener 5 is at work when listener 6 is made; closing 5 then cuts off 6.\<close>

theorem ipc_listener_takeover_witness:
  "let u = ''ipc://a/s'';
       (w1, l0) = ipc_listen demo_ipc_lib ipc_new u (5, Map.empty);
       (w2, l1) = ipc_listen demo_ipc_lib ipc_new u w1;
       (w3, r) = ipc_listener_close demo_ipc_lib \<lparr>il_inner = 5, il_path = ''/tmp/a/s''\<rparr> w2
   in l0 = Ok \<lparr>il_inner = 5, il_path = ''/tmp/a/s''\<rparr> \<and> snd w1 ''/tmp/a/s'' = Some (SocketFile 5) \<and>
      snd w2 ''/tmp/a/s'' = Some (SocketFile 6) \<and> r = Ok () \<and>
      \<not> is_ok (snd (ipc_connect demo_ipc_lib ipc_new u w3))"
proof -
  let ?p = "''/tmp/a/s''"
  let ?w1 = "(6, Map.empty(?p \<mapsto> SocketFile 5)) :: demo_files"
  let ?w2 = "(7, Map.empty(?p \<mapsto> SocketFile 6)) :: demo_files"
  have path: "ipc_parse_path demo_ipc_parse ''ipc://a/s'' = Ok ?p"
    by (simp add: ipc_parse_path_def parse_path_on_def parse_url_with_def demo_ipc_parse_def normalize_path_def
        strip_prefix_def starts_with_def)
  note defs = ipc_listen_def adapter_listen_def unix_listen_def demo_ipc_lib_def path of_io_def
    ipc_listener_close_def unix_close_def
  have l0: "ipc_listen demo_ipc_lib ipc_new ''ipc://a/s'' (5, Map.empty) = (?w1, Ok \<lparr>il_inner = 5, il_path = ?p\<rparr>)"
    by (simp add: defs)
  have l1: "ipc_listen demo_ipc_lib ipc_new ''ipc://a/s'' ?w1 = (?w2, Ok \<lparr>il_inner = 6, il_path = ?p\<rparr>)"
    by (simp add: defs)
  have close: "ipc_listener_close demo_ipc_lib \<lparr>il_inner = 5, il_path = ?p\<rparr> ?w2 = ((7, Map.empty), Ok ())"
    by (simp add: defs fun_eq_iff)
  have "usable_path demo_ipc_lib snd ?p"
    by (auto simp: usable_path_def demo_ipc_lib_def split: option.splits fs_entry.splits)
  moreover have "ipc_parse_path (il_url_parse demo_ipc_lib) ''ipc://a/s'' = Ok ?p"
    by (simp add: demo_ipc_lib_def path)
  ultimately have "\<not> is_ok (snd (ipc_connect demo_ipc_lib ipc_new ''ipc://a/s'' (7, Map.empty)))"
    using ipc_listener_takeover [OF demo_fs_laws, of ?p "''ipc://a/s''" ?w1 "SocketFile 5"
        "\<lparr>il_inner = 5, il_path = ?p\<rparr>" ipc_new] l1 close
    by (simp add: demo_ipc_lib_def)
  then show ?thesis
    by (simp add: l0 l1 close)
qed

end
