(* ===== verification/Stdio_Transport.thy ===== *)
theory Stdio_Transport
  imports Stream_Objects
begin

text \<open>
  The subprocess transport of \<open>stdio.rs\<close>: which command a URL runs, how a stream is made
  of a child process or of the process's own standard streams, and the closing sequence
  with its deadline. Spawning, the pipes and the waiting are the parameters of
  \<open>stdio_lib\<close>.
\<close>

section \<open>Splitting a command line\<close>

text \<open>
  \<open>str::split_whitespace\<close>, for the characters HOL's \<open>char\<close> has: a character stands for
  the code point of its number, and the \<open>White_Space\<close> code points below 256 are the ones
  listed.
\<close>

definition is_whitespace :: "char \<Rightarrow> bool" where
  "is_whitespace c \<longleftrightarrow> (of_char c :: nat) \<in> {9, 10, 11, 12, 13, 32, 133, 160}"

function split_whitespace :: "string \<Rightarrow> string list" where
  "split_whitespace s =
     (let t = dropWhile is_whitespace s in
      if t = [] then []
      else takeWhile (\<lambda>c. \<not> is_whitespace c) t #
        split_whitespace (dropWhile (\<lambda>c. \<not> is_whitespace c) t))"
  by pat_completeness auto
termination
proof (relation "measure length", goal_cases)
  case 1
  then show ?case by simp
next
  case (2 s t)
  then obtain c cs where t: "t = c # cs"
    by (meson neq_Nil_conv)
  have "\<not> is_whitespace c"
    using 2 t hd_dropWhile [of is_whitespace s] by (metis list.sel(1))
  with t have "length (dropWhile (\<lambda>c. \<not> is_whitespace c) t) \<le> length cs"
    by (simp add: length_dropWhile_le)
  also have "\<dots> < length t"
    by (simp add: t)
  also have "length t \<le> length s"
    unfolding 2(1) by (rule length_dropWhile_le)
  finally show ?case by simp
qed

declare split_whitespace.simps [simp del]

definition word :: "string \<Rightarrow> bool" where
  "word w \<longleftrightarrow> w \<noteq> [] \<and> (\<forall>c \<in> set w. \<not> is_whitespace c)"

fun join_words :: "string list \<Rightarrow> string" where
  "join_words [] = []"
| "join_words [w] = w"
| "join_words (w # ws) = w @ '' '' @ join_words ws"

lemma split_whitespace_Nil [simp]: "split_whitespace [] = []"
  by (simp add: split_whitespace.simps [of "[]"])

lemma split_word:
  assumes "word w" and "s = [] \<or> is_whitespace (hd s)"
  shows "split_whitespace (w @ s) = w # split_whitespace s"
proof -
  obtain c cs where w: "w = c # cs" and c: "\<not> is_whitespace c"
    using assms(1) by (cases w) (auto simp: word_def)
  have drop: "dropWhile is_whitespace (w @ s) = w @ s"
    using w c by simp
  have all: "\<forall>c \<in> set w. \<not> is_whitespace c"
    using assms(1) by (simp add: word_def)
  have "takeWhile (\<lambda>c. \<not> is_whitespace c) (w @ s) = w" and "dropWhile (\<lambda>c. \<not> is_whitespace c) (w @ s) = s"
    using all assms(2) by (cases s; simp add: takeWhile_append dropWhile_append)+
  then show ?thesis
    using assms(1) by (simp add: split_whitespace.simps [of "w @ s"] drop word_def)
qed

lemma split_space: "split_whitespace (CHR '' '' # s) = split_whitespace s"
  by (simp add: split_whitespace.simps [of "_ # s"] split_whitespace.simps [of s] is_whitespace_def)

lemma split_join: "\<forall>w \<in> set ws. word w \<Longrightarrow> split_whitespace (join_words ws) = ws"
proof (induction ws rule: join_words.induct)
  case (2 w)
  then show ?case
    using split_word [of w "[]"] by simp
next
  case (3 w v ws)
  have "split_whitespace (w @ '' '' @ join_words (v # ws)) =
      w # split_whitespace ('' '' @ join_words (v # ws))"
    using 3 by (intro split_word) (simp_all add: is_whitespace_def)
  also have "\<dots> = w # split_whitespace (join_words (v # ws))"
    using split_space by simp
  finally show ?case
    using 3 by simp
qed simp

section \<open>The model\<close>

record stdio_config =
  sc_command :: string
  sc_args :: "string list"
  sc_env :: "(string \<times> string) list"
  sc_working_dir :: "string option"

record stdio_transport =
  st_config :: stdio_config

definition stdio_config_default :: stdio_config where
  "stdio_config_default = \<lparr>sc_command = [], sc_args = [], sc_env = [], sc_working_dir = None\<rparr>"

definition stdio_new :: stdio_transport where
  "stdio_new = \<lparr>st_config = stdio_config_default\<rparr>"

definition stdio_default :: stdio_transport where
  "stdio_default = stdio_new"

definition stdio_with_config :: "stdio_config \<Rightarrow> stdio_transport" where
  "stdio_with_config config = \<lparr>st_config = config\<rparr>"

definition stdio_with_command :: "string \<Rightarrow> string list \<Rightarrow> stdio_transport" where
  "stdio_with_command command args =
     \<lparr>st_config = stdio_config_default\<lparr>sc_command := command, sc_args := args\<rparr>\<rparr>"

text \<open>A \<open>tokio::process::Command\<close> with piped input and output and inherited errors.\<close>

record command =
  cmd_program :: string
  cmd_args :: "string list"
  cmd_dir :: "string option"
  cmd_env :: "(string \<times> string) list"

text \<open>
  \<^item> \<open>sl_spawn\<close>: a child process, or the \<open>Debug\<close> text of the error.
  \<^item> \<open>sl_take_stdin\<close>, \<open>sl_take_stdout\<close>, \<open>sl_id\<close>, \<open>sl_try_wait\<close>: the accessors of \<open>Child\<close>;
    \<open>try_wait\<close> gives \<open>None\<close> for a process that still runs.
  \<^item> \<open>sl_own_stdin\<close>, \<open>sl_own_stdout\<close>: the standard streams of this process.
  \<^item> \<open>sl_shutdown\<close>, \<open>sl_wait\<close>, \<open>sl_kill\<close>: the awaited operations of \<open>close\<close>; \<open>sl_wait\<close> is
    \<open>Pending\<close> when the child has not exited at the given deadline.
\<close>

record ('c, 'w, 'r) stdio_lib =
  sl_now :: instant
  sl_spawn :: "command \<Rightarrow> string + 'c"
  sl_take_stdin :: "'c \<Rightarrow> 'c \<times> 'w option"
  sl_take_stdout :: "'c \<Rightarrow> 'c \<times> 'r option"
  sl_id :: "'c \<Rightarrow> u32 option"
  sl_try_wait :: "'c \<Rightarrow> 'c \<times> (io_error + int option)"
  sl_own_stdin :: 'r
  sl_own_stdout :: 'w
  sl_shutdown :: "'w \<Rightarrow> 'w \<times> (io_error + unit)"
  sl_wait :: "duration \<Rightarrow> 'c \<Rightarrow> 'c \<times> (io_error + unit) wait"
  sl_kill :: "'c \<Rightarrow> 'c \<times> (io_error + unit)"

record ('c, 'w, 'r) stdio_stream =
  ss_write :: 'w
  ss_read :: 'r
  ss_child :: "'c option"
  ss_info :: connection_info
  ss_timeouts :: connection_timeouts

definition stdio_timeouts_30 :: connection_timeouts where
  "stdio_timeouts_30 =
     \<lparr>ct_read_timeout = Some (from_secs 30), ct_write_timeout = Some (from_secs 30),
      ct_connect_timeout = Some (from_secs 30)\<rparr>"

definition stdio_new_from_child ::
  "('c, 'w, 'r) stdio_lib \<Rightarrow> 'c \<Rightarrow> string \<Rightarrow> ('c, 'w, 'r) stdio_stream transport_result" where
  "stdio_new_from_child lib child command =
     (case sl_take_stdin lib child of
        (child, None) \<Rightarrow> Err (T_ConnectionFailure ''Failed to get stdin'')
      | (child, Some stdin) \<Rightarrow>
          (case sl_take_stdout lib child of
             (child, None) \<Rightarrow> Err (T_ConnectionFailure ''Failed to get stdout'')
           | (child, Some stdout) \<Rightarrow>
               let pid = (case sl_id lib child of Some p \<Rightarrow> p | None \<Rightarrow> 0) in
               Ok \<lparr>ss_write = stdin, ss_read = stdout, ss_child = Some child,
                 ss_info = \<lparr>ci_transport_type = ''stdio'',
                   ci_local_addr = Some (''stdio://process/'' @ display_nat (unat pid)),
                   ci_remote_addr = Some command, ci_metadata = fmempty,
                   ci_established_at = sl_now lib\<rparr>,
                 ss_timeouts = stdio_timeouts_30\<rparr>))"

definition stdio_new_from_self :: "('c, 'w, 'r) stdio_lib \<Rightarrow> ('c, 'w, 'r) stdio_stream" where
  "stdio_new_from_self lib =
     \<lparr>ss_write = sl_own_stdout lib, ss_read = sl_own_stdin lib, ss_child = None,
      ss_info = \<lparr>ci_transport_type = ''stdio'', ci_local_addr = Some ''stdio://stdin'',
        ci_remote_addr = Some ''stdio://stdout'', ci_metadata = fmempty,
        ci_established_at = sl_now lib\<rparr>,
      ss_timeouts = stdio_timeouts_30\<rparr>"

definition stdio_is_running ::
  "('c, 'w, 'r) stdio_lib \<Rightarrow> ('c, 'w, 'r) stdio_stream \<Rightarrow> ('c, 'w, 'r) stdio_stream \<times> bool" where
  "stdio_is_running lib s =
     (case ss_child s of
        Some child \<Rightarrow>
          (case sl_try_wait lib child of (child', r) \<Rightarrow> (s\<lparr>ss_child := Some child'\<rparr>, r = Inr None))
      | None \<Rightarrow> (s, True))"

definition stdio_is_connected :: "('c, 'w, 'r) stdio_stream \<Rightarrow> bool" where
  "stdio_is_connected s = True"

text \<open>What \<open>close\<close> does with the child it has taken: the child as it is left, and the result.\<close>

definition stdio_end_child :: "('c, 'w, 'r) stdio_lib \<Rightarrow> 'c \<Rightarrow> 'c \<times> unit transport_result" where
  "stdio_end_child lib child =
     (case sl_wait lib (from_secs 5) child of
        (child', Ready (Inr _)) \<Rightarrow> (child', Ok ())
      | (child', Ready (Inl e)) \<Rightarrow> (child', Err (T_Io (io_text e)))
      | (child', Pending) \<Rightarrow>
          (case sl_kill lib child' of (child'', r) \<Rightarrow> (child'', of_io transport_from_io r)))"

definition stdio_close ::
  "('c, 'w, 'r) stdio_lib \<Rightarrow> ('c, 'w, 'r) stdio_stream \<Rightarrow> ('c, 'w, 'r) stdio_stream \<times> unit transport_result"
where
  "stdio_close lib s =
     (case sl_shutdown lib (ss_write s) of
        (w, Inl e) \<Rightarrow> (s\<lparr>ss_write := w\<rparr>, Err (transport_from_io e))
      | (w, Inr _) \<Rightarrow>
          (case ss_child s of
             Some child \<Rightarrow> (s\<lparr>ss_write := w, ss_child := None\<rparr>, snd (stdio_end_child lib child))
           | None \<Rightarrow> (s\<lparr>ss_write := w\<rparr>, Ok ())))"

definition stdio_connection_info :: "('c, 'w, 'r) stdio_stream \<Rightarrow> connection_info" where
  "stdio_connection_info s = ss_info s"

definition stdio_timeouts :: "('c, 'w, 'r) stdio_stream \<Rightarrow> connection_timeouts" where
  "stdio_timeouts s = ss_timeouts s"

text \<open>Reads poll the one pipe, the other operations the other.\<close>

definition stdio_poll_read ::
  "'r async_io \<Rightarrow> ('c, 'w, 'r) stdio_stream \<Rightarrow> read_buf \<Rightarrow>
   ('c, 'w, 'r) stdio_stream \<times> (read_buf, io_error) res wait" where
  "stdio_poll_read io s buf = on_field ss_read ss_read_update (\<lambda>x. ai_poll_read io x buf) s"

definition stdio_poll_write ::
  "'w async_io \<Rightarrow> ('c, 'w, 'r) stdio_stream \<Rightarrow> bytes \<Rightarrow>
   ('c, 'w, 'r) stdio_stream \<times> (usize, io_error) res wait" where
  "stdio_poll_write io s buf = on_field ss_write ss_write_update (\<lambda>x. ai_poll_write io x buf) s"

definition stdio_poll_flush ::
  "'w async_io \<Rightarrow> ('c, 'w, 'r) stdio_stream \<Rightarrow> ('c, 'w, 'r) stdio_stream \<times> (unit, io_error) res wait" where
  "stdio_poll_flush io = on_field ss_write ss_write_update (ai_poll_flush io)"

definition stdio_poll_shutdown ::
  "'w async_io \<Rightarrow> ('c, 'w, 'r) stdio_stream \<Rightarrow> ('c, 'w, 'r) stdio_stream \<times> (unit, io_error) res wait" where
  "stdio_poll_shutdown io = on_field ss_write ss_write_update (ai_poll_shutdown io)"

definition stdio_ops ::
  "('c, 'w, 'r) stdio_lib \<Rightarrow> 'r async_io \<Rightarrow> 'w async_io \<Rightarrow> ('c, 'w, 'r) stdio_stream stream_ops" where
  "stdio_ops lib rio wio =
     \<lparr>so_io = \<lparr>ai_poll_read = stdio_poll_read rio, ai_poll_write = stdio_poll_write wio,
        ai_poll_flush = stdio_poll_flush wio, ai_poll_shutdown = stdio_poll_shutdown wio\<rparr>,
      so_connection_info = stdio_connection_info, so_is_connected = stdio_is_connected,
      so_close = (\<lambda>s. map_prod id Ready (stdio_close lib s)), so_timeouts = stdio_timeouts\<rparr>"

lemmas stdio_stream_defs =
  stdio_ops_def stdio_poll_read_def stdio_poll_write_def stdio_poll_flush_def
  stdio_poll_shutdown_def stdio_close_def stdio_timeouts_def stdio_connection_info_def on_field_def

lemma stdio_identity:
  "so_connection_info (stdio_ops lib rio wio) = ss_info" "so_timeouts (stdio_ops lib rio wio) = ss_timeouts"
  by (simp_all add: stdio_stream_defs fun_eq_iff)

lemma stdio_perform_keeps:
  "perform (stdio_ops lib rio wio) c s = (s', a) \<Longrightarrow> ss_info s' = ss_info s \<and> ss_timeouts s' = ss_timeouts s"
  by (cases c) (auto simp: stdio_stream_defs split: prod.splits wait.splits sum.splits option.splits)

interpretation stdio_object: transport_stream "stdio_ops lib rio wio"
  for lib :: "('c, 'w, 'r) stdio_lib" and rio wio
  by unfold_locales (simp_all add: stdio_identity stdio_perform_keeps)

text \<open>The command \<open>connect\<close> settles on; \<open>None\<close> is the process's own standard streams.\<close>

definition stdio_target :: "stdio_transport \<Rightarrow> string \<Rightarrow> (string \<times> string list) option transport_result" where
  "stdio_target tr u =
     (if u = ''stdio://'' then
        (if sc_command (st_config tr) = [] then Ok None
         else Ok (Some (sc_command (st_config tr), sc_args (st_config tr))))
      else
        (case strip_prefix u ''stdio://'' of
           Some cmd_part \<Rightarrow>
             let parts = split_whitespace cmd_part in
             if parts = [] \<or> hd parts = [] then
               Err (T_InvalidUrl
                 ''Invalid command specified in STDIO URL (e.g., empty or missing after stdio://).'')
             else Ok (Some (hd parts, tl parts))
         | None \<Rightarrow>
             Err (T_InvalidUrl (''Invalid STDIO URL scheme. Expected \"stdio://\" or '' @
               ''\"stdio://command...\", got: '' @ u))))"

definition stdio_connect ::
  "('c, 'w, 'r) stdio_lib \<Rightarrow> stdio_transport \<Rightarrow> string \<Rightarrow> ('c, 'w, 'r) stdio_stream transport_result" where
  "stdio_connect lib tr u =
     res_bind (stdio_target tr u) (\<lambda>target.
       case target of
         None \<Rightarrow> Ok (stdio_new_from_self lib)
       | Some (command_to_run, args_to_use) \<Rightarrow>
           let cmd = \<lparr>cmd_program = command_to_run, cmd_args = args_to_use,
             cmd_dir = sc_working_dir (st_config tr), cmd_env = sc_env (st_config tr)\<rparr> in
           (case sl_spawn lib cmd of
              Inl e \<Rightarrow> Err (T_ConnectionFailure
                (''Failed to spawn subprocess '' @ [char_of (39 :: nat)] @ command_to_run @
                 [char_of (39 :: nat)] @ '': '' @ e))
            | Inr child \<Rightarrow> stdio_new_from_child lib child command_to_run))"

definition stdio_listen :: "string \<Rightarrow> 'l transport_result" where
  "stdio_listen u = Err (T_UnsupportedTransport
     ''STDIO transport does not support listening (it is client-initiated only).'')"

definition stdio_accept :: "'s transport_result" where
  "stdio_accept = Err (T_UnsupportedTransport
     ''STDIO transport does not support listening for incoming connections.'')"

definition stdio_listener_local_addr :: "string transport_result" where
  "stdio_listener_local_addr = Err (T_UnsupportedTransport
     ''Local address is not applicable for STDIO listeners.'')"

definition stdio_listener_close :: "unit transport_result" where
  "stdio_listener_close = Ok ()"

definition stdio_transport_type :: string where
  "stdio_transport_type = ''stdio''"

definition stdio_supports_url :: "string \<Rightarrow> bool" where
  "stdio_supports_url u = starts_with u ''stdio://''"

interpretation stdio_scheme: scheme_transport stdio_supports_url "[''stdio'']"
  by unfold_locales (simp_all add: stdio_supports_url_def)

section \<open>Properties\<close>

text \<open>
  Which command a URL runs: a non-empty list of words without white space, written
  after \<open>stdio://\<close> with single spaces, is run as exactly these words, whatever command is
  configured; the bare \<open>stdio://\<close> runs the configured command, and attaches to the
  process's own standard streams when there is none (the documentation promises an
  error there); white space alone and any other URL are refused.
\<close>

theorem stdio_command_selection:
  assumes "ws \<noteq> []" and "\<forall>w \<in> set ws. word w"
  shows "stdio_target tr (''stdio://'' @ join_words ws) = Ok (Some (hd ws, tl ws)) \<and>
    stdio_target tr ''stdio://'' =
      Ok (if sc_command (st_config tr) = [] then None
          else Some (sc_command (st_config tr), sc_args (st_config tr))) \<and>
    (\<not> stdio_supports_url u \<longrightarrow> is_err (stdio_target tr u)) \<and>
    stdio_target tr (''stdio://'' @ replicate (Suc n) CHR '' '') =
      Err (T_InvalidUrl
        ''Invalid command specified in STDIO URL (e.g., empty or missing after stdio://).'')"
proof (intro conjI impI)
  have "join_words ws \<noteq> []"
    using assms by (cases ws rule: join_words.cases) (auto simp: word_def)
  moreover have "hd ws \<noteq> []"
    using assms by (cases ws) (auto simp: word_def)
  ultimately show "stdio_target tr (''stdio://'' @ join_words ws) = Ok (Some (hd ws, tl ws))"
    using assms split_join [OF assms(2)]
    by (simp add: stdio_target_def strip_prefix_def starts_with_def Let_def)
  have "split_whitespace (replicate m CHR '' '') = []" for m
    by (induction m) (simp_all add: split_space)
  from this [of "Suc n"]
  show "stdio_target tr (''stdio://'' @ replicate (Suc n) CHR '' '') =
      Err (T_InvalidUrl
        ''Invalid command specified in STDIO URL (e.g., empty or missing after stdio://).'')"
    by (simp add: stdio_target_def strip_prefix_def starts_with_def Let_def)
qed (auto simp: stdio_target_def strip_prefix_def stdio_supports_url_def starts_with_def)

theorem stdio_command_selection_witness:
  "stdio_target stdio_new ''stdio://ls -l'' = Ok (Some (''ls'', [''-l'']))"
  using stdio_command_selection [of "[''ls'', ''-l'']" stdio_new]
  by (simp add: word_def is_whitespace_def)

text \<open>
  What is documented of a child process: a \<open>wait\<close> that returns a status and a \<open>kill\<close> that
  succeeds leave a process that does not run.
\<close>

definition process_laws :: "('c, 'w, 'r) stdio_lib \<Rightarrow> ('c \<Rightarrow> bool) \<Rightarrow> bool" where
  "process_laws lib running \<longleftrightarrow>
     (\<forall>t c c'. sl_wait lib t c = (c', Ready (Inr ())) \<longrightarrow> \<not> running c') \<and>
     (\<forall>c c'. sl_kill lib c = (c', Inr ()) \<longrightarrow> \<not> running c')"

lemma transport_from_io_Io: "transport_from_io e = T_Io t \<longleftrightarrow> io_kind e = OtherKind \<and> t = io_text e"
  by (auto simp: transport_from_io_def split: io_error_kind.splits)

text \<open>
  C35. Closing the stream of a child process. A success means that the child does not run any
  more. Once its input is shut down the stream has given the child up, whatever the outcome, so
  closing again touches no process. An error of waiting leaves the child as waiting left it,
  without killing it, and is reported as \<open>Io\<close>; an error of the shutdown or of \<open>kill\<close> is
  reported by its kind instead, as \<open>Io\<close> only if it is none of those that have a variant of
  their own, although the documentation promises \<open>Io\<close> for all three.
\<close>

theorem stdio_close_outcome:
  assumes "process_laws lib running" and "ss_child s = Some child" and "stdio_close lib s = (s', r)"
    and "sl_shutdown lib (ss_write s) = (w, shut)"
  shows "(r = Ok () \<longrightarrow> \<not> running (fst (stdio_end_child lib child))) \<and>
    (shut = Inr () \<longrightarrow> ss_child s' = None \<and> r = snd (stdio_end_child lib child) \<and>
       snd (stdio_close lib s') = of_io transport_from_io (snd (sl_shutdown lib w))) \<and>
    (\<forall>child' e. shut = Inr () \<longrightarrow> sl_wait lib (from_secs 5) child = (child', Ready (Inl e)) \<longrightarrow>
       fst (stdio_end_child lib child) = child' \<and> r = Err (T_Io (io_text e))) \<and>
    (\<forall>e. shut = Inl e \<longrightarrow> ss_child s' = Some child \<and> r = Err (transport_from_io e) \<and>
       ((\<exists>t. r = Err (T_Io t)) \<longleftrightarrow> io_kind e = OtherKind)) \<and>
    (\<forall>child' child'' e. shut = Inr () \<longrightarrow> sl_wait lib (from_secs 5) child = (child', Pending) \<longrightarrow>
       sl_kill lib child' = (child'', Inl e) \<longrightarrow> ((\<exists>t. r = Err (T_Io t)) \<longleftrightarrow> io_kind e = OtherKind))"
proof (intro conjI)
  have closed: "shut = Inr () \<Longrightarrow> s' = s\<lparr>ss_write := w, ss_child := None\<rparr> \<and> r = snd (stdio_end_child lib child)"
    "shut = Inl e \<Longrightarrow> s' = s\<lparr>ss_write := w\<rparr> \<and> r = Err (transport_from_io e)" for e
    using assms(2-4) by (auto simp: stdio_close_def)
  have ended: "snd (stdio_end_child lib child) = Ok () \<Longrightarrow> \<not> running (fst (stdio_end_child lib child))"
    using assms(1)
    by (auto simp: stdio_end_child_def process_laws_def of_io_eq_Ok split: prod.splits wait.splits sum.splits)
  show "r = Ok () \<longrightarrow> \<not> running (fst (stdio_end_child lib child))"
    using closed ended by (cases shut) auto
  show "shut = Inr () \<longrightarrow> ss_child s' = None \<and> r = snd (stdio_end_child lib child) \<and>
       snd (stdio_close lib s') = of_io transport_from_io (snd (sl_shutdown lib w))"
    using closed(1) by (auto simp: stdio_close_def of_io_def split: prod.splits sum.splits)
  show "\<forall>child' e. shut = Inr () \<longrightarrow> sl_wait lib (from_secs 5) child = (child', Ready (Inl e)) \<longrightarrow>
       fst (stdio_end_child lib child) = child' \<and> r = Err (T_Io (io_text e))"
    using closed(1) by (simp add: stdio_end_child_def)
  show "\<forall>e. shut = Inl e \<longrightarrow> ss_child s' = Some child \<and> r = Err (transport_from_io e) \<and>
       ((\<exists>t. r = Err (T_Io t)) \<longleftrightarrow> io_kind e = OtherKind)"
    using closed(2) assms(2) by (simp add: transport_from_io_Io)
  show "\<forall>child' child'' e. shut = Inr () \<longrightarrow> sl_wait lib (from_secs 5) child = (child', Pending) \<longrightarrow>
       sl_kill lib child' = (child'', Inl e) \<longrightarrow> ((\<exists>t. r = Err (T_Io t)) \<longleftrightarrow> io_kind e = OtherKind)"
    using closed(1) by (simp add: stdio_end_child_def of_io_def transport_from_io_Io)
qed

definition demo_stdio_lib :: "(bool, unit, unit) stdio_lib" where
  "demo_stdio_lib =
     \<lparr>sl_now = 0, sl_spawn = (\<lambda>c. Inr True), sl_take_stdin = (\<lambda>c. (c, Some ())),
      sl_take_stdout = (\<lambda>c. (c, Some ())), sl_id = (\<lambda>c. Some 7),
      sl_try_wait = (\<lambda>c. (c, Inr None)), sl_own_stdin = (), sl_own_stdout = (),
      sl_shutdown = (\<lambda>w. (w, Inr ())), sl_wait = (\<lambda>t c. (c, Pending)),
      sl_kill = (\<lambda>c. (False, Inr ()))\<rparr>"

text \<open>A child that does not exit by itself and is killed.\<close>

theorem stdio_close_outcome_witness:
  "let s = \<lparr>ss_write = (), ss_read = (), ss_child = Some True, ss_info = ss_info (stdio_new_from_self demo_stdio_lib),
       ss_timeouts = stdio_timeouts_30\<rparr>
   in snd (stdio_close demo_stdio_lib s) = Ok () \<and> \<not> fst (stdio_end_child demo_stdio_lib True) \<and>
     ss_child (fst (stdio_close demo_stdio_lib s)) = None"
proof -
  define s where "s = \<lparr>ss_write = (), ss_read = (), ss_child = Some True,
    ss_info = ss_info (stdio_new_from_self demo_stdio_lib), ss_timeouts = stdio_timeouts_30\<rparr>"
  have laws: "process_laws demo_stdio_lib (\<lambda>c. c)"
    by (simp add: process_laws_def demo_stdio_lib_def)
  have child: "ss_child s = Some True"
    by (simp add: s_def)
  have shut: "sl_shutdown demo_stdio_lib (ss_write s) = ((), Inr ())"
    by (simp add: demo_stdio_lib_def)
  have "snd (stdio_end_child demo_stdio_lib True) = Ok ()"
    by (simp add: stdio_end_child_def demo_stdio_lib_def of_io_def)
  with stdio_close_outcome [OF laws child prod.collapse [symmetric] shut] show ?thesis
    unfolding s_def [symmetric] by (simp add: Let_def)
qed

end
