(* ===== verification/Websocket_Transport.thy ===== *)
theory Websocket_Transport
  imports Stream_Objects
begin

text \<open>
  The WebSocket transport of \<open>websocket.rs\<close>: URL checks, connecting and listening, and the
  byte-stream view it gives of a message-oriented connection in \<open>poll_read\<close> and
  \<open>poll_write\<close>. The connection itself is a parameter.
\<close>

section \<open>Parameters\<close>

datatype ws_message = WsBinary bytes | WsText bytes | WsClose | WsPing bytes | WsPong bytes | WsFrame

text \<open>
  One poll of the connection is \<open>Pending\<close> or \<open>Ready\<close>; \<open>wl_next\<close> is the next message,
  \<open>wl_ready\<close>, \<open>wl_start_send\<close>, \<open>wl_flush\<close> and \<open>wl_close\<close> are the sink's operations, and
  \<open>wl_close_handshake\<close> is \<open>WebSocketStream::close(None)\<close> awaited.
  Connecting, accepting and the handshake give a connection or an error by its text.
\<close>

record ('s, 'l, 't) ws_lib =
  wl_url_parse :: url_parser
  wl_now :: instant
  wl_connect :: "string \<Rightarrow> string + 's"
  wl_bind :: "string \<Rightarrow> io_error + 'l"
  wl_accept :: "'l \<Rightarrow> io_error + 't"
  wl_handshake :: "'t \<Rightarrow> string + 's"
  wl_listener_addr :: "'l \<Rightarrow> io_error + string"
  wl_is_terminated :: "'s \<Rightarrow> bool"
  wl_next :: "'s \<Rightarrow> 's \<times> (ws_error + ws_message) option wait"
  wl_ready :: "'s \<Rightarrow> 's \<times> (ws_error + unit) wait"
  wl_start_send :: "ws_message \<Rightarrow> 's \<Rightarrow> 's \<times> (ws_error + unit)"
  wl_flush :: "'s \<Rightarrow> 's \<times> (ws_error + unit) wait"
  wl_close :: "'s \<Rightarrow> 's \<times> (ws_error + unit) wait"
  wl_close_handshake :: "'s \<Rightarrow> 's \<times> (ws_error + unit)"
  wl_error_text :: "ws_error \<Rightarrow> string"

section \<open>The model\<close>

record ws_config =
  wc_max_message_size :: usize
  wc_enable_tls :: bool

record ws_transport =
  wt_config :: ws_config

definition ws_config_default :: ws_config where
  "ws_config_default = \<lparr>wc_max_message_size = 1024 * 1024, wc_enable_tls = True\<rparr>"

definition ws_new :: ws_transport where
  "ws_new = \<lparr>wt_config = ws_config_default\<rparr>"

definition ws_default :: ws_transport where
  "ws_default = ws_new"

definition ws_with_config :: "ws_config \<Rightarrow> ws_transport" where
  "ws_with_config config = \<lparr>wt_config = config\<rparr>"

definition ws_parse_url :: "url_parser \<Rightarrow> string \<Rightarrow> url transport_result" where
  "ws_parse_url parse u =
     res_bind (parse_url_with parse u) (\<lambda>parsed.
       if \<not> starts_with (url_scheme parsed) ''ws'' then
         Err (T_InvalidUrl (''Expected ws:// or wss:// scheme, got '' @ url_scheme parsed @ ''://''))
       else Ok parsed)"

record 's ws_stream =
  wst_stream :: 's
  wst_info :: connection_info
  wst_timeouts :: connection_timeouts

definition ws_stream_new :: "instant \<Rightarrow> 's \<Rightarrow> url \<Rightarrow> 's ws_stream" where
  "ws_stream_new now stream u =
     \<lparr>wst_stream = stream,
      wst_info = \<lparr>ci_transport_type = ''websocket'', ci_local_addr = Some (url_text u),
        ci_remote_addr = None, ci_metadata = fmempty, ci_established_at = now\<rparr>,
      wst_timeouts = timeouts_default\<rparr>"

definition ws_connection_info :: "'s ws_stream \<Rightarrow> connection_info" where
  "ws_connection_info s = wst_info s"

definition ws_timeouts :: "'s ws_stream \<Rightarrow> connection_timeouts" where
  "ws_timeouts s = wst_timeouts s"

definition ws_is_connected :: "('s, 'l, 't) ws_lib \<Rightarrow> 's ws_stream \<Rightarrow> bool" where
  "ws_is_connected lib s \<longleftrightarrow> \<not> wl_is_terminated lib (wst_stream s)"

definition ws_stream_close :: "('s, 'l, 't) ws_lib \<Rightarrow> 's ws_stream \<Rightarrow> 's ws_stream \<times> unit transport_result" where
  "ws_stream_close lib s =
     (case wl_close_handshake lib (wst_stream s) of
        (s', Inl e) \<Rightarrow> (s\<lparr>wst_stream := s'\<rparr>, Err (transport_from_ws e))
      | (s', Inr _) \<Rightarrow> (s\<lparr>wst_stream := s'\<rparr>, Ok ()))"

text \<open>Every error of the connection becomes an I/O error of kind \<open>Other\<close>.\<close>

definition ws_io_error :: "('s, 'l, 't) ws_lib \<Rightarrow> ws_error \<Rightarrow> io_error" where
  "ws_io_error lib e = \<lparr>io_kind = OtherKind, io_text = wl_error_text lib e\<rparr>"

definition ws_poll_read ::
  "('s, 'l, 't) ws_lib \<Rightarrow> 's ws_stream \<Rightarrow> read_buf \<Rightarrow> 's ws_stream \<times> (read_buf, io_error) res wait" where
  "ws_poll_read lib s buf =
     (case wl_next lib (wst_stream s) of
        (s', next) \<Rightarrow>
          (s\<lparr>wst_stream := s'\<rparr>,
           case next of
             Pending \<Rightarrow> Pending
           | Ready (Some (Inr (WsBinary data))) \<Rightarrow> Ready (put_slice data buf)
           | Ready (Some (Inr (WsText txt))) \<Rightarrow> Ready (put_slice txt buf)
           | Ready (Some (Inr WsClose)) \<Rightarrow> Ready (Ok buf)
           | Ready None \<Rightarrow> Ready (Ok buf)
           | Ready (Some (Inl e)) \<Rightarrow> Ready (Err (ws_io_error lib e))
           | Ready (Some (Inr _)) \<Rightarrow> Pending))"

definition ws_poll_write ::
  "('s, 'l, 't) ws_lib \<Rightarrow> 's ws_stream \<Rightarrow> bytes \<Rightarrow> 's ws_stream \<times> (usize, io_error) res wait" where
  "ws_poll_write lib s buf =
     (case wl_ready lib (wst_stream s) of
        (s1, Pending) \<Rightarrow> (s\<lparr>wst_stream := s1\<rparr>, Pending)
      | (s1, Ready (Inl e)) \<Rightarrow> (s\<lparr>wst_stream := s1\<rparr>, Ready (Err (ws_io_error lib e)))
      | (s1, Ready (Inr _)) \<Rightarrow>
          (case wl_start_send lib (WsBinary buf) s1 of
             (s2, Inl e) \<Rightarrow> (s\<lparr>wst_stream := s2\<rparr>, Ready (Err (ws_io_error lib e)))
           | (s2, Inr _) \<Rightarrow> (s\<lparr>wst_stream := s2\<rparr>, Ready (Ok (usize_len buf)))))"

definition ws_unit_poll ::
  "('s, 'l, 't) ws_lib \<Rightarrow> 's ws_stream \<Rightarrow> 's \<times> (ws_error + unit) wait \<Rightarrow>
   's ws_stream \<times> (unit, io_error) res wait" where
  "ws_unit_poll lib s polled =
     (case polled of
        (s', Pending) \<Rightarrow> (s\<lparr>wst_stream := s'\<rparr>, Pending)
      | (s', Ready (Inr _)) \<Rightarrow> (s\<lparr>wst_stream := s'\<rparr>, Ready (Ok ()))
      | (s', Ready (Inl e)) \<Rightarrow> (s\<lparr>wst_stream := s'\<rparr>, Ready (Err (ws_io_error lib e))))"

definition ws_poll_flush ::
  "('s, 'l, 't) ws_lib \<Rightarrow> 's ws_stream \<Rightarrow> 's ws_stream \<times> (unit, io_error) res wait" where
  "ws_poll_flush lib s = ws_unit_poll lib s (wl_flush lib (wst_stream s))"

definition ws_poll_shutdown ::
  "('s, 'l, 't) ws_lib \<Rightarrow> 's ws_stream \<Rightarrow> 's ws_stream \<times> (unit, io_error) res wait" where
  "ws_poll_shutdown lib s = ws_unit_poll lib s (wl_close lib (wst_stream s))"

definition ws_io :: "('s, 'l, 't) ws_lib \<Rightarrow> 's ws_stream async_io" where
  "ws_io lib =
     \<lparr>ai_poll_read = ws_poll_read lib, ai_poll_write = ws_poll_write lib,
      ai_poll_flush = ws_poll_flush lib, ai_poll_shutdown = ws_poll_shutdown lib\<rparr>"

definition ws_ops :: "('s, 'l, 't) ws_lib \<Rightarrow> 's ws_stream stream_ops" where
  "ws_ops lib =
     \<lparr>so_io = ws_io lib, so_connection_info = ws_connection_info, so_is_connected = ws_is_connected lib,
      so_close = (\<lambda>s. map_prod id Ready (ws_stream_close lib s)), so_timeouts = ws_timeouts\<rparr>"

lemmas ws_stream_defs =
  ws_ops_def ws_io_def ws_connection_info_def ws_timeouts_def ws_poll_read_def ws_poll_write_def
  ws_poll_flush_def ws_poll_shutdown_def ws_unit_poll_def ws_stream_close_def

lemma ws_perform_keeps:
  "perform (ws_ops lib) c s = (s', a) \<Longrightarrow> wst_info s' = wst_info s \<and> wst_timeouts s' = wst_timeouts s"
  by (cases c) (auto simp: ws_stream_defs split: prod.splits wait.splits sum.splits)

lemma ws_identity: "so_connection_info (ws_ops lib) = wst_info" "so_timeouts (ws_ops lib) = wst_timeouts"
  by (simp_all add: ws_stream_defs fun_eq_iff)

interpretation ws_object: transport_stream "ws_ops lib" for lib :: "('s, 'l, 't) ws_lib"
  by unfold_locales (simp_all add: ws_identity ws_perform_keeps)

lemma unat_usize_len_le: "unat (usize_len bs) \<le> length bs"
  by (simp add: usize_len_def unat_of_nat)

interpretation ws_bytes: async_stream "ws_io lib" for lib :: "('s, 'l, 't) ws_lib"
  by unfold_locales
    (auto simp: ws_io_def ws_poll_read_def ws_poll_write_def unat_usize_len_le intro: put_slice_extends
      split: prod.splits wait.splits option.splits sum.splits ws_message.splits)

text \<open>Connecting, listening and accepting.\<close>

definition ws_connect :: "('s, 'l, 't) ws_lib \<Rightarrow> ws_transport \<Rightarrow> string \<Rightarrow> 's ws_stream transport_result" where
  "ws_connect lib tr u =
     res_bind (ws_parse_url (wl_url_parse lib) u) (\<lambda>parsed_url.
       case wl_connect lib (url_text parsed_url) of
         Inl e \<Rightarrow> Err (T_ConnectionFailure (''WebSocket connection to '' @ [char_of (39 :: nat)] @
           url_text parsed_url @ [char_of (39 :: nat)] @ '' failed: '' @ e))
       | Inr ws_stream \<Rightarrow> Ok (ws_stream_new (wl_now lib) ws_stream parsed_url))"

record 'l ws_listener =
  wls_listener :: 'l
  wls_url :: url
  wls_config :: ws_config

definition ws_listen :: "('s, 'l, 't) ws_lib \<Rightarrow> ws_transport \<Rightarrow> string \<Rightarrow> 'l ws_listener transport_result" where
  "ws_listen lib tr u =
     res_bind (ws_parse_url (wl_url_parse lib) u) (\<lambda>parsed_url.
       if url_scheme parsed_url = ''wss'' then
         Err (T_UnsupportedTransport ''wss:// listener is not supported yet'')
       else
         (case url_host_str parsed_url of
            None \<Rightarrow> Err (T_InvalidUrl ''Missing host'')
          | Some host \<Rightarrow>
              (case url_port parsed_url of
                 None \<Rightarrow> Err (T_InvalidUrl ''Missing port'')
               | Some port \<Rightarrow>
                   let addr = host @ '':'' @ display_nat (unat port) in
                   res_bind (of_io (io_failed (''Failed to bind to '' @ addr)) (wl_bind lib addr))
                     (\<lambda>l. Ok \<lparr>wls_listener = l, wls_url = parsed_url, wls_config = wt_config tr\<rparr>))))"

definition ws_accept :: "('s, 'l, 't) ws_lib \<Rightarrow> 'l ws_listener \<Rightarrow> 's ws_stream transport_result" where
  "ws_accept lib ls =
     res_bind (of_io (io_failed ''Failed to accept TCP connection'') (wl_accept lib (wls_listener ls)))
       (\<lambda>tcp.
         case wl_handshake lib tcp of
           Inl e \<Rightarrow> Err (T_ConnectionFailure (''Failed to complete WebSocket handshake for listener '' @
             url_text (wls_url ls) @ '': '' @ e))
         | Inr ws_stream \<Rightarrow> Ok (ws_stream_new (wl_now lib) ws_stream (wls_url ls)))"

definition ws_listener_local_addr :: "('s, 'l, 't) ws_lib \<Rightarrow> 'l ws_listener \<Rightarrow> string transport_result" where
  "ws_listener_local_addr lib ls =
     of_io (io_failed ''Failed to get local address'') (wl_listener_addr lib (wls_listener ls))"

definition ws_listener_close :: "'l ws_listener \<Rightarrow> unit transport_result" where
  "ws_listener_close ls = Ok ()"

definition ws_transport_type :: string where
  "ws_transport_type = ''websocket''"

definition ws_supports_url :: "string \<Rightarrow> bool" where
  "ws_supports_url u \<longleftrightarrow> starts_with u ''ws://'' \<or> starts_with u ''wss://''"

interpretation ws_scheme: scheme_transport ws_supports_url "[''ws'', ''wss'']"
  by unfold_locales (auto simp: ws_supports_url_def)

section \<open>Properties\<close>

text \<open>
  What one read of a WebSocket connection does, on every message: binary and text data
  are appended to the buffer when they fit and abort the process when they do not (the
  stream never keeps a rest for the next read), a close frame and the end of the stream
  read as end of file, a control frame reads as \<open>Pending\<close> although the connection was
  ready, and bytes once in the buffer are never changed.
\<close>

theorem ws_read_outcome:
  assumes "wl_next lib (wst_stream s) = (s', Ready item)" and "ws_poll_read lib s buf = (t, r)"
  shows "wst_stream t = s' \<and>
    (item = Some (Inr (WsBinary bs)) \<or> item = Some (Inr (WsText bs)) \<longrightarrow>
       (if length bs \<le> rb_remaining buf
        then (\<exists>b. r = Ready (Ok b) \<and> rb_filled b = rb_filled buf @ bs \<and>
           rb_remaining b + length bs = rb_remaining buf)
        else r = Ready Panic)) \<and>
    (item = None \<or> item = Some (Inr WsClose) \<longrightarrow> r = Ready (Ok buf)) \<and>
    (item = Some (Inr (WsPing bs)) \<or> item = Some (Inr (WsPong bs)) \<longrightarrow> r = Pending) \<and>
    (\<forall>b. r = Ready (Ok b) \<longrightarrow> take (length (rb_filled buf)) (rb_filled b) = rb_filled buf)"
  using assms
  by (auto simp: ws_poll_read_def put_slice_def split: option.splits sum.splits ws_message.splits if_splits)

definition demo_ws_lib :: "(ws_message list, unit, unit) ws_lib" where
  "demo_ws_lib =
     \<lparr>wl_url_parse = (\<lambda>u. Inl ''unsupported''), wl_now = 0, wl_connect = (\<lambda>u. Inr []),
      wl_bind = (\<lambda>a. Inr ()), wl_accept = (\<lambda>l. Inr ()), wl_handshake = (\<lambda>t. Inr []),
      wl_listener_addr = (\<lambda>l. Inr []), wl_is_terminated = (\<lambda>s. s = []),
      wl_next = (\<lambda>s. case s of [] \<Rightarrow> ([], Ready None) | m # ms \<Rightarrow> (ms, Ready (Some (Inr m)))),
      wl_ready = (\<lambda>s. (s, Ready (Inr ()))), wl_start_send = (\<lambda>m s. (s @ [m], Inr ())),
      wl_flush = (\<lambda>s. (s, Ready (Inr ()))), wl_close = (\<lambda>s. (s, Ready (Inr ()))),
      wl_close_handshake = (\<lambda>s. (s, Inr ())),
      wl_error_text = (\<lambda>e. [])\<rparr>"

definition demo_ws_stream :: "ws_message list \<Rightarrow> ws_message list ws_stream" where
  "demo_ws_stream ms =
     ws_stream_new 0 ms \<lparr>url_scheme = ''ws'', url_host_str = None, url_port = None, url_path = [],
       url_text = ''ws:''\<rparr>"

theorem ws_read_outcome_witness:
  "snd (ws_poll_read demo_ws_lib (demo_ws_stream [WsBinary [1, 2, 3]])
     \<lparr>rb_filled = [], rb_remaining = 2\<rparr>) = Ready Panic"
proof -
  have "wl_next demo_ws_lib (wst_stream (demo_ws_stream [WsBinary [1, 2, 3]])) =
      ([], Ready (Some (Inr (WsBinary [1, 2, 3]))))"
    by (simp add: demo_ws_lib_def demo_ws_stream_def ws_stream_new_def)
  from ws_read_outcome [OF this prod.collapse [symmetric], of "\<lparr>rb_filled = [], rb_remaining = 2\<rparr>" "[1, 2, 3]"]
  show ?thesis by simp
qed

end
