(* ===== verification/Channel_Transport.thy ===== *)
theory Channel_Transport
  imports Stream_Objects "HOL-Library.Multiset"
begin

text \<open>
  The in-process transport of \<open>channel.rs\<close>. The global registry maps a channel name to the
  queue of endpoints that wait for a counterpart. \<open>connect\<close> works in two critical
  sections, one that looks for a waiting endpoint and one that leaves a new one; the step
  relation \<open>chan_step\<close> interleaves any number of calls at that boundary.
\<close>

section \<open>The model\<close>

record 'e channel_stream =
  cs_end :: 'e
  cs_info :: connection_info
  cs_connected :: bool

text \<open>\<open>tokio::io::split\<close> keeps both halves of the one endpoint \<open>cs_end\<close>.\<close>

definition channel_stream_new :: "instant \<Rightarrow> 'e \<Rightarrow> string \<Rightarrow> 'e channel_stream" where
  "channel_stream_new now stream name =
     \<lparr>cs_end = stream,
      cs_info = \<lparr>ci_transport_type = ''chan'', ci_local_addr = Some (''chan://'' @ name),
        ci_remote_addr = Some (''chan://'' @ name), ci_metadata = fmempty, ci_established_at = now\<rparr>,
      cs_connected = True\<rparr>"

definition channel_connection_info :: "'e channel_stream \<Rightarrow> connection_info" where
  "channel_connection_info s = cs_info s"

definition channel_is_connected :: "'e channel_stream \<Rightarrow> bool" where
  "channel_is_connected s = cs_connected s"

definition channel_close :: "'e channel_stream \<Rightarrow> 'e channel_stream \<times> unit transport_result" where
  "channel_close s = (s\<lparr>cs_connected := False\<rparr>, Ok ())"

definition channel_timeouts :: "'e channel_stream \<Rightarrow> connection_timeouts" where
  "channel_timeouts s = timeouts_default"

definition channel_poll_read ::
  "'e async_io \<Rightarrow> 'e channel_stream \<Rightarrow> read_buf \<Rightarrow> 'e channel_stream \<times> (read_buf, io_error) res wait" where
  "channel_poll_read io s buf = on_field cs_end cs_end_update (\<lambda>x. ai_poll_read io x buf) s"

definition channel_poll_write ::
  "'e async_io \<Rightarrow> 'e channel_stream \<Rightarrow> bytes \<Rightarrow> 'e channel_stream \<times> (usize, io_error) res wait" where
  "channel_poll_write io s buf = on_field cs_end cs_end_update (\<lambda>x. ai_poll_write io x buf) s"

definition channel_poll_flush ::
  "'e async_io \<Rightarrow> 'e channel_stream \<Rightarrow> 'e channel_stream \<times> (unit, io_error) res wait" where
  "channel_poll_flush io = on_field cs_end cs_end_update (ai_poll_flush io)"

definition channel_poll_shutdown ::
  "'e async_io \<Rightarrow> 'e channel_stream \<Rightarrow> 'e channel_stream \<times> (unit, io_error) res wait" where
  "channel_poll_shutdown io = on_field cs_end cs_end_update (ai_poll_shutdown io)"

definition channel_ops :: "'e async_io \<Rightarrow> 'e channel_stream stream_ops" where
  "channel_ops io =
     \<lparr>so_io = \<lparr>ai_poll_read = channel_poll_read io, ai_poll_write = channel_poll_write io,
        ai_poll_flush = channel_poll_flush io, ai_poll_shutdown = channel_poll_shutdown io\<rparr>,
      so_connection_info = channel_connection_info, so_is_connected = channel_is_connected,
      so_close = (\<lambda>s. map_prod id Ready (channel_close s)), so_timeouts = channel_timeouts\<rparr>"

lemmas channel_stream_defs =
  channel_ops_def channel_poll_read_def channel_poll_write_def channel_poll_flush_def
  channel_poll_shutdown_def channel_close_def channel_timeouts_def channel_connection_info_def on_field_def

lemma channel_identity:
  "so_connection_info (channel_ops io) = cs_info" "so_timeouts (channel_ops io) = (\<lambda>_. timeouts_default)"
  by (simp_all add: channel_stream_defs fun_eq_iff)

lemma channel_perform_keeps: "perform (channel_ops io) c s = (s', a) \<Longrightarrow> cs_info s' = cs_info s"
  by (cases c) (auto simp: channel_stream_defs split: prod.splits)

interpretation channel_object: transport_stream "channel_ops io" for io :: "'e async_io"
  by unfold_locales (simp_all add: channel_identity channel_perform_keeps)

text \<open>\<open>ChannelTransport\<close> has no state.\<close>

definition channel_transport_new :: unit where
  "channel_transport_new = ()"

definition channel_transport_default :: unit where
  "channel_transport_default = channel_transport_new"

text \<open>
  The registry, and the number of \<open>duplex\<close> calls made so far: \<open>dup size k\<close> is the pair of
  connected endpoints that call number \<open>k\<close> of \<open>tokio::io::duplex\<close> returns.
\<close>

type_synonym 'e duplex_fun = "usize \<Rightarrow> nat \<Rightarrow> 'e \<times> 'e"
type_synonym 'e registry = "string \<rightharpoonup> 'e list"

record 'e channel_state =
  chan_registry :: "'e registry"
  chan_duplexes :: nat

definition channel_name :: "url_parser \<Rightarrow> string \<Rightarrow> string transport_result" where
  "channel_name parse u =
     res_bind (parse_url_with parse u) (\<lambda>parsed.
       if url_scheme parsed \<noteq> ''chan'' then
         Err (T_UnsupportedTransport (''invalid scheme for channel transport: '' @ url_scheme parsed))
       else
         let name = (case url_host_str parsed of Some host \<Rightarrow> host | None \<Rightarrow> '''') in
         if name = [] then Err (T_InvalidUrl ''channel name missing'') else Ok name)"

text \<open>The first critical section: \<open>get_mut\<close> and \<open>pop_front\<close>.\<close>

definition chan_take :: "'e channel_state \<Rightarrow> string \<Rightarrow> 'e channel_state \<times> 'e option" where
  "chan_take st name =
     (case chan_registry st name of
        Some (stream # entry) \<Rightarrow> (st\<lparr>chan_registry := (chan_registry st)(name \<mapsto> entry)\<rparr>, Some stream)
      | _ \<Rightarrow> (st, None))"

text \<open>The second: a new duplex, one half at the end of the queue, the other for the caller.\<close>

definition chan_offer :: "'e duplex_fun \<Rightarrow> 'e channel_state \<Rightarrow> string \<Rightarrow> 'e channel_state \<times> 'e" where
  "chan_offer dup st name =
     (let (a, b) = dup (8 * 1024) (chan_duplexes st);
          entry = (case chan_registry st name of Some q \<Rightarrow> q | None \<Rightarrow> [])
      in (st\<lparr>chan_registry := (chan_registry st)(name \<mapsto> entry @ [a]),
            chan_duplexes := Suc (chan_duplexes st)\<rparr>, b))"

definition channel_connect ::
  "url_parser \<Rightarrow> 'e duplex_fun \<Rightarrow> instant \<Rightarrow> 'e channel_state \<Rightarrow> string \<Rightarrow>
   'e channel_state \<times> 'e channel_stream transport_result" where
  "channel_connect parse dup now st u =
     (case channel_name parse u of
        Err e \<Rightarrow> (st, Err e)
      | Panic \<Rightarrow> (st, Panic)
      | Ok name \<Rightarrow>
          (case chan_take st name of
             (st', Some stream) \<Rightarrow> (st', Ok (channel_stream_new now stream name))
           | (st', None) \<Rightarrow>
               (case chan_offer dup st' name of
                  (st'', b) \<Rightarrow> (st'', Ok (channel_stream_new now b name)))))"

definition channel_listen :: "string \<Rightarrow> 'l transport_result" where
  "channel_listen u = Err (T_UnsupportedTransport ''channel transport does not support listen'')"

definition channel_transport_type :: string where
  "channel_transport_type = ''chan''"

definition channel_supports_url :: "string \<Rightarrow> bool" where
  "channel_supports_url u = starts_with u ''chan://''"

interpretation channel_scheme: scheme_transport channel_supports_url "[''chan'']"
  by unfold_locales (simp_all add: channel_supports_url_def)

section \<open>Interleaved calls\<close>

datatype 'e call = Called string | Missed string | Joined string 'e

record 'e chan_config =
  cc_state :: "'e channel_state"
  cc_calls :: "'e call list"

inductive chan_step :: "'e duplex_fun \<Rightarrow> 'e chan_config \<Rightarrow> 'e chan_config \<Rightarrow> bool" for dup where
  arrive: "name \<noteq> [] \<Longrightarrow> chan_step dup c (c\<lparr>cc_calls := cc_calls c @ [Called name]\<rparr>)"
| hit: "i < length (cc_calls c) \<Longrightarrow> cc_calls c ! i = Called name \<Longrightarrow>
    chan_take (cc_state c) name = (st, Some e) \<Longrightarrow>
    chan_step dup c \<lparr>cc_state = st, cc_calls = (cc_calls c)[i := Joined name e]\<rparr>"
| miss: "i < length (cc_calls c) \<Longrightarrow> cc_calls c ! i = Called name \<Longrightarrow>
    chan_take (cc_state c) name = (st, None) \<Longrightarrow>
    chan_step dup c \<lparr>cc_state = st, cc_calls = (cc_calls c)[i := Missed name]\<rparr>"
| offer: "i < length (cc_calls c) \<Longrightarrow> cc_calls c ! i = Missed name \<Longrightarrow>
    chan_offer dup (cc_state c) name = (st, b) \<Longrightarrow>
    chan_step dup c \<lparr>cc_state = st, cc_calls = (cc_calls c)[i := Joined name b]\<rparr>"

inductive_cases chan_stepE: "chan_step dup c c'"

definition chan_init :: "'e chan_config" where
  "chan_init = \<lparr>cc_state = \<lparr>chan_registry = Map.empty, chan_duplexes = 0\<rparr>, cc_calls = []\<rparr>"

abbreviation chan_reach :: "'e duplex_fun \<Rightarrow> 'e chan_config \<Rightarrow> bool" where
  "chan_reach dup \<equiv> (chan_step dup)\<^sup>*\<^sup>* chan_init"

section \<open>The abstract specification\<close>

text \<open>
  Abstractly a channel registry is the list of names for which a duplex was made and the
  set of those duplexes whose first half still waits. \<open>chan_refines\<close> relates a
  configuration to it: every queue holds the waiting halves of its name, oldest first;
  the second half of every duplex and the first half of every taken one belong to joined
  calls of its name, and to no other call.
\<close>

definition first_end :: "'e duplex_fun \<Rightarrow> nat \<Rightarrow> 'e" where
  "first_end dup k = fst (dup (8 * 1024) k)"

definition second_end :: "'e duplex_fun \<Rightarrow> nat \<Rightarrow> 'e" where
  "second_end dup k = snd (dup (8 * 1024) k)"

lemma chan_offer_ends:
  "chan_offer dup st name =
     (st\<lparr>chan_registry := (chan_registry st)
         (name \<mapsto> (case chan_registry st name of Some q \<Rightarrow> q | None \<Rightarrow> []) @ [first_end dup (chan_duplexes st)]),
        chan_duplexes := Suc (chan_duplexes st)\<rparr>, second_end dup (chan_duplexes st))"
  by (simp add: chan_offer_def first_end_def second_end_def split_beta)

definition queued :: "'e channel_state \<Rightarrow> string \<Rightarrow> 'e list" where
  "queued st name = (case chan_registry st name of Some q \<Rightarrow> q | None \<Rightarrow> [])"

fun joined_of :: "'e call \<Rightarrow> (string \<times> 'e) list" where
  "joined_of (Joined name e) = [(name, e)]"
| "joined_of _ = []"

definition joined :: "'e call list \<Rightarrow> (string \<times> 'e) multiset" where
  "joined calls = mset (concat (map joined_of calls))"

definition waiting_on :: "string list \<Rightarrow> nat set \<Rightarrow> string \<Rightarrow> nat list" where
  "waiting_on names waiting name = filter (\<lambda>k. k \<in> waiting \<and> names ! k = name) [0..<length names]"

definition handed_out :: "'e duplex_fun \<Rightarrow> string list \<Rightarrow> nat set \<Rightarrow> (string \<times> 'e) multiset" where
  "handed_out dup names waiting =
     mset (map (\<lambda>k. (names ! k, second_end dup k)) [0..<length names]) +
     mset (map (\<lambda>k. (names ! k, first_end dup k)) (filter (\<lambda>k. k \<notin> waiting) [0..<length names]))"

definition chan_refines :: "'e duplex_fun \<Rightarrow> string list \<Rightarrow> nat set \<Rightarrow> 'e chan_config \<Rightarrow> bool" where
  "chan_refines dup names waiting c \<longleftrightarrow>
     chan_duplexes (cc_state c) = length names \<and> waiting \<subseteq> {..<length names} \<and>
     (\<forall>name. queued (cc_state c) name = map (first_end dup) (waiting_on names waiting name)) \<and>
     joined (cc_calls c) = handed_out dup names waiting"

lemma joined_update:
  assumes "i < length calls" and "joined_of (calls ! i) = []"
  shows "joined (calls[i := x]) = mset (joined_of x) + joined calls"
proof -
  have "calls = take i calls @ calls ! i # drop (Suc i) calls"
    using assms(1) by (rule id_take_nth_drop)
  then have "joined calls = joined (take i calls @ calls ! i # drop (Suc i) calls)"
    by simp
  then show ?thesis
    using assms by (simp add: joined_def upd_conv_take_nth_drop)
qed

lemma joined_append [simp]: "joined (calls @ [Called name]) = joined calls"
  by (simp add: joined_def)

lemma waiting_on_snoc:
  assumes "waiting \<subseteq> {..<length names}"
  shows "waiting_on (names @ [name]) (insert (length names) waiting) other =
    waiting_on names waiting other @ (if name = other then [length names] else [])"
proof -
  have "filter (\<lambda>k. (k = length names \<or> k \<in> waiting) \<and> (names @ [name]) ! k = other) [0..<length names] =
      filter (\<lambda>k. k \<in> waiting \<and> names ! k = other) [0..<length names]"
    by (rule filter_cong) (auto simp: nth_append)
  then show ?thesis
    by (simp add: waiting_on_def)
qed

lemma handed_out_snoc:
  assumes "waiting \<subseteq> {..<length names}"
  shows "handed_out dup (names @ [name]) (insert (length names) waiting) =
    add_mset (name, second_end dup (length names)) (handed_out dup names waiting)"
proof -
  have s: "map (\<lambda>k. ((names @ [name]) ! k, second_end dup k)) [0..<length names] =
      map (\<lambda>k. (names ! k, second_end dup k)) [0..<length names]"
    by (simp add: nth_append)
  have f: "map (\<lambda>k. ((names @ [name]) ! k, first_end dup k))
        (filter (\<lambda>k. k \<noteq> length names \<and> k \<notin> waiting) [0..<length names]) =
      map (\<lambda>k. (names ! k, first_end dup k)) (filter (\<lambda>k. k \<notin> waiting) [0..<length names])"
    by (intro map_cong filter_cong) (auto simp: nth_append)
  show ?thesis
    by (simp add: handed_out_def s f del: mset_map mset_upt map_eq_conv)
qed

lemma waiting_on_taken:
  assumes "waiting_on names waiting name = k # ks"
  shows "k \<in> waiting" and "k < length names" and "names ! k = name"
    and "waiting_on names (waiting - {k}) other = (if other = name then ks else waiting_on names waiting other)"
proof -
  have "k \<in> set (waiting_on names waiting name)"
    by (simp add: assms)
  then show k: "k \<in> waiting" "k < length names" "names ! k = name"
    by (auto simp: waiting_on_def)
  have "distinct (k # ks)"
    unfolding assms [symmetric] by (simp add: waiting_on_def)
  have "waiting_on names (waiting - {k}) name = filter (\<lambda>j. j \<noteq> k) (waiting_on names waiting name)"
    by (auto simp: waiting_on_def intro: filter_cong)
  also have "\<dots> = ks"
    using \<open>distinct (k # ks)\<close> by (auto simp: assms filter_id_conv)
  finally show "waiting_on names (waiting - {k}) other =
      (if other = name then ks else waiting_on names waiting other)"
    using k(3) by (auto simp: waiting_on_def intro: filter_cong)
qed

lemma filter_gain:
  assumes "distinct xs" and "k \<in> set xs" and "k \<in> W"
  shows "mset (filter (\<lambda>j. j \<notin> W - {k}) xs) = add_mset k (mset (filter (\<lambda>j. j \<notin> W) xs))"
  using assms
proof (induction xs)
  case (Cons x xs)
  show ?case
  proof (cases "x = k")
    case True
    then have "filter (\<lambda>j. j \<notin> W - {k}) xs = filter (\<lambda>j. j \<notin> W) xs"
      using Cons.prems(1) by (intro filter_cong) auto
    with True Cons.prems(3) show ?thesis by simp
  next
    case False
    with Cons show ?thesis by auto
  qed
qed simp

lemma handed_out_taken:
  assumes "k \<in> waiting" and "k < length names"
  shows "handed_out dup names (waiting - {k}) =
    add_mset (names ! k, first_end dup k) (handed_out dup names waiting)"
  using assms filter_gain [of "[0..<length names]" k waiting]
  by (simp add: handed_out_def)

text \<open>Every step of the code is a step of the specification, or none.\<close>

lemma chan_step_refines:
  assumes "chan_refines dup names waiting c" and "chan_step dup c c'"
  shows "\<exists>names' waiting'. chan_refines dup names' waiting' c'"
  using assms(2)
proof (cases rule: chan_step.cases)
  case (arrive name)
  with assms(1) show ?thesis
    by (auto simp: chan_refines_def)
next
  case (hit i name st e)
  from hit(4) obtain q where reg: "chan_registry (cc_state c) name = Some (e # q)"
    and st: "st = (cc_state c)\<lparr>chan_registry := (chan_registry (cc_state c))(name \<mapsto> q)\<rparr>"
    by (auto simp: chan_take_def split: option.splits list.splits)
  then have "map (first_end dup) (waiting_on names waiting name) = e # q"
    using assms(1) by (auto simp: chan_refines_def queued_def dest: spec [of _ name])
  then obtain k ks where k: "waiting_on names waiting name = k # ks" and e: "e = first_end dup k"
    and q: "q = map (first_end dup) ks"
    by auto
  note taken = waiting_on_taken [OF k]
  have "queued st other = map (first_end dup) (waiting_on names (waiting - {k}) other)" for other
    using assms(1) taken(4) [of other] q st by (auto simp: chan_refines_def queued_def)
  moreover have "joined (cc_calls c') = handed_out dup names (waiting - {k})"
    using assms(1) hit(1-3) e taken by (simp add: joined_update handed_out_taken chan_refines_def)
  ultimately have "chan_refines dup names (waiting - {k}) c'"
    using assms(1) hit(1) st by (auto simp: chan_refines_def)
  then show ?thesis by blast
next
  case (miss i name st)
  then have "st = cc_state c"
    by (auto simp: chan_take_def split: option.splits list.splits)
  with assms(1) miss show ?thesis
    by (auto simp: chan_refines_def joined_update)
next
  case (offer i name st b)
  let ?n = "length names"
  have sub: "waiting \<subseteq> {..<?n}" and n: "chan_duplexes (cc_state c) = ?n"
    using assms(1) by (simp_all add: chan_refines_def)
  have b: "b = second_end dup ?n" and
    st: "st = (cc_state c)\<lparr>chan_registry := (chan_registry (cc_state c))
      (name \<mapsto> queued (cc_state c) name @ [first_end dup ?n]), chan_duplexes := Suc ?n\<rparr>"
    using offer(4) n by (auto simp: chan_offer_ends queued_def)
  have "queued st other =
      map (first_end dup) (waiting_on (names @ [name]) (insert ?n waiting) other)" for other
    using assms(1) st by (auto simp: waiting_on_snoc [OF sub] chan_refines_def queued_def)
  moreover have "joined (cc_calls c') = handed_out dup (names @ [name]) (insert ?n waiting)"
    using assms(1) offer(1-3) b by (simp add: joined_update handed_out_snoc [OF sub] chan_refines_def)
  ultimately have "chan_refines dup (names @ [name]) (insert ?n waiting) c'"
    using sub offer(1) st by (auto simp: chan_refines_def)
  then show ?thesis by blast
qed

lemma chan_reach_refines:
  assumes "chan_reach dup c"
  obtains names waiting where "chan_refines dup names waiting c"
proof -
  have "\<exists>names waiting. chan_refines dup names waiting c"
    using assms
  proof (induction rule: rtranclp_induct)
    case base
    have "chan_refines dup [] {} (chan_init :: 'e chan_config)" for dup :: "'e duplex_fun"
      by (simp add: chan_refines_def chan_init_def queued_def waiting_on_def joined_def handed_out_def)
    then show ?case by blast
  next
    case (step c c')
    then show ?case
      using chan_step_refines by blast
  qed
  then show thesis
    using that by blast
qed

section \<open>Properties\<close>

text \<open>All the endpoints that different calls of \<open>duplex\<close> return are different.\<close>

definition fresh_ends :: "'e duplex_fun \<Rightarrow> bool" where
  "fresh_ends dup \<longleftrightarrow>
     (\<forall>j k. first_end dup j = first_end dup k \<longrightarrow> j = k) \<and>
     (\<forall>j k. second_end dup j = second_end dup k \<longrightarrow> j = k) \<and>
     (\<forall>j k. first_end dup j \<noteq> second_end dup k)"

lemma fresh_end_simps:
  assumes "fresh_ends dup"
  shows "first_end dup j = first_end dup k \<longleftrightarrow> j = k" and "second_end dup j = second_end dup k \<longleftrightarrow> j = k"
    and "first_end dup j \<noteq> second_end dup k" and "second_end dup k \<noteq> first_end dup j"
  using assms unfolding fresh_ends_def by metis+

definition demo_duplex :: "(nat \<times> bool) duplex_fun" where
  "demo_duplex n k = ((k, False), (k, True))"

lemma fresh_demo: "fresh_ends demo_duplex"
  by (simp add: fresh_ends_def first_end_def second_end_def demo_duplex_def)

lemma joined_mem: "calls ! i = Joined name e \<Longrightarrow> i < length calls \<Longrightarrow> (name, e) \<in># joined calls"
  by (auto simp: joined_def in_set_conv_nth intro!: bexI [of _ "calls ! i"])

lemma handed_out_ends:
  assumes "(name, e) \<in># handed_out dup names waiting"
  obtains k where "k < length names" "name = names ! k" "e = second_end dup k"
  | k where "k < length names" "name = names ! k" "e = first_end dup k" "k \<notin> waiting"
  using assms by (auto simp: handed_out_def)

lemma handed_out_once:
  assumes "fresh_ends dup"
  shows "distinct (map (\<lambda>k. (names ! k, second_end dup k)) [0..<length names] @
    map (\<lambda>k. (names ! k, first_end dup k)) (filter (\<lambda>k. k \<notin> waiting) [0..<length names]))"
  by (auto simp: distinct_map inj_on_def fresh_end_simps [OF assms])

lemma count_handed_out:
  assumes "fresh_ends dup"
  shows "count (handed_out dup names waiting) x \<le> 1"
proof -
  have "handed_out dup names waiting =
      mset (map (\<lambda>k. (names ! k, second_end dup k)) [0..<length names] @
        map (\<lambda>k. (names ! k, first_end dup k)) (filter (\<lambda>k. k \<notin> waiting) [0..<length names]))"
    by (simp add: handed_out_def del: mset_map mset_upt)
  also have "count \<dots> x \<le> 1"
    using handed_out_once [OF assms, of names waiting] by (simp only: distinct_count_atmost_1) auto
  finally show ?thesis .
qed

lemma joined_split: "joined (xs @ x # ys) = joined xs + mset (joined_of x) + joined ys"
  by (simp add: joined_def)

lemma joined_twice:
  assumes "i < j" and "j < length calls" and "calls ! i = Joined name e" and "calls ! j = Joined name e"
  shows "2 \<le> count (joined calls) (name, e)"
proof -
  have "joined calls = joined (take j calls) + mset (joined_of (calls ! j)) + joined (drop (Suc j) calls)"
    using joined_split id_take_nth_drop [OF assms(2)] by metis
  moreover have "(name, e) \<in># joined (take j calls)"
    using assms by (intro joined_mem [of _ i]) simp_all
  then have "1 \<le> count (joined (take j calls)) (name, e)"
    by simp
  ultimately show ?thesis
    using assms(4) by (simp add: Suc_le_eq)
qed

text \<open>
  C16. Safety under every interleaving of any number of calls: no endpoint is ever handed
  to two calls, and when two calls hold the two halves of one duplex they asked for the
  same channel name, so a connection never joins different names.
\<close>

theorem channel_pairs_safe:
  assumes "fresh_ends dup" and "chan_reach dup c"
    and "i < length (cc_calls c)" and "j < length (cc_calls c)"
    and "cc_calls c ! i = Joined m e" and "cc_calls c ! j = Joined n f"
  shows "(e = f \<longrightarrow> i = j) \<and> (\<forall>k. e = first_end dup k \<and> f = second_end dup k \<longrightarrow> m = n)"
proof -
  obtain names waiting where R: "chan_refines dup names waiting c"
    by (rule chan_reach_refines [OF assms(2)])
  then have out: "joined (cc_calls c) = handed_out dup names waiting"
    by (simp add: chan_refines_def)
  have mem: "(m, e) \<in># handed_out dup names waiting" "(n, f) \<in># handed_out dup names waiting"
    unfolding out [symmetric] using assms(3-6) by (auto intro: joined_mem)
  have same: "m = n" if "e = f"
    using mem that by (elim handed_out_ends) (auto simp: fresh_end_simps [OF assms(1)])
  have "i = j" if "e = f"
  proof (rule ccontr)
    assume "i \<noteq> j"
    then have "2 \<le> count (joined (cc_calls c)) (m, e)"
      using joined_twice [of i j "cc_calls c" m e] joined_twice [of j i "cc_calls c" m e]
        assms(3-6) that same [OF that] by (cases i j rule: linorder_cases) auto
    then show False
      using count_handed_out [OF assms(1), of names waiting "(m, e)"] by (simp add: out)
  qed
  moreover have "m = n" if "e = first_end dup k" and "f = second_end dup k" for k
    using mem that by (elim handed_out_ends) (auto simp: fresh_end_simps [OF assms(1)])
  ultimately show ?thesis by blast
qed

text \<open>Two calls one after the other, and two calls that both look before either offers.\<close>

lemma chan_step_miss:
  assumes "i < length (cc_calls c)" and "cc_calls c ! i = Called name"
    and "queued (cc_state c) name = []"
  shows "chan_step dup c (c\<lparr>cc_calls := (cc_calls c)[i := Missed name]\<rparr>)"
proof -
  have "chan_take (cc_state c) name = (cc_state c, None)"
    using assms(3) by (auto simp: chan_take_def queued_def split: option.splits)
  from chan_step.miss [OF assms(1,2) this] show ?thesis
    by (cases c) simp
qed

lemmas chan_then = rtranclp.rtrancl_into_rtrancl [of "chan_step dup" chan_init for dup]

theorem channel_pairs_safe_witness:
  "\<exists>c m n. chan_reach demo_duplex c \<and> cc_calls c = [Joined m (0, True), Joined n (0, False)] \<and>
     m = n \<and> m = ''x''"
proof -
  let ?st0 = "\<lparr>chan_registry = Map.empty, chan_duplexes = 0\<rparr> :: (nat \<times> bool) channel_state"
  let ?st1 = "\<lparr>chan_registry = [''x'' \<mapsto> [(0, False)]], chan_duplexes = 1\<rparr> :: (nat \<times> bool) channel_state"
  let ?stz = "\<lparr>chan_registry = [''x'' \<mapsto> []], chan_duplexes = 1\<rparr> :: (nat \<times> bool) channel_state"
  let ?dup = demo_duplex
  have ends: "first_end ?dup k = (k, False)" "second_end ?dup k = (k, True)" for k
    by (simp_all add: first_end_def second_end_def demo_duplex_def)
  have "chan_reach ?dup \<lparr>cc_state = ?st0, cc_calls = []\<rparr>"
    by (simp add: chan_init_def)
  then have "chan_reach ?dup \<lparr>cc_state = ?st0, cc_calls = [Called ''x'']\<rparr>"
    by (rule chan_then) (use chan_step.arrive [of "''x''" ?dup "\<lparr>cc_state = ?st0, cc_calls = []\<rparr>"] in simp)
  then have "chan_reach ?dup \<lparr>cc_state = ?st0, cc_calls = [Missed ''x'']\<rparr>"
    by (rule chan_then)
      (use chan_step_miss [of 0 "\<lparr>cc_state = ?st0, cc_calls = [Called ''x'']\<rparr>" "''x''" ?dup] in
        \<open>simp add: queued_def\<close>)
  then have "chan_reach ?dup \<lparr>cc_state = ?st1, cc_calls = [Joined ''x'' (0, True)]\<rparr>"
    by (rule chan_then)
      (use chan_step.offer [of 0 "\<lparr>cc_state = ?st0, cc_calls = [Missed ''x'']\<rparr>" "''x''" ?dup ?st1 "(0, True)"] in
        \<open>simp add: chan_offer_ends ends\<close>)
  then have "chan_reach ?dup \<lparr>cc_state = ?st1, cc_calls = [Joined ''x'' (0, True), Called ''x'']\<rparr>"
    by (rule chan_then)
      (use chan_step.arrive [of "''x''" ?dup "\<lparr>cc_state = ?st1, cc_calls = [Joined ''x'' (0, True)]\<rparr>"] in simp)
  then have reach: "chan_reach ?dup \<lparr>cc_state = ?stz, cc_calls = [Joined ''x'' (0, True), Joined ''x'' (0, False)]\<rparr>"
    by (rule chan_then)
      (use chan_step.hit [of 1 "\<lparr>cc_state = ?st1, cc_calls = [Joined ''x'' (0, True), Called ''x'']\<rparr>" "''x''"
          ?stz "(0, False)" ?dup] in \<open>simp add: chan_take_def\<close>)
  show ?thesis
    using reach channel_pairs_safe [OF fresh_demo reach, of 1 0] by (fastforce simp: ends)
qed

text \<open>
  Two calls in sequence pair up: when nobody waits on a name, the first \<open>connect\<close> gets
  one half of a new duplex and the second gets the other half of the same one, and then
  again nobody waits; other names are not touched.
\<close>

theorem channel_sequential_pairing:
  assumes "channel_name parse u = Ok name" and "queued st name = []"
    and "channel_connect parse dup t st u = (p, r)" and "channel_connect parse dup t' p u = (q, r')"
  shows "(\<exists>s. r = Ok s \<and> cs_end s = second_end dup (chan_duplexes st)) \<and>
    (\<exists>s. r' = Ok s \<and> cs_end s = first_end dup (chan_duplexes st)) \<and>
    queued q name = [] \<and> (\<forall>other. other \<noteq> name \<longrightarrow> queued q other = queued st other)"
proof -
  let ?k = "chan_duplexes st"
  have take1: "chan_take st name = (st, None)"
    using assms(2) by (auto simp: chan_take_def queued_def split: option.splits)
  have entry: "(case chan_registry st name of Some q \<Rightarrow> q | None \<Rightarrow> []) = []"
    using assms(2) by (simp add: queued_def)
  have p: "p = st\<lparr>chan_registry := (chan_registry st)(name \<mapsto> [first_end dup ?k]),
      chan_duplexes := Suc ?k\<rparr>" and r: "r = Ok (channel_stream_new t (second_end dup ?k) name)"
    using assms(1,3) take1 entry by (simp_all add: channel_connect_def chan_offer_ends)
  then have take2: "chan_take p name =
      (p\<lparr>chan_registry := (chan_registry p)(name \<mapsto> [])\<rparr>, Some (first_end dup ?k))"
    by (simp add: chan_take_def)
  then have q: "q = p\<lparr>chan_registry := (chan_registry p)(name \<mapsto> [])\<rparr>"
    and r': "r' = Ok (channel_stream_new t' (first_end dup ?k) name)"
    using assms(1,4) by (simp_all add: channel_connect_def)
  show ?thesis
    using p q r r' by (simp add: channel_stream_new_def queued_def)
qed

definition demo_chan_parse :: url_parser where
  "demo_chan_parse u = Inr \<lparr>url_scheme = ''chan'', url_host_str = Some ''x'', url_port = None,
     url_path = [], url_text = u\<rparr>"

theorem channel_sequential_pairing_witness:
  "\<exists>s s'. snd (channel_connect demo_chan_parse demo_duplex 0
       \<lparr>chan_registry = Map.empty, chan_duplexes = 0\<rparr> ''chan://x'') = Ok s \<and>
     cs_end s = (0, True) \<and>
     snd (channel_connect demo_chan_parse demo_duplex 1
       (fst (channel_connect demo_chan_parse demo_duplex 0
         \<lparr>chan_registry = Map.empty, chan_duplexes = 0\<rparr> ''chan://x'')) ''chan://x'') = Ok s' \<and>
     cs_end s' = (0, False)"
proof -
  have "channel_name demo_chan_parse ''chan://x'' = Ok ''x''"
    by (simp add: channel_name_def demo_chan_parse_def parse_url_with_def)
  from channel_sequential_pairing [OF this, of "\<lparr>chan_registry = Map.empty, chan_duplexes = 0\<rparr>"
      demo_duplex 0 _ _ 1, OF _ prod.collapse [symmetric] prod.collapse [symmetric]]
  show ?thesis
    by (auto simp: queued_def first_end_def second_end_def demo_duplex_def)
qed

text \<open>
  C36. The registry lock is released between looking and offering, so two calls can miss
  each other: there is an interleaving of two calls for the same name that ends with both
  joined to different duplexes and both counterparts still queued, so that neither is
  connected to the other.
\<close>

theorem channel_race:
  "\<exists>c. chan_reach dup c \<and>
     cc_calls c = [Joined ''x'' (second_end dup 0), Joined ''x'' (second_end dup 1)] \<and>
     queued (cc_state c) ''x'' = [first_end dup 0, first_end dup 1]"
proof -
  let ?st0 = "\<lparr>chan_registry = Map.empty, chan_duplexes = 0\<rparr> :: 'a channel_state"
  let ?st1 = "\<lparr>chan_registry = [''x'' \<mapsto> [first_end dup 0]], chan_duplexes = 1\<rparr>"
  let ?st2 = "\<lparr>chan_registry = [''x'' \<mapsto> [first_end dup 0, first_end dup 1]], chan_duplexes = 2\<rparr>"
  have init: "chan_reach dup \<lparr>cc_state = ?st0, cc_calls = []\<rparr>"
    by (simp add: chan_init_def)
  have a1: "chan_reach dup \<lparr>cc_state = ?st0, cc_calls = [Called ''x'']\<rparr>"
    using init chan_step.arrive [of "''x''" dup "\<lparr>cc_state = ?st0, cc_calls = []\<rparr>"]
    by (simp add: rtranclp.rtrancl_into_rtrancl)
  have a2: "chan_reach dup \<lparr>cc_state = ?st0, cc_calls = [Called ''x'', Called ''x'']\<rparr>"
    using a1 chan_step.arrive [of "''x''" dup "\<lparr>cc_state = ?st0, cc_calls = [Called ''x'']\<rparr>"]
    by (simp add: rtranclp.rtrancl_into_rtrancl)
  have m1: "chan_reach dup \<lparr>cc_state = ?st0, cc_calls = [Missed ''x'', Called ''x'']\<rparr>"
    using a2 chan_step_miss [of 0 "\<lparr>cc_state = ?st0, cc_calls = [Called ''x'', Called ''x'']\<rparr>" "''x''" dup]
    by (simp add: queued_def rtranclp.rtrancl_into_rtrancl)
  have m2: "chan_reach dup \<lparr>cc_state = ?st0, cc_calls = [Missed ''x'', Missed ''x'']\<rparr>"
    using m1 chan_step_miss [of 1 "\<lparr>cc_state = ?st0, cc_calls = [Missed ''x'', Called ''x'']\<rparr>" "''x''" dup]
    by (simp add: queued_def rtranclp.rtrancl_into_rtrancl)
  have o1: "chan_reach dup \<lparr>cc_state = ?st1, cc_calls = [Joined ''x'' (second_end dup 0), Missed ''x'']\<rparr>"
    using m2 chan_step.offer [of 0 "\<lparr>cc_state = ?st0, cc_calls = [Missed ''x'', Missed ''x'']\<rparr>" "''x''" dup
        ?st1 "second_end dup 0"]
    by (simp add: chan_offer_ends rtranclp.rtrancl_into_rtrancl)
  have "chan_reach dup \<lparr>cc_state = ?st2, cc_calls = [Joined ''x'' (second_end dup 0), Joined ''x'' (second_end dup 1)]\<rparr>"
    using o1 chan_step.offer [of 1 "\<lparr>cc_state = ?st1, cc_calls = [Joined ''x'' (second_end dup 0), Missed ''x'']\<rparr>"
        "''x''" dup ?st2 "second_end dup 1"]
    by (simp add: chan_offer_ends numeral_2_eq_2 rtranclp.rtrancl_into_rtrancl)
  then show ?thesis
    by (intro exI [of _ "\<lparr>cc_state = ?st2, cc_calls = [Joined ''x'' (second_end dup 0), Joined ''x'' (second_end dup 1)]\<rparr>"])
      (simp add: queued_def)
qed

end
