(* ===== verification/Floats.thy ===== *)
theory Floats
  imports Complex_Main Prelude "HOL-Library.Log_Nat"
begin

text \<open>
  The arithmetic of \<open>f64\<close> that the cache statistics use: the conversion from \<open>usize\<close> and the
  division of what it yields. IEEE 754 defines both as the exact result rounded to 53
  significant bits, ties to the even significand. Quotients of numbers up to \<open>2^64\<close> stay far
  inside the exponent range, so neither overflow nor subnormal numbers arise and a value is
  the rational number it stands for.
\<close>

section \<open>Rounding to 53 bits\<close>

definition round_half_even :: "rat \<Rightarrow> int" where
  "round_half_even x =
     (let f = \<lfloor>x\<rfloor>; r = x - of_int f
      in if r < 1 / 2 then f else if 1 / 2 < r then f + 1 else if even f then f else f + 1)"

text \<open>\<open>binade x\<close> is the exponent \<open>e\<close> with \<open>2^e \<le> x < 2^(e+1)\<close>.\<close>

definition binade :: "rat \<Rightarrow> int" where
  "binade x =
     (case quotient_of x of (a, b) \<Rightarrow>
        let e = bitlen a - bitlen b in if 2 powi e \<le> x then e else e - 1)"

definition f64_round :: "rat \<Rightarrow> rat" where
  "f64_round x =
     (if x = 0 then 0
      else let u = 2 powi (binade x - 52) in of_int (round_half_even (x / u)) * u)"

definition usize_as_f64 :: "usize \<Rightarrow> rat" where
  "usize_as_f64 n = f64_round (of_nat (unat n))"

definition f64_div :: "rat \<Rightarrow> rat \<Rightarrow> rat" where
  "f64_div x y = f64_round (x / y)"

section \<open>Lemmas\<close>

lemma round_half_even_bounds: "\<lfloor>x\<rfloor> \<le> round_half_even x" "round_half_even x \<le> \<lceil>x\<rceil>"
proof -
  show "\<lfloor>x\<rfloor> \<le> round_half_even x"
    by (simp add: round_half_even_def Let_def)
  show "round_half_even x \<le> \<lceil>x\<rceil>"
  proof (cases "of_int \<lfloor>x\<rfloor> = x")
    case True
    then have "x - of_int \<lfloor>x\<rfloor> = 0"
      by (simp only: diff_self)
    then show ?thesis
      by (simp only: round_half_even_def Let_def) (simp add: floor_le_ceiling)
  next
    case False
    then have "\<lceil>x\<rceil> = \<lfloor>x\<rfloor> + 1"
      by (simp add: ceiling_altdef)
    then show ?thesis
      by (simp add: round_half_even_def Let_def)
  qed
qed

lemma round_half_even_int [simp]: "round_half_even (of_int k) = k"
  by (simp add: round_half_even_def)

lemma round_half_even_mono:
  assumes "x \<le> y"
  shows "round_half_even x \<le> round_half_even y"
proof (cases "\<lfloor>x\<rfloor> = \<lfloor>y\<rfloor>")
  case True
  then show ?thesis
    using assms by (auto simp: round_half_even_def Let_def)
next
  case False
  then have "\<lfloor>x\<rfloor> + 1 \<le> \<lfloor>y\<rfloor>"
    using floor_mono [OF assms] by simp
  moreover have "round_half_even x \<le> \<lfloor>x\<rfloor> + 1"
    by (simp add: round_half_even_def Let_def)
  ultimately show ?thesis
    using round_half_even_bounds(1) [of y] by linarith
qed

lemma bitlen_range:
  assumes "0 < a"
  shows "2 powi (bitlen a - 1) \<le> (of_int a :: rat)" and "(of_int a :: rat) < 2 powi bitlen a"
proof -
  have len: "0 < bitlen a"
    using assms bitlen_nonneg [of a] bitlen_eq_zero_iff [of a] by linarith
  have "2 ^ nat (bitlen a - 1) \<le> a" and "a < 2 ^ nat (bitlen a)"
    using bitlen_bounds [OF assms] by auto
  then have "(of_int (2 ^ nat (bitlen a - 1)) :: rat) \<le> of_int a"
    and "(of_int a :: rat) < of_int (2 ^ nat (bitlen a))"
    by (simp_all only: of_int_le_iff of_int_less_iff)
  then show "2 powi (bitlen a - 1) \<le> (of_int a :: rat)" and "(of_int a :: rat) < 2 powi bitlen a"
    using len by (simp_all add: power_int_nonneg_exp)
qed

lemma binade_range:
  assumes "0 < x"
  shows "2 powi binade x \<le> x" and "x < 2 powi (binade x + 1)"
proof -
  obtain a b where ab: "quotient_of x = (a, b)"
    by fastforce
  have b: "0 < b" and x: "x = of_int a / of_int b"
    using quotient_of_denom_pos [OF ab] quotient_of_div [OF ab] by auto
  with assms have a: "0 < a"
    by (simp add: zero_less_divide_iff)
  let ?e = "bitlen a - bitlen b"
  have lower: "2 powi (?e - 1) \<le> x"
  proof -
    have "2 powi (?e - 1) = (2 powi (bitlen a - 1) / 2 powi bitlen b :: rat)"
      by (simp flip: power_int_diff add: algebra_simps)
    also have "\<dots> \<le> of_int a / of_int b"
      using bitlen_range [OF a] bitlen_range [OF b] a b by (intro frac_le) auto
    finally show ?thesis using x by simp
  qed
  have upper: "x < 2 powi (?e + 1)"
  proof -
    have "of_int a / of_int b < (2 powi bitlen a / 2 powi (bitlen b - 1) :: rat)"
      using bitlen_range [OF a] bitlen_range [OF b] a b by (intro frac_less) auto
    also have "\<dots> = 2 powi (?e + 1)"
      by (simp flip: power_int_diff add: algebra_simps)
    finally show ?thesis using x by simp
  qed
  show "2 powi binade x \<le> x" and "x < 2 powi (binade x + 1)"
    using lower upper by (auto simp: binade_def ab Let_def)
qed

lemma powi_less_iff: "(2 :: rat) powi j < 2 powi k \<longleftrightarrow> j < k"
  using power_int_strict_increasing [of j k "2 :: rat"] power_int_increasing [of k j "2 :: rat"]
  by (cases "j < k") (auto simp: not_less)

lemma powi_le_iff: "(2 :: rat) powi j \<le> 2 powi k \<longleftrightarrow> j \<le> k"
  using powi_less_iff [of k j] by (auto simp: not_less [symmetric])

lemma binade_mono:
  assumes "0 < x" and "x \<le> y"
  shows "binade x \<le> binade y"
proof -
  have "2 powi binade x < (2 powi (binade y + 1) :: rat)"
    using binade_range [of x] binade_range [of y] assms by simp
  then show ?thesis
    by (simp add: powi_less_iff)
qed

lemma f64_round_0 [simp]: "f64_round 0 = 0"
  by (simp add: f64_round_def)

text \<open>A number of at most 53 significant bits is its own rounding.\<close>

lemma f64_round_exact:
  assumes "0 < x" and "x = of_int k * 2 powi (binade x - 52)"
  shows "f64_round x = x"
proof -
  have "x / 2 powi (binade x - 52) = of_int k"
    using assms(2) by (simp add: field_simps)
  then show ?thesis
    using assms by (simp add: f64_round_def Let_def)
qed

lemma f64_round_range:
  assumes "0 < x"
  shows "2 powi binade x \<le> f64_round x" and "f64_round x \<le> 2 powi (binade x + 1)"
proof -
  let ?u = "2 powi (binade x - 52) :: rat"
  have u: "0 < ?u" by simp
  have split: "2 powi binade x = of_int (2 ^ 52) * ?u" "2 powi (binade x + 1) = of_int (2 ^ 53) * ?u"
    by (simp_all add: power_int_add power_int_diff)
  have "of_int (2 ^ 52) \<le> x / ?u" and "x / ?u \<le> of_int (2 ^ 53)"
    using binade_range [OF assms] u by (simp_all only: split pos_le_divide_eq pos_divide_le_eq less_imp_le)
  from this [THEN round_half_even_mono]
  have "2 ^ 52 \<le> round_half_even (x / ?u)" and "round_half_even (x / ?u) \<le> 2 ^ 53"
    by (simp_all only: round_half_even_int)
  then have "(of_int (2 ^ 52) :: rat) \<le> of_int (round_half_even (x / ?u))"
    and "(of_int (round_half_even (x / ?u)) :: rat) \<le> of_int (2 ^ 53)"
    by (simp_all only: of_int_le_iff)
  then show "2 powi binade x \<le> f64_round x" and "f64_round x \<le> 2 powi (binade x + 1)"
    unfolding split using assms u
    by (simp_all only: f64_round_def Let_def if_False less_imp_neq [symmetric] mult_right_mono less_imp_le)
qed

lemma f64_round_pos: "0 < x \<Longrightarrow> 0 < f64_round x"
  using f64_round_range(1) [of x] zero_less_power_int [of "2 :: rat" "binade x"] by linarith

lemma f64_round_mono:
  assumes "0 \<le> x" and "x \<le> y"
  shows "f64_round x \<le> f64_round y"
proof (cases "x = 0")
  case True
  then show ?thesis
    using assms f64_round_pos [of y] by (cases "y = 0") auto
next
  case False
  with assms have x: "0 < x" and y: "0 < y" by auto
  show ?thesis
  proof (cases "binade x = binade y")
    case True
    let ?u = "2 powi (binade y - 52) :: rat"
    have "round_half_even (x / ?u) \<le> round_half_even (y / ?u)"
      using assms(2) by (intro round_half_even_mono divide_right_mono) auto
    then show ?thesis
      using x y True by (simp add: f64_round_def Let_def)
  next
    case False
    then have "binade x + 1 \<le> binade y"
      using binade_mono [OF x assms(2)] by simp
    then have "2 powi (binade x + 1) \<le> (2 powi binade y :: rat)"
      by (simp add: powi_le_iff)
    then show ?thesis
      using f64_round_range [OF x] f64_round_range [OF y] by linarith
  qed
qed

lemma binade_eqI:
  assumes "2 powi e \<le> x" and "x < 2 powi (e + 1)"
  shows "binade x = e"
proof -
  have "0 < (2 powi e :: rat)"
    by simp
  with assms(1) have "0 < x"
    by linarith
  with assms binade_range [of x] have "(2 :: rat) powi e < 2 powi (binade x + 1)"
    and "(2 :: rat) powi binade x < 2 powi (e + 1)"
    by auto
  then show ?thesis
    by (simp add: powi_less_iff)
qed

lemma f64_round_nat:
  assumes "n \<le> 2 ^ 53"
  shows "f64_round (of_nat n) = of_nat n"
proof (cases "n = 0 \<or> n = 2 ^ 53")
  case True
  have "binade (2 ^ 53) = 53"
    by (rule binade_eqI) simp_all
  then have "f64_round (2 ^ 53) = 2 ^ 53"
    by (intro f64_round_exact [where k = "2 ^ 52"]) simp_all
  with True show ?thesis by auto
next
  case False
  with assms have n: "0 < n" "n < 2 ^ 53" by auto
  let ?e = "binade (of_nat n)"
  have "(of_nat n :: rat) < of_nat (2 ^ 53)"
    using n(2) by (simp only: of_nat_less_iff)
  then have "(2 :: rat) powi ?e < 2 powi 53"
    using binade_range(1) [of "of_nat n"] n(1) by simp
  then have e: "?e \<le> 52"
    by (simp only: powi_less_iff)
  then have "2 powi (52 - ?e) = (2 ^ nat (52 - ?e) :: rat)"
    by (simp add: power_int_nonneg_exp)
  moreover have "2 powi (52 - ?e) * 2 powi (?e - 52) = (1 :: rat)"
    by (simp flip: power_int_add)
  ultimately have "of_nat n = (of_int (int n * 2 ^ nat (52 - ?e)) * 2 powi (?e - 52) :: rat)"
    by (simp add: mult.assoc)
  then show ?thesis
    using n(1) by (intro f64_round_exact [where k = "int n * 2 ^ nat (52 - ?e)"]) simp_all
qed

lemma f64_round_1 [simp]: "f64_round 1 = 1"
  using f64_round_nat [of 1] by simp

lemma f64_round_below_1:
  assumes "0 \<le> x" and "x \<le> 1 - 1 / 2 ^ 53"
  shows "f64_round x < 1"
proof -
  let ?z = "1 - 1 / 2 ^ 53 :: rat"
  have "binade ?z = - 1"
    by (rule binade_eqI) (simp_all add: power_int_minus)
  then have "f64_round ?z = ?z"
    by (intro f64_round_exact [where k = "2 ^ 53 - 1"]) (simp_all add: power_int_minus)
  then show ?thesis
    using f64_round_mono [OF assms] by simp
qed

section \<open>The ratio of two sizes\<close>

definition usize_ratio :: "usize \<Rightarrow> usize \<Rightarrow> rat" where
  "usize_ratio a b = f64_div (usize_as_f64 a) (usize_as_f64 b)"

lemma usize_as_f64_pos: "0 < b \<Longrightarrow> 0 < usize_as_f64 b"
  by (simp add: usize_as_f64_def f64_round_pos word_less_nat_alt del: of_nat_unat)

lemma usize_as_f64_mono: "a \<le> b \<Longrightarrow> usize_as_f64 a \<le> usize_as_f64 b"
  by (simp add: usize_as_f64_def f64_round_mono word_le_nat_alt del: of_nat_unat)

lemma usize_as_f64_nonneg: "0 \<le> usize_as_f64 a"
  using usize_as_f64_mono [of 0 a] by (simp add: usize_as_f64_def)

lemma usize_ratio_range:
  assumes "a \<le> b" and "0 < b"
  shows "0 \<le> usize_ratio a b" and "usize_ratio a b \<le> 1" and "0 < a \<longleftrightarrow> 0 < usize_ratio a b"
proof -
  have q: "0 \<le> usize_as_f64 a / usize_as_f64 b" "usize_as_f64 a / usize_as_f64 b \<le> 1"
    using usize_as_f64_mono [OF assms(1)] usize_as_f64_pos [OF assms(2)] usize_as_f64_nonneg [of a]
    by auto
  show "0 \<le> usize_ratio a b" and "usize_ratio a b \<le> 1"
    using f64_round_mono [of 0, OF _ q(1)] f64_round_mono [OF q] by (simp_all add: usize_ratio_def f64_div_def)
  show "0 < a \<longleftrightarrow> 0 < usize_ratio a b"
  proof (cases "a = 0")
    case True
    then show ?thesis by (simp add: usize_ratio_def f64_div_def usize_as_f64_def)
  next
    case False
    then have "0 < a" by (simp add: word_neq_0_conv)
    with usize_as_f64_pos [OF this] usize_as_f64_pos [OF assms(2)] show ?thesis
      by (simp add: usize_ratio_def f64_div_def f64_round_pos)
  qed
qed

lemma usize_ratio_1:
  assumes "a \<le> b" and "0 < b" and "unat b \<le> 2 ^ 53"
  shows "usize_ratio a b = 1 \<longleftrightarrow> a = b"
proof (cases "a = b")
  case True
  then show ?thesis
    using usize_as_f64_pos [OF assms(2)] by (simp add: usize_ratio_def f64_div_def)
next
  case False
  with assms have ab: "unat a < unat b" "unat b \<le> 2 ^ 53"
    by (auto simp: word_le_nat_alt word_unat_eq_iff)
  then have "usize_as_f64 a = of_nat (unat a)" "usize_as_f64 b = of_nat (unat b)"
    by (simp_all add: usize_as_f64_def f64_round_nat del: of_nat_unat)
  moreover have "(of_nat (unat a) / of_nat (unat b) :: rat) \<le> 1 - 1 / 2 ^ 53"
  proof -
    let ?b = "of_nat (unat b) :: rat"
    have b: "0 < ?b" "?b \<le> 2 ^ 53"
      using ab of_nat_le_iff [of "unat b" "2 ^ 53", where 'a = rat] by (simp_all del: of_nat_unat)
    have "of_nat (unat a) \<le> ?b - 1"
      using ab(1) by linarith
    then have "of_nat (unat a) / ?b \<le> (?b - 1) / ?b"
      using b by (intro divide_right_mono) auto
    also have "\<dots> = 1 - 1 / ?b"
      using b by (simp add: diff_divide_distrib)
    also have "\<dots> \<le> 1 - 1 / 2 ^ 53"
      using b by (intro diff_left_mono divide_left_mono) auto
    finally show ?thesis .
  qed
  ultimately have "usize_ratio a b < 1"
    by (simp add: usize_ratio_def f64_div_def f64_round_below_1 del: of_nat_unat)
  with False show ?thesis by simp
qed

end
