(* ===== verification/Transport_Manager.thy ===== *)
theory Transport_Manager
  imports Tcp_Transport Ipc_Transport Stdio_Transport Websocket_Transport Channel_Transport Floats
begin

text \<open>
  The transport manager of \<open>manager.rs\<close>: the registry of transports that \<open>connect\<close> selects
  from by URL, and the usage statistics in a bounded least-recently-used cache. The maps
  of \<open>dashmap\<close> and \<open>lru\<close> are parameters with their documented laws: a \<open>DashMap\<close> iterates in
  an order nothing is known of, an \<open>LruCache\<close> from the most to the least recently used
  entry. A lock is never poisoned, since a panic aborts the process.
\<close>

section \<open>Parameters\<close>

record ('w, 's, 'l) transport_object =
  to_type :: string
  to_supports :: "string \<Rightarrow> bool"
  to_connect :: "string \<Rightarrow> 'w \<Rightarrow> 'w \<times> 's transport_result"
  to_listen :: "string \<Rightarrow> 'w \<Rightarrow> 'w \<times> 'l transport_result"

record cache_entry =
  ce_last_used :: instant
  ce_connection_count :: usize

text \<open>
  \<open>ml_get_mut k f\<close> is \<open>get_mut(k)\<close> with the borrowed entry changed by \<open>f\<close>; the other
  operations are the ones of the same name.
\<close>

record ('m, 't, 'c) manager_lib =
  ml_map_new :: 'm
  ml_map_insert :: "string \<Rightarrow> 't \<Rightarrow> 'm \<Rightarrow> 'm"
  ml_map_iter :: "'m \<Rightarrow> (string \<times> 't) list"
  ml_lru_new :: "usize \<Rightarrow> 'c"
  ml_iter :: "'c \<Rightarrow> (string \<times> cache_entry) list"
  ml_cap :: "'c \<Rightarrow> usize"
  ml_len :: "'c \<Rightarrow> usize"
  ml_put :: "string \<Rightarrow> cache_entry \<Rightarrow> 'c \<Rightarrow> 'c"
  ml_get_mut :: "string \<Rightarrow> (cache_entry \<Rightarrow> cache_entry) \<Rightarrow> 'c \<Rightarrow> 'c option"
  ml_peek :: "string \<Rightarrow> 'c \<Rightarrow> cache_entry option"
  ml_pop :: "string \<Rightarrow> 'c \<Rightarrow> 'c"
  ml_clear :: "'c \<Rightarrow> 'c"

definition without :: "string \<Rightarrow> (string \<times> 'a) list \<Rightarrow> (string \<times> 'a) list" where
  "without k xs = filter (\<lambda>e. fst e \<noteq> k) xs"

definition manager_laws :: "('m, 't, 'c) manager_lib \<Rightarrow> bool" where
  "manager_laws lib \<longleftrightarrow>
     ml_map_iter lib (ml_map_new lib) = [] \<and>
     (\<forall>m. distinct (map fst (ml_map_iter lib m))) \<and>
     (\<forall>k t m. map_of (ml_map_iter lib (ml_map_insert lib k t m)) = (map_of (ml_map_iter lib m))(k \<mapsto> t)) \<and>
     (\<forall>n. ml_iter lib (ml_lru_new lib n) = [] \<and> ml_cap lib (ml_lru_new lib n) = n) \<and>
     (\<forall>c. ml_len lib c = usize_len (ml_iter lib c)) \<and>
     (\<forall>k v c. ml_iter lib (ml_put lib k v c) =
        (k, v) #
        (if k \<in> fst ` set (ml_iter lib c) then without k (ml_iter lib c)
         else if length (ml_iter lib c) < unat (ml_cap lib c) then ml_iter lib c
         else butlast (ml_iter lib c)) \<and>
        ml_cap lib (ml_put lib k v c) = ml_cap lib c) \<and>
     (\<forall>k f c. case map_of (ml_iter lib c) k of
        None \<Rightarrow> ml_get_mut lib k f c = None
      | Some v \<Rightarrow> \<exists>c'. ml_get_mut lib k f c = Some c' \<and>
          ml_iter lib c' = (k, f v) # without k (ml_iter lib c) \<and> ml_cap lib c' = ml_cap lib c) \<and>
     (\<forall>k c. ml_peek lib k c = map_of (ml_iter lib c) k) \<and>
     (\<forall>k c. ml_iter lib (ml_pop lib k c) = without k (ml_iter lib c) \<and> ml_cap lib (ml_pop lib k c) = ml_cap lib c) \<and>
     (\<forall>c. ml_iter lib (ml_clear lib c) = [] \<and> ml_cap lib (ml_clear lib c) = ml_cap lib c)"

section \<open>The registry\<close>

record ('m, 'c) transport_manager =
  tm_transports :: 'm
  tm_connection_stats :: 'c
  tm_cache_ttl :: duration

text \<open>\<open>TypeErasedTransport\<close> boxes the stream and cannot listen.\<close>

definition type_erased :: "('w, 's, 'l) transport_object \<Rightarrow> ('w, 's, 'l) transport_object" where
  "type_erased inner =
     inner\<lparr>to_listen := (\<lambda>u w. (w, Err (T_UnsupportedTransport
       ''Type-erased transport listeners are not supported via TransportManager.'')))\<rparr>"

definition new_transport :: "('w, 's, 'l) transport_object \<Rightarrow> ('w, 's, 'l) transport_object" where
  "new_transport transport = type_erased transport"

definition register_transport ::
  "('m, ('w, 's, 'l) transport_object, 'c) manager_lib \<Rightarrow> ('w, 's, 'l) transport_object \<Rightarrow>
   ('m, 'c) transport_manager \<Rightarrow> ('m, 'c) transport_manager" where
  "register_transport lib t m =
     m\<lparr>tm_transports := ml_map_insert lib (to_type t) t (tm_transports m)\<rparr>"

text \<open>
  The built-in transports, by the names and URL tests of their models; how each connects
  and listens is a parameter, since their streams live over different parameters.
\<close>

record ('w, 's, 'l) builtin_ops =
  bo_connect :: "string \<Rightarrow> string \<Rightarrow> 'w \<Rightarrow> 'w \<times> 's transport_result"
  bo_listen :: "string \<Rightarrow> string \<Rightarrow> 'w \<Rightarrow> 'w \<times> 'l transport_result"

definition builtin :: "('w, 's, 'l) builtin_ops \<Rightarrow> string \<Rightarrow> (string \<Rightarrow> bool) \<Rightarrow> ('w, 's, 'l) transport_object" where
  "builtin ops ty supports =
     new_transport \<lparr>to_type = ty, to_supports = supports, to_connect = bo_connect ops ty,
       to_listen = bo_listen ops ty\<rparr>"

definition register_default_transports ::
  "('m, ('w, 's, 'l) transport_object, 'c) manager_lib \<Rightarrow> ('w, 's, 'l) builtin_ops \<Rightarrow>
   ('m, 'c) transport_manager \<Rightarrow> ('m, 'c) transport_manager" where
  "register_default_transports lib ops m =
     (let m = register_transport lib (builtin ops tcp_transport_type tcp_supports_url) m;
          m = register_transport lib (builtin ops ipc_transport_type ipc_supports_url) m;
          m = register_transport lib (builtin ops stdio_transport_type stdio_supports_url) m;
          m = register_transport lib (builtin ops ws_transport_type ws_supports_url) m
      in register_transport lib (builtin ops channel_transport_type channel_supports_url) m)"

definition manager_with_cache_config ::
  "('m, ('w, 's, 'l) transport_object, 'c) manager_lib \<Rightarrow> ('w, 's, 'l) builtin_ops \<Rightarrow> usize \<Rightarrow>
   duration \<Rightarrow> ('m, 'c) transport_manager" where
  "manager_with_cache_config lib ops cache_size ttl =
     register_default_transports lib ops
       \<lparr>tm_transports = ml_map_new lib, tm_connection_stats = ml_lru_new lib (max cache_size 1),
        tm_cache_ttl = ttl\<rparr>"

definition manager_new ::
  "('m, ('w, 's, 'l) transport_object, 'c) manager_lib \<Rightarrow> ('w, 's, 'l) builtin_ops \<Rightarrow>
   ('m, 'c) transport_manager" where
  "manager_new lib ops = manager_with_cache_config lib ops 100 (from_secs 300)"

definition manager_default ::
  "('m, ('w, 's, 'l) transport_object, 'c) manager_lib \<Rightarrow> ('w, 's, 'l) builtin_ops \<Rightarrow>
   ('m, 'c) transport_manager" where
  "manager_default lib ops = manager_new lib ops"

definition find_transport_for_url ::
  "('m, ('w, 's, 'l) transport_object, 'c) manager_lib \<Rightarrow> ('m, 'c) transport_manager \<Rightarrow> string \<Rightarrow>
   ('w, 's, 'l) transport_object option" where
  "find_transport_for_url lib m u =
     find (\<lambda>t. to_supports t u) (map snd (ml_map_iter lib (tm_transports m)))"

section \<open>The statistics\<close>

definition track_connection_attempt ::
  "('m, 't, 'c) manager_lib \<Rightarrow> instant \<Rightarrow> string \<Rightarrow> ('m, 'c) transport_manager \<Rightarrow> ('m, 'c) transport_manager"
where
  "track_connection_attempt lib now u m =
     m\<lparr>tm_connection_stats :=
        (case ml_get_mut lib u (\<lambda>e. e\<lparr>ce_last_used := now\<rparr>) (tm_connection_stats m) of
           Some c \<Rightarrow> c
         | None \<Rightarrow> ml_put lib u \<lparr>ce_last_used = now, ce_connection_count = 0\<rparr> (tm_connection_stats m))\<rparr>"

definition track_successful_connection ::
  "('m, 't, 'c) manager_lib \<Rightarrow> instant \<Rightarrow> string \<Rightarrow> ('m, 'c) transport_manager \<Rightarrow> ('m, 'c) transport_manager"
where
  "track_successful_connection lib now u m =
     m\<lparr>tm_connection_stats :=
        (case ml_get_mut lib u
            (\<lambda>e. e\<lparr>ce_connection_count := ce_connection_count e + 1, ce_last_used := now\<rparr>)
            (tm_connection_stats m) of
           Some c \<Rightarrow> c
         | None \<Rightarrow> tm_connection_stats m)\<rparr>"

definition get_connection_frequency ::
  "('m, 't, 'c) manager_lib \<Rightarrow> ('m, 'c) transport_manager \<Rightarrow> string \<Rightarrow> usize option" where
  "get_connection_frequency lib m u =
     map_option ce_connection_count (ml_peek lib u (tm_connection_stats m))"

definition is_frequently_accessed ::
  "('m, 't, 'c) manager_lib \<Rightarrow> ('m, 'c) transport_manager \<Rightarrow> string \<Rightarrow> bool" where
  "is_frequently_accessed lib m u =
     (case get_connection_frequency lib m u of Some n \<Rightarrow> n > 5 | None \<Rightarrow> False)"

definition manager_clear_cache ::
  "('m, 't, 'c) manager_lib \<Rightarrow> ('m, 'c) transport_manager \<Rightarrow> ('m, 'c) transport_manager" where
  "manager_clear_cache lib m = m\<lparr>tm_connection_stats := ml_clear lib (tm_connection_stats m)\<rparr>"

record cache_stats =
  cs_size :: usize
  cs_capacity :: usize
  cs_active_entries :: usize

definition utilization :: "cache_stats \<Rightarrow> rat" where
  "utilization s = (if cs_capacity s > 0 then usize_ratio (cs_size s) (cs_capacity s) else 0)"

definition active_ratio :: "cache_stats \<Rightarrow> rat" where
  "active_ratio s = (if cs_size s > 0 then usize_ratio (cs_active_entries s) (cs_size s) else 0)"

text \<open>\<open>duration_since\<close> is zero for an instant in the future, as subtraction of naturals is.\<close>

definition is_active :: "duration \<Rightarrow> instant \<Rightarrow> cache_entry \<Rightarrow> bool" where
  "is_active ttl now e \<longleftrightarrow> now - ce_last_used e < ttl"

definition manager_cache_stats ::
  "('m, 't, 'c) manager_lib \<Rightarrow> instant \<Rightarrow> ('m, 'c) transport_manager \<Rightarrow> cache_stats" where
  "manager_cache_stats lib now m =
     \<lparr>cs_size = ml_len lib (tm_connection_stats m), cs_capacity = ml_cap lib (tm_connection_stats m),
      cs_active_entries =
        usize_len (filter (\<lambda>e. is_active (tm_cache_ttl m) now (snd e)) (ml_iter lib (tm_connection_stats m)))\<rparr>"

definition cleanup_expired_entries ::
  "('m, 't, 'c) manager_lib \<Rightarrow> instant \<Rightarrow> ('m, 'c) transport_manager \<Rightarrow> ('m, 'c) transport_manager" where
  "cleanup_expired_entries lib now m =
     (let expired_keys = map fst (filter (\<lambda>e. now - ce_last_used (snd e) \<ge> tm_cache_ttl m)
            (ml_iter lib (tm_connection_stats m)))
      in m\<lparr>tm_connection_stats := fold (ml_pop lib) expired_keys (tm_connection_stats m)\<rparr>)"

text \<open>
  \<open>connect\<close>, with the two instants the clock is read at. The attempt is recorded before a
  transport is looked for.
\<close>

definition manager_connect ::
  "('m, ('w, 's, 'l) transport_object, 'c) manager_lib \<Rightarrow> instant \<Rightarrow> instant \<Rightarrow> string \<Rightarrow>
   ('m, 'c) transport_manager \<Rightarrow> 'w \<Rightarrow> ('m, 'c) transport_manager \<times> 'w \<times> 's transport_result" where
  "manager_connect lib now1 now2 u m w =
     (let m = track_connection_attempt lib now1 u m in
      case find_transport_for_url lib m u of
        None \<Rightarrow> (m, w, Err (T_UnsupportedTransport (''No transport for URL: '' @ u)))
      | Some transport \<Rightarrow>
          (case to_connect transport u w of
             (w', Ok stream) \<Rightarrow> (track_successful_connection lib now2 u m, w', Ok stream)
           | (w', Err e) \<Rightarrow> (m, w', Err e)
           | (w', Panic) \<Rightarrow> (m, w', Panic)))"

section \<open>Selection\<close>

definition transport_for :: "string option \<Rightarrow> string option" where
  "transport_for scheme =
     (case scheme of
        None \<Rightarrow> None
      | Some s \<Rightarrow>
          if s \<in> {''tcp'', ''ipc'', ''stdio'', ''chan''} then Some s
          else if s \<in> {''ws'', ''wss''} then Some ''websocket''
          else None)"

lemma builtin_simps [simp]:
  "to_type (builtin ops ty supports) = ty" "to_supports (builtin ops ty supports) = supports"
  by (simp_all add: builtin_def new_transport_def type_erased_def)

lemmas supports_scheme =
  tcp_scheme.supports_scheme ipc_scheme.supports_scheme stdio_scheme.supports_scheme
  ws_scheme.supports_scheme channel_scheme.supports_scheme

lemmas type_defs =
  tcp_transport_type_def ipc_transport_type_def stdio_transport_type_def ws_transport_type_def
  channel_transport_type_def

lemma builtin_supports:
  "tcp_supports_url u \<longleftrightarrow> transport_for (scheme_prefix u) = Some tcp_transport_type"
  "ipc_supports_url u \<longleftrightarrow> transport_for (scheme_prefix u) = Some ipc_transport_type"
  "stdio_supports_url u \<longleftrightarrow> transport_for (scheme_prefix u) = Some stdio_transport_type"
  "ws_supports_url u \<longleftrightarrow> transport_for (scheme_prefix u) = Some ws_transport_type"
  "channel_supports_url u \<longleftrightarrow> transport_for (scheme_prefix u) = Some channel_transport_type"
  by (auto simp: supports_scheme transport_for_def type_defs split: option.splits if_splits)

lemma find_by_key:
  assumes "\<forall>t \<in> set ts. P t \<longleftrightarrow> key = Some (ty t)" and "key \<noteq> None \<longrightarrow> key \<in> (Some \<circ> ty) ` set ts"
  shows "map_option ty (find P ts) = key"
proof (cases "find P ts")
  case None
  then have "\<forall>t \<in> set ts. key \<noteq> Some (ty t)"
    using assms(1) by (auto simp: find_None_iff)
  with None assms(2) show ?thesis
    by (cases key) (auto simp: image_iff)
next
  case (Some t)
  then have "t \<in> set ts" and "P t"
    by (auto simp: find_Some_iff in_set_conv_nth)
  with Some assms(1) show ?thesis by simp
qed

lemma distinct_types:
  "distinct [tcp_transport_type, ipc_transport_type, stdio_transport_type, ws_transport_type,
     channel_transport_type]"
  "distinct [channel_transport_type, ws_transport_type, stdio_transport_type, ipc_transport_type,
     tcp_transport_type]"
  by (simp_all add: type_defs)

lemma registered_defaults:
  assumes "manager_laws lib"
  shows "set (map snd (ml_map_iter lib (tm_transports (manager_with_cache_config lib ops n ttl)))) =
    {builtin ops tcp_transport_type tcp_supports_url, builtin ops ipc_transport_type ipc_supports_url,
     builtin ops stdio_transport_type stdio_supports_url, builtin ops ws_transport_type ws_supports_url,
     builtin ops channel_transport_type channel_supports_url}" (is "set (map snd ?iter) = ?objects")
proof -
  have "distinct (map fst ?iter)"
    using assms by (simp add: manager_laws_def)
  then have "set (map snd ?iter) = ran (map_of ?iter)"
    by (simp add: ran_distinct)
  also have "map_of ?iter =
      [tcp_transport_type \<mapsto> builtin ops tcp_transport_type tcp_supports_url,
       ipc_transport_type \<mapsto> builtin ops ipc_transport_type ipc_supports_url,
       stdio_transport_type \<mapsto> builtin ops stdio_transport_type stdio_supports_url,
       ws_transport_type \<mapsto> builtin ops ws_transport_type ws_supports_url,
       channel_transport_type \<mapsto> builtin ops channel_transport_type channel_supports_url]"
    using assms by (simp add: manager_laws_def manager_with_cache_config_def
        register_default_transports_def register_transport_def Let_def)
  also have "ran \<dots> = ?objects"
    using distinct_types by (simp add: ran_map_upd insert_commute)
  finally show ?thesis .
qed

section \<open>The cache\<close>

lemma lru_put:
  assumes "manager_laws lib"
  shows "ml_iter lib (ml_put lib k v c) =
      (k, v) #
      (if k \<in> fst ` set (ml_iter lib c) then without k (ml_iter lib c)
       else if length (ml_iter lib c) < unat (ml_cap lib c) then ml_iter lib c
       else butlast (ml_iter lib c))"
    and "ml_cap lib (ml_put lib k v c) = ml_cap lib c"
  using assms unfolding manager_laws_def by blast+

lemma lru_get_mut_None:
  assumes "manager_laws lib" and "map_of (ml_iter lib c) k = None"
  shows "ml_get_mut lib k f c = None"
proof -
  have "case map_of (ml_iter lib c) k of
        None \<Rightarrow> ml_get_mut lib k f c = None
      | Some v \<Rightarrow> \<exists>c'. ml_get_mut lib k f c = Some c' \<and>
          ml_iter lib c' = (k, f v) # without k (ml_iter lib c) \<and> ml_cap lib c' = ml_cap lib c"
    using assms(1) unfolding manager_laws_def by blast
  with assms(2) show ?thesis by simp
qed

lemma lru_get_mut_Some:
  assumes "manager_laws lib" and "map_of (ml_iter lib c) k = Some v"
  obtains c' where "ml_get_mut lib k f c = Some c'"
    "ml_iter lib c' = (k, f v) # without k (ml_iter lib c)" "ml_cap lib c' = ml_cap lib c"
proof -
  have "case map_of (ml_iter lib c) k of
        None \<Rightarrow> ml_get_mut lib k f c = None
      | Some v \<Rightarrow> \<exists>c'. ml_get_mut lib k f c = Some c' \<and>
          ml_iter lib c' = (k, f v) # without k (ml_iter lib c) \<and> ml_cap lib c' = ml_cap lib c"
    using assms(1) unfolding manager_laws_def by blast
  with assms(2) that show thesis by auto
qed

lemma lru_simps:
  assumes "manager_laws lib"
  shows "ml_iter lib (ml_lru_new lib n) = []" and "ml_cap lib (ml_lru_new lib n) = n"
    and "ml_len lib c = usize_len (ml_iter lib c)" and "ml_peek lib k c = map_of (ml_iter lib c) k"
    and "ml_iter lib (ml_pop lib k c) = without k (ml_iter lib c)"
    and "ml_cap lib (ml_pop lib k c) = ml_cap lib c"
    and "ml_iter lib (ml_clear lib c) = []" and "ml_cap lib (ml_clear lib c) = ml_cap lib c"
  using assms unfolding manager_laws_def by blast+

lemma map_of_absent: "map_of xs k = None \<longleftrightarrow> k \<notin> fst ` set xs"
  by (simp add: map_of_eq_None_iff)

lemma set_without: "set (without k xs) = {e \<in> set xs. fst e \<noteq> k}"
  by (auto simp: without_def)

lemma distinct_without: "distinct (map fst xs) \<Longrightarrow> distinct (map fst (without k xs))"
  by (auto simp: without_def distinct_map intro: inj_on_subset)

lemma length_without: "k \<in> fst ` set xs \<Longrightarrow> length (without k xs) < length xs"
  by (auto simp: without_def intro: length_filter_less)

lemma lru_pops:
  assumes "manager_laws lib"
  shows "ml_iter lib (fold (ml_pop lib) ks c) = filter (\<lambda>e. fst e \<notin> set ks) (ml_iter lib c) \<and>
    ml_cap lib (fold (ml_pop lib) ks c) = ml_cap lib c"
proof (induction ks arbitrary: c)
  case Nil
  then show ?case by simp
next
  case (Cons k ks)
  then show ?case
    by (auto simp: lru_simps [OF assms] without_def intro: filter_cong)
qed

lemma filter_keys:
  assumes "distinct (map fst xs)"
  shows "filter (\<lambda>e. fst e \<notin> set (map fst (filter P xs))) xs = filter (\<lambda>e. \<not> P e) xs"
proof (rule filter_cong [OF refl])
  fix e
  assume e: "e \<in> set xs"
  have "e' = e" if "e' \<in> set xs" and "fst e' = fst e" for e'
    using eq_key_imp_eq_value [OF assms] that e by (metis prod.collapse)
  then show "fst e \<notin> set (map fst (filter P xs)) \<longleftrightarrow> \<not> P e"
    using e by auto
qed

text \<open>
  A run of the statistics: attempts, successes, clearing and cleaning in any order, as
  concurrent calls of the manager produce them, with the successes recorded.
\<close>

inductive stats_run ::
  "('m, 't, 'c) manager_lib \<Rightarrow> ('m, 'c) transport_manager \<Rightarrow> string list \<Rightarrow> ('m, 'c) transport_manager \<Rightarrow> bool"
  for lib m0 where
  fresh: "stats_run lib m0 [] m0"
| attempt: "stats_run lib m0 hist m \<Longrightarrow> stats_run lib m0 hist (track_connection_attempt lib now u m)"
| success: "stats_run lib m0 hist m \<Longrightarrow>
    stats_run lib m0 (hist @ [u]) (track_successful_connection lib now u m)"
| clean: "stats_run lib m0 hist m \<Longrightarrow> stats_run lib m0 hist (cleanup_expired_entries lib now m)"
| cleared: "stats_run lib m0 hist m \<Longrightarrow> stats_run lib m0 hist (manager_clear_cache lib m)"

definition stats_ok :: "('m, 't, 'c) manager_lib \<Rightarrow> usize \<Rightarrow> string list \<Rightarrow> 'c \<Rightarrow> bool" where
  "stats_ok lib cap hist c \<longleftrightarrow>
     ml_cap lib c = cap \<and> length (ml_iter lib c) \<le> unat cap \<and> distinct (map fst (ml_iter lib c)) \<and>
     (\<forall>(u, e) \<in> set (ml_iter lib c). unat (ce_connection_count e) \<le> count_list hist u)"

lemma distinct_butlast_keys: "distinct (map fst xs) \<Longrightarrow> distinct (map fst (butlast xs))"
  by (simp add: map_butlast distinct_butlast)

lemma stats_ok_put:
  assumes "manager_laws lib" and "stats_ok lib cap hist c" and "0 < unat cap"
    and "u \<notin> fst ` set (ml_iter lib c)" and "ce_connection_count e = 0"
  shows "stats_ok lib cap hist (ml_put lib u e c)"
  using assms(2-5)
  by (auto simp: stats_ok_def lru_put [OF assms(1)] distinct_butlast_keys dest: in_set_butlastD)

lemma stats_ok_touch:
  assumes "stats_ok lib cap hist c" and "(u, v) \<in> set (ml_iter lib c)"
    and "ml_iter lib c' = (u, w) # without u (ml_iter lib c)" and "ml_cap lib c' = ml_cap lib c"
    and "unat (ce_connection_count w) \<le> count_list (hist @ extra) u"
  shows "stats_ok lib cap (hist @ extra) c'"
proof -
  have "length (without u (ml_iter lib c)) < length (ml_iter lib c)"
    using assms(2) by (intro length_without) force
  moreover have "count_list hist k \<le> count_list (hist @ extra) k" for k
    by simp
  ultimately show ?thesis
    using assms(1,3-5) by (fastforce simp: stats_ok_def set_without distinct_without intro: order_trans)
qed

lemma unat_inc_le: "unat ((w :: usize) + 1) \<le> unat w + 1"
  by (simp add: unat_word_ariths)

lemma stats_run_ok:
  assumes "manager_laws lib" and "stats_run lib m0 hist m"
    and "stats_ok lib cap [] (tm_connection_stats m0)" and "0 < unat cap"
  shows "stats_ok lib cap hist (tm_connection_stats m)"
  using assms(2)
proof (induction rule: stats_run.induct)
  case fresh
  show ?case by (rule assms(3))
next
  case (attempt hist m now u)
  let ?c = "tm_connection_stats m"
  show ?case
  proof (cases "map_of (ml_iter lib ?c) u")
    case None
    then show ?thesis
      using attempt stats_ok_put [OF assms(1) attempt.IH assms(4)]
      by (simp add: track_connection_attempt_def lru_get_mut_None [OF assms(1)] map_of_absent)
  next
    case (Some v)
    then have v: "(u, v) \<in> set (ml_iter lib ?c)"
      by (rule map_of_SomeD)
    then have "unat (ce_connection_count v) \<le> count_list hist u"
      using attempt.IH by (auto simp: stats_ok_def)
    then show ?thesis
      using stats_ok_touch [OF attempt.IH v, where extra = "[]"]
      by (rule_tac lru_get_mut_Some [OF assms(1) Some, of "\<lambda>e. e\<lparr>ce_last_used := now\<rparr>"])
        (simp add: track_connection_attempt_def)
  qed
next
  case (success hist m u now)
  let ?c = "tm_connection_stats m"
  let ?f = "\<lambda>e. e\<lparr>ce_connection_count := ce_connection_count e + 1, ce_last_used := now\<rparr>"
  show ?case
  proof (cases "map_of (ml_iter lib ?c) u")
    case None
    then show ?thesis
      using success.IH
      by (fastforce simp: track_successful_connection_def lru_get_mut_None [OF assms(1)] stats_ok_def)
  next
    case (Some v)
    then have v: "(u, v) \<in> set (ml_iter lib ?c)"
      by (rule map_of_SomeD)
    then have "unat (ce_connection_count v) \<le> count_list hist u"
      using success.IH by (auto simp: stats_ok_def)
    then have "unat (ce_connection_count (?f v)) \<le> count_list (hist @ [u]) u"
      using unat_inc_le [of "ce_connection_count v"] by simp
    then show ?thesis
      using stats_ok_touch [OF success.IH v, where extra = "[u]"]
      by (rule_tac lru_get_mut_Some [OF assms(1) Some, of ?f])
        (simp add: track_successful_connection_def)
  qed
next
  case (clean hist m now)
  then show ?case
    using lru_pops [OF assms(1)]
    by (auto simp: cleanup_expired_entries_def Let_def stats_ok_def distinct_map
        intro: inj_on_subset order_trans [OF length_filter_le])
next
  case (cleared hist m)
  then show ?case
    by (simp add: manager_clear_cache_def stats_ok_def lru_simps [OF assms(1)])
qed

lemma unat_max_1: "unat (max (n :: usize) 1) = max (unat n) 1"
  by (auto simp: max_def word_le_nat_alt)

lemma stats_run_fresh:
  assumes "manager_laws lib" and "stats_run lib (manager_with_cache_config lib ops n ttl) hist m"
  shows "stats_ok lib (max n 1) hist (tm_connection_stats m)"
proof (rule stats_run_ok [OF assms])
  show "stats_ok lib (max n 1) [] (tm_connection_stats (manager_with_cache_config lib ops n ttl))"
    by (simp add: stats_ok_def manager_with_cache_config_def register_default_transports_def
        register_transport_def Let_def lru_simps [OF assms(1)])
qed (simp add: unat_max_1)

lemma length_filter_eq: "length (filter P xs) = length xs \<longleftrightarrow> (\<forall>x \<in> set xs. P x)"
  by (induction xs) (auto simp: le_imp_less_Suc less_imp_neq)

lemma cache_stats_order:
  fixes now :: instant
  assumes "manager_laws lib" and "stats_ok lib cap hist (tm_connection_stats m)"
  defines "s \<equiv> manager_cache_stats lib now m" and "xs \<equiv> ml_iter lib (tm_connection_stats m)"
  shows "cs_active_entries s \<le> cs_size s" and "cs_size s \<le> cs_capacity s" and "cs_capacity s = cap"
    and "unat (cs_size s) = length xs"
    and "unat (cs_active_entries s) = length (filter (\<lambda>e. is_active (tm_cache_ttl m) now (snd e)) xs)"
proof -
  have xs: "length xs \<le> unat cap" "length xs < 2 ^ 64" and cap: "ml_cap lib (tm_connection_stats m) = cap"
    using assms(2) unsigned_less [of cap, where ?'a = nat] by (auto simp: stats_ok_def xs_def)
  have short: "length (filter P xs) \<le> length xs" for P
    by simp
  then have "length (filter P xs) < 2 ^ 64" for P
    using xs(2) by (rule le_less_trans)
  then show "cs_active_entries s \<le> cs_size s" and "cs_size s \<le> cs_capacity s" and "cs_capacity s = cap"
    and "unat (cs_size s) = length xs"
    and "unat (cs_active_entries s) = length (filter (\<lambda>e. is_active (tm_cache_ttl m) now (snd e)) xs)"
    using xs cap short
    by (auto simp: s_def xs_def [symmetric] manager_cache_stats_def lru_simps [OF assms(1)] unat_usize_len
        word_le_nat_alt)
qed

section \<open>Properties\<close>

text \<open>
  Selection does not depend on the registry's iteration order: for every order, the
  transport a fresh manager finds for a URL is the one its scheme names (\<open>tcp\<close>, \<open>ipc\<close>,
  \<open>stdio\<close>, \<open>chan\<close>, and \<open>websocket\<close> for \<open>ws\<close> and \<open>wss\<close>), and there is none for any other
  URL.
\<close>

theorem selection_by_scheme:
  assumes "manager_laws lib"
  shows "map_option to_type (find_transport_for_url lib (manager_with_cache_config lib ops n ttl) u) =
    transport_for (scheme_prefix u)"
  unfolding find_transport_for_url_def
proof (rule find_by_key)
  show "\<forall>t \<in> set (map snd (ml_map_iter lib (tm_transports (manager_with_cache_config lib ops n ttl)))).
      to_supports t u \<longleftrightarrow> transport_for (scheme_prefix u) = Some (to_type t)"
    unfolding registered_defaults [OF assms] using builtin_supports by simp
  show "transport_for (scheme_prefix u) \<noteq> None \<longrightarrow> transport_for (scheme_prefix u) \<in> (Some \<circ> to_type) `
      set (map snd (ml_map_iter lib (tm_transports (manager_with_cache_config lib ops n ttl))))"
    unfolding registered_defaults [OF assms]
    by (auto simp: transport_for_def type_defs split: option.splits if_splits)
qed

text \<open>The latest entry of every key of a log that has its latest entry first.\<close>

fun latest :: "(string \<times> 'a) list \<Rightarrow> (string \<times> 'a) list" where
  "latest [] = []"
| "latest ((k, v) # xs) = (k, v) # without k (latest xs)"

definition list_manager_lib ::
  "((string \<times> 't) list, 't, usize \<times> (string \<times> cache_entry) list) manager_lib" where
  "list_manager_lib =
     \<lparr>ml_map_new = [], ml_map_insert = (\<lambda>k t m. (k, t) # m), ml_map_iter = latest,
      ml_lru_new = (\<lambda>n. (n, [])), ml_iter = snd, ml_cap = fst, ml_len = (\<lambda>c. usize_len (snd c)),
      ml_put = (\<lambda>k v c. (fst c, (k, v) #
         (if k \<in> fst ` set (snd c) then without k (snd c)
          else if length (snd c) < unat (fst c) then snd c else butlast (snd c)))),
      ml_get_mut = (\<lambda>k f c. case map_of (snd c) k of None \<Rightarrow> None
         | Some v \<Rightarrow> Some (fst c, (k, f v) # without k (snd c))),
      ml_peek = (\<lambda>k c. map_of (snd c) k), ml_pop = (\<lambda>k c. (fst c, without k (snd c))),
      ml_clear = (\<lambda>c. (fst c, []))\<rparr>"

lemma map_of_without: "map_of (without k xs) j = (if j = k then None else map_of xs j)"
  by (induction xs) (auto simp: without_def)

lemma map_of_latest: "map_of (latest xs) = map_of xs"
  by (induction xs rule: latest.induct) (auto simp: map_of_without)

lemma distinct_latest: "distinct (map fst (latest xs))"
proof (induction xs rule: latest.induct)
  case (2 k v xs)
  then show ?case
    using distinct_without [of "latest xs" k] by (auto simp: set_without)
qed simp

lemma list_manager_laws: "manager_laws list_manager_lib"
  by (auto simp: manager_laws_def list_manager_lib_def map_of_latest distinct_latest
      map_of_without fun_eq_iff split: option.splits)

type_synonym demo_object = "(unit, unit, unit) transport_object"

abbreviation demo_manager_lib ::
  "((string \<times> demo_object) list, demo_object, usize \<times> (string \<times> cache_entry) list) manager_lib" where
  "demo_manager_lib \<equiv> list_manager_lib"

lemmas demo_manager_laws = list_manager_laws [where 'a = demo_object]

definition demo_ops :: "(unit, unit, unit) builtin_ops" where
  "demo_ops = \<lparr>bo_connect = (\<lambda>ty u w. (w, Ok ())), bo_listen = (\<lambda>ty u w. (w, Ok ()))\<rparr>"

theorem selection_by_scheme_witness:
  "map_option to_type (find_transport_for_url demo_manager_lib
     (manager_with_cache_config demo_manager_lib demo_ops 100 0) ''wss://h'') = Some ''websocket'' \<and>
   map_option to_type (find_transport_for_url demo_manager_lib
     (manager_with_cache_config demo_manager_lib demo_ops 100 0) ''http://h'') = None"
  by (simp add: selection_by_scheme [OF demo_manager_laws] scheme_prefix_def starts_with_def
      transport_for_def)

text \<open>
  C17. Invariant of the statistics: whatever attempts, successes, clean-ups and clearings
  concurrent callers interleave, at most as many URLs are tracked as the cache was made
  for (one if made for none), no URL twice, and the frequency reported for a URL never
  exceeds the number of its successful connections.
\<close>

theorem statistics_invariant:
  assumes "manager_laws lib" and "stats_run lib (manager_with_cache_config lib ops n ttl) hist m"
  shows "length (ml_iter lib (tm_connection_stats m)) \<le> max (unat n) 1 \<and>
    distinct (map fst (ml_iter lib (tm_connection_stats m))) \<and>
    (\<forall>u k. get_connection_frequency lib m u = Some k \<longrightarrow> unat k \<le> count_list hist u)"
  using stats_run_fresh [OF assms] unat_max_1 [of n]
  by (auto simp: stats_ok_def get_connection_frequency_def lru_simps [OF assms(1)] dest!: map_of_SomeD)

theorem statistics_invariant_witness:
  "get_connection_frequency demo_manager_lib
     (track_successful_connection demo_manager_lib 2 ''tcp://h''
       (track_connection_attempt demo_manager_lib 1 ''tcp://h''
         (manager_with_cache_config demo_manager_lib demo_ops 0 0))) ''tcp://h'' = Some 1 \<and>
   unat (1 :: usize) \<le> count_list ([] @ [''tcp://h'']) ''tcp://h''"
proof
  let ?fresh = "manager_with_cache_config demo_manager_lib demo_ops 0 0"
  let ?m = "track_successful_connection demo_manager_lib 2 ''tcp://h''
      (track_connection_attempt demo_manager_lib 1 ''tcp://h'' ?fresh)"
  show freq: "get_connection_frequency demo_manager_lib ?m ''tcp://h'' = Some 1"
    by (simp add: get_connection_frequency_def track_successful_connection_def
        track_connection_attempt_def manager_with_cache_config_def register_default_transports_def
        register_transport_def Let_def list_manager_lib_def)
  have "stats_run demo_manager_lib ?fresh ([] @ [''tcp://h'']) ?m"
    by (rule stats_run.success [OF stats_run.attempt [OF stats_run.fresh]])
  from statistics_invariant [OF demo_manager_laws this] freq
  show "unat (1 :: usize) \<le> count_list ([] @ [''tcp://h'']) ''tcp://h''"
    by blast
qed

text \<open>
  C24. What one \<open>connect\<close> records: afterwards the URL is tracked whatever the outcome (also
  for a URL no transport supports), and its frequency is the earlier one, or zero, plus
  one exactly when the connection was made.
\<close>

theorem connect_records:
  assumes "manager_laws lib" and "manager_connect lib now1 now2 u m w = (m', w', r)"
  shows "get_connection_frequency lib m' u =
    Some ((case get_connection_frequency lib m u of None \<Rightarrow> 0 | Some k \<Rightarrow> k) +
      (if is_ok r then 1 else 0))"
proof -
  let ?m1 = "track_connection_attempt lib now1 u m"
  have head: "map_of ((u, v) # xs) u = Some v" for v :: cache_entry and xs
    by simp
  have "\<exists>e. map_of (ml_iter lib (tm_connection_stats ?m1)) u = Some e \<and>
      ce_connection_count e = (case get_connection_frequency lib m u of None \<Rightarrow> 0 | Some k \<Rightarrow> k)"
  proof (cases "map_of (ml_iter lib (tm_connection_stats m)) u")
    case None
    then show ?thesis
      by (simp add: track_connection_attempt_def lru_get_mut_None [OF assms(1)] lru_put [OF assms(1)]
          get_connection_frequency_def lru_simps [OF assms(1)])
  next
    case (Some v)
    then show ?thesis
      by (rule_tac lru_get_mut_Some [OF assms(1) Some, of "\<lambda>e. e\<lparr>ce_last_used := now1\<rparr>"])
        (simp add: track_connection_attempt_def get_connection_frequency_def lru_simps [OF assms(1)])
  qed
  then obtain e where e: "map_of (ml_iter lib (tm_connection_stats ?m1)) u = Some e"
    and n: "ce_connection_count e = (case get_connection_frequency lib m u of None \<Rightarrow> 0 | Some k \<Rightarrow> k)"
    by blast
  have counted: "get_connection_frequency lib (track_successful_connection lib now2 u ?m1) u =
      Some (ce_connection_count e + 1)"
    by (rule lru_get_mut_Some [OF assms(1) e, of
        "\<lambda>e. e\<lparr>ce_connection_count := ce_connection_count e + 1, ce_last_used := now2\<rparr>"])
      (simp add: track_successful_connection_def get_connection_frequency_def lru_simps [OF assms(1)])
  have kept: "get_connection_frequency lib ?m1 u = Some (ce_connection_count e)"
    using e by (simp add: get_connection_frequency_def lru_simps [OF assms(1)])
  show ?thesis
    using assms(2) counted kept n
    by (auto simp: manager_connect_def Let_def split: option.splits prod.splits res.splits)
qed

theorem connect_records_witness:
  "\<exists>m' w' r. manager_connect demo_manager_lib 1 2 ''no://h''
       (manager_with_cache_config demo_manager_lib demo_ops 100 0) () = (m', w', r) \<and>
     get_connection_frequency demo_manager_lib m' ''no://h'' = Some (0 + (if is_ok r then 1 else 0))"
proof -
  have "get_connection_frequency demo_manager_lib
      (manager_with_cache_config demo_manager_lib demo_ops 100 0) ''no://h'' = None"
    by (simp add: get_connection_frequency_def manager_with_cache_config_def
        register_default_transports_def register_transport_def Let_def list_manager_lib_def)
  then show ?thesis
    using connect_records [OF demo_manager_laws, of 1 2 "''no://h''"
        "manager_with_cache_config demo_manager_lib demo_ops 100 0" "()"]
    by (cases "manager_connect demo_manager_lib 1 2 ''no://h''
       (manager_with_cache_config demo_manager_lib demo_ops 100 0) ()") fastforce
qed

text \<open>
  Cleaning up removes exactly the expired entries, keeps the others in their order and
  the capacity, and agrees with the statistics read at the same instant: afterwards every
  tracked entry is active.
\<close>

theorem cleanup_exact:
  assumes "manager_laws lib" and "distinct (map fst (ml_iter lib (tm_connection_stats m)))"
  shows "ml_iter lib (tm_connection_stats (cleanup_expired_entries lib now m)) =
      filter (\<lambda>e. is_active (tm_cache_ttl m) now (snd e)) (ml_iter lib (tm_connection_stats m)) \<and>
    (let s = manager_cache_stats lib now (cleanup_expired_entries lib now m) in
      cs_active_entries s = cs_size s \<and> cs_capacity s = cs_capacity (manager_cache_stats lib now m) \<and>
      cs_active_entries s = cs_active_entries (manager_cache_stats lib now m))"
proof -
  let ?xs = "ml_iter lib (tm_connection_stats m)"
  let ?expired = "map fst (filter (\<lambda>e. now - ce_last_used (snd e) \<ge> tm_cache_ttl m) ?xs)"
  have kept: "filter (\<lambda>e. fst e \<notin> set ?expired) ?xs = filter (\<lambda>e. is_active (tm_cache_ttl m) now (snd e)) ?xs"
    unfolding filter_keys [OF assms(2)] by (simp add: is_active_def not_le)
  have pops: "ml_iter lib (fold (ml_pop lib) ?expired (tm_connection_stats m)) =
        filter (\<lambda>e. fst e \<notin> set ?expired) ?xs"
      "ml_cap lib (fold (ml_pop lib) ?expired (tm_connection_stats m)) = ml_cap lib (tm_connection_stats m)"
    using lru_pops [OF assms(1)] by blast+
  show ?thesis
    unfolding cleanup_expired_entries_def manager_cache_stats_def Let_def
    by (simp add: pops kept lru_simps [OF assms(1)] del: set_map)
qed

theorem cleanup_exact_witness:
  "let m = track_connection_attempt demo_manager_lib 5 ''b''
        (track_connection_attempt demo_manager_lib 2 ''a''
          (manager_with_cache_config demo_manager_lib demo_ops 100 10))
   in map fst (ml_iter demo_manager_lib (tm_connection_stats (cleanup_expired_entries demo_manager_lib 12 m))) = [''b'']"
proof -
  let ?m = "track_connection_attempt demo_manager_lib 5 ''b''
        (track_connection_attempt demo_manager_lib 2 ''a''
          (manager_with_cache_config demo_manager_lib demo_ops 100 10))"
  have xs: "ml_iter demo_manager_lib (tm_connection_stats ?m) =
      [(''b'', \<lparr>ce_last_used = 5, ce_connection_count = 0\<rparr>),
       (''a'', \<lparr>ce_last_used = 2, ce_connection_count = 0\<rparr>)]" and ttl: "tm_cache_ttl ?m = 10"
    by (simp_all add: track_connection_attempt_def manager_with_cache_config_def
        register_default_transports_def register_transport_def Let_def list_manager_lib_def without_def)
  have "distinct (map fst (ml_iter demo_manager_lib (tm_connection_stats ?m)))"
    by (simp add: xs)
  from cleanup_exact [OF demo_manager_laws this, of 12] show ?thesis
    by (simp add: xs ttl is_active_def Let_def)
qed

text \<open>
  C19. The ratios of the statistics, in the rounded arithmetic of \<open>f64\<close>: whatever concurrent
  callers have done to the cache, both lie between 0 and 1, and are positive as soon as
  there is one entry (one active entry). Up to a capacity of \<open>2^53\<close> the conversions to \<open>f64\<close> lose
  nothing and rounding never reaches 1 early: a utilization of 1 says that the cache is
  full, an active ratio of 1 that every entry is active.
\<close>

theorem cache_ratios:
  assumes "manager_laws lib" and "stats_run lib (manager_with_cache_config lib ops n ttl) hist m"
  shows "let s = manager_cache_stats lib now m; xs = ml_iter lib (tm_connection_stats m);
      active = (\<lambda>e. is_active (tm_cache_ttl m) now (snd e))
    in 0 \<le> utilization s \<and> utilization s \<le> 1 \<and> 0 \<le> active_ratio s \<and> active_ratio s \<le> 1 \<and>
      (0 < utilization s \<longleftrightarrow> xs \<noteq> []) \<and> (0 < active_ratio s \<longleftrightarrow> (\<exists>e \<in> set xs. active e)) \<and>
      (unat n \<le> 2 ^ 53 \<longrightarrow>
         (utilization s = 1 \<longleftrightarrow> length xs = max (unat n) 1) \<and>
         (active_ratio s = 1 \<longleftrightarrow> xs \<noteq> [] \<and> (\<forall>e \<in> set xs. active e)))"
proof -
  let ?s = "manager_cache_stats lib now m" and ?xs = "ml_iter lib (tm_connection_stats m)"
  let ?act = "\<lambda>e. is_active (tm_cache_ttl m) now (snd e)"
  note order = cache_stats_order [OF assms(1) stats_run_fresh [OF assms], of now]
  have cap: "0 < cs_capacity ?s" "unat (cs_capacity ?s) = max (unat n) 1"
    by (simp_all add: order(3) unat_max_1 word_less_nat_alt)
  have pos: "0 < cs_size ?s \<longleftrightarrow> ?xs \<noteq> []" "0 < cs_active_entries ?s \<longleftrightarrow> (\<exists>e \<in> set ?xs. ?act e)"
    using order(4,5) by (auto simp: word_less_nat_alt filter_empty_conv)
  have full: "cs_size ?s = cs_capacity ?s \<longleftrightarrow> length ?xs = max (unat n) 1"
    "cs_active_entries ?s = cs_size ?s \<longleftrightarrow> (\<forall>e \<in> set ?xs. ?act e)"
    by (simp_all add: word_unat_eq_iff order(4,5) cap(2) length_filter_eq)
  have used: "0 \<le> utilization ?s" "utilization ?s \<le> 1" "0 < utilization ?s \<longleftrightarrow> ?xs \<noteq> []"
    using usize_ratio_range [OF order(2) cap(1)] cap(1) pos(1) by (simp_all add: utilization_def)
  have active: "0 \<le> active_ratio ?s" "active_ratio ?s \<le> 1"
    "0 < active_ratio ?s \<longleftrightarrow> (\<exists>e \<in> set ?xs. ?act e)"
    using usize_ratio_range [OF order(1)] pos by (auto simp: active_ratio_def)
  have ones: "utilization ?s = 1 \<longleftrightarrow> length ?xs = max (unat n) 1"
    "active_ratio ?s = 1 \<longleftrightarrow> ?xs \<noteq> [] \<and> (\<forall>e \<in> set ?xs. ?act e)" if "unat n \<le> 2 ^ 53"
  proof -
    have small: "unat (cs_capacity ?s) \<le> 2 ^ 53" "unat (cs_size ?s) \<le> 2 ^ 53"
      using that cap(2) order(2) by (simp_all add: word_le_nat_alt)
    show "utilization ?s = 1 \<longleftrightarrow> length ?xs = max (unat n) 1"
      using usize_ratio_1 [OF order(2) cap(1) small(1)] cap(1) full(1) by (simp add: utilization_def)
    show "active_ratio ?s = 1 \<longleftrightarrow> ?xs \<noteq> [] \<and> (\<forall>e \<in> set ?xs. ?act e)"
      using usize_ratio_1 [OF order(1) _ small(2)] pos(1) full(2) by (auto simp: active_ratio_def)
  qed
  show ?thesis
    unfolding Let_def using used active ones by blast
qed

text \<open>Two of three URLs were used within the last ten time units, in a cache for four.\<close>

theorem cache_ratios_witness:
  "let m = track_connection_attempt demo_manager_lib 12 ''c''
        (track_connection_attempt demo_manager_lib 5 ''b''
          (track_connection_attempt demo_manager_lib 2 ''a''
            (manager_with_cache_config demo_manager_lib demo_ops 4 10)));
      s = manager_cache_stats demo_manager_lib 13 m
    in 0 < utilization s \<and> utilization s \<noteq> 1 \<and> 0 < active_ratio s \<and> active_ratio s \<noteq> 1"
proof -
  let ?fresh = "manager_with_cache_config demo_manager_lib demo_ops 4 10"
  let ?m = "track_connection_attempt demo_manager_lib 12 ''c''
      (track_connection_attempt demo_manager_lib 5 ''b'' (track_connection_attempt demo_manager_lib 2 ''a'' ?fresh))"
  have xs: "ml_iter demo_manager_lib (tm_connection_stats ?m) =
      [(''c'', \<lparr>ce_last_used = 12, ce_connection_count = 0\<rparr>),
       (''b'', \<lparr>ce_last_used = 5, ce_connection_count = 0\<rparr>),
       (''a'', \<lparr>ce_last_used = 2, ce_connection_count = 0\<rparr>)]" and ttl: "tm_cache_ttl ?m = 10"
    by (simp_all add: track_connection_attempt_def manager_with_cache_config_def
        register_default_transports_def register_transport_def Let_def list_manager_lib_def without_def)
  have "stats_run demo_manager_lib ?fresh [] ?m"
    by (intro stats_run.attempt stats_run.fresh)
  from cache_ratios [OF demo_manager_laws this, of 13] show ?thesis
    unfolding Let_def xs ttl by (auto simp: is_active_def)
qed

text \<open>
  A stream is who it says it is: boxed as the manager hands it out, and whatever else is
  called on it in between (reads, writes, flushes, a shutdown, a close), a stream of any of
  the five transports answers every question for its connection information and its
  timeouts as it did when it was made.
\<close>

theorem stream_identity:
  "filter about_identity (snd (perform_all boxed_ops cs \<lparr>bx_ops = tcp_ops tlib tio, bx_self = ts\<rparr>)) =
     identity_replies (ts_info ts) (ts_timeouts ts) cs \<and>
   filter about_identity (snd (perform_all boxed_ops cs \<lparr>bx_ops = ipc_ops ilib iio, bx_self = ips\<rparr>)) =
     identity_replies (is_info ips) (is_timeouts ips) cs \<and>
   filter about_identity (snd (perform_all boxed_ops cs \<lparr>bx_ops = stdio_ops slib rio wio, bx_self = ss\<rparr>)) =
     identity_replies (ss_info ss) (ss_timeouts ss) cs \<and>
   filter about_identity (snd (perform_all boxed_ops cs \<lparr>bx_ops = ws_ops wlib, bx_self = ws\<rparr>)) =
     identity_replies (wst_info ws) (wst_timeouts ws) cs \<and>
   filter about_identity (snd (perform_all boxed_ops cs \<lparr>bx_ops = channel_ops cio, bx_self = cs'\<rparr>)) =
     identity_replies (cs_info cs') timeouts_default cs"
  by (simp add: boxed_answers tcp_object.identity_constant ipc_object.identity_constant
      stdio_object.identity_constant ws_object.identity_constant channel_object.identity_constant
      tcp_identity ipc_identity stdio_identity ws_identity channel_identity)

end
