(* ===== verification/Peers.thy ===== *)
theory Peers
  imports Codecs Message_Builder Transport_Manager
begin

text \<open>
  The peer API of \<open>fleximq-peer\<close>: the join handshake of \<open>Peer::from_stream\<close>, connecting
  through the transport manager, and the shared stream that a peer, and after \<open>split\<close> its
  server and client, send and receive on. The framed stream is the parameter
  \<open>framed_lib\<close>; its state is passed on explicitly, which is the order in which the lock of
  the shared stream serialises the calls.
\<close>

section \<open>Framing a transport stream (\<open>message.rs\<close> of the transport crate)\<close>

record ('io, 'fr, 'fw) half_lib =
  framed_read_new :: "'io \<Rightarrow> message_decoder \<Rightarrow> 'fr"
  framed_write_new :: "'io \<Rightarrow> message_encoder \<Rightarrow> 'fw"

definition message_reader :: "('io, 'fr, 'fw) half_lib \<Rightarrow> 'io \<Rightarrow> 'fr" where
  "message_reader lib stream = framed_read_new lib stream decoder"

definition message_writer :: "('io, 'fr, 'fw) half_lib \<Rightarrow> 'io \<Rightarrow> 'fw" where
  "message_writer lib stream = framed_write_new lib stream encoder"

definition message_sink :: "('io, 'fr, 'v, 'd) framed_lib \<Rightarrow> 'io \<Rightarrow> 'fr" where
  "message_sink lib stream = framed_new lib stream codec"

section \<open>The shared stream\<close>

definition shared_disconnect :: "'fr \<Rightarrow> unit transport_result" where
  "shared_disconnect s = Ok ()"

text \<open>What the two calls make of the outcome of \<open>send\<close> and of \<open>next\<close>.\<close>

primrec send_result :: "protocol_error + unit \<Rightarrow> unit transport_result" where
  "send_result (Inl e) = Err (T_Protocol e)"
| "send_result (Inr _) = Ok ()"

fun receive_result :: "(protocol_error + ('v, 'd) message) option \<Rightarrow> ('v, 'd) message transport_result" where
  "receive_result None = Err T_ConnectionClosed"
| "receive_result (Some (Inl e)) = Err (T_Protocol e)"
| "receive_result (Some (Inr message)) = Ok message"

definition shared_send_message ::
  "('io, 'fr, 'v, 'd) framed_lib \<Rightarrow> 'fr \<Rightarrow> 'v raw_message \<Rightarrow> 'fr \<times> unit transport_result" where
  "shared_send_message lib s message = map_prod id send_result (sink_send lib s message)"

definition shared_receive_message ::
  "('io, 'fr, 'v, 'd) framed_lib \<Rightarrow> 'fr \<Rightarrow> 'fr \<times> ('v, 'd) message transport_result" where
  "shared_receive_message lib s = map_prod id receive_result (stream_next lib s)"

section \<open>The peer\<close>

record 'fr peer =
  pr_transport_stream :: 'fr
  pr_self_id :: u32

text \<open>
  The wait for the answer to the join message: one turn of the loop either goes on
  (\<open>continue\<close>) with the stream it leaves, or returns. Nothing in the source bounds the
  number of turns, so the loop is a partial function: \<open>None\<close> is a peer that waits for ever.
\<close>

definition join_turn ::
  "'v deps \<Rightarrow> ('io, 'fr, 'v, 'd) framed_lib \<Rightarrow> string \<Rightarrow> 'fr \<Rightarrow> 'fr + 'fr peer transport_result" where
  "join_turn d lib i fr =
     (case stream_next lib fr of
        (fr', None) \<Rightarrow> Inl fr'
      | (fr', Some (Inl e)) \<Rightarrow> Inr (Err (T_Protocol e))
      | (fr', Some (Inr message)) \<Rightarrow>
          (case snd (m_header d message) of
             Err e \<Rightarrow> Inr (Err (T_Protocol e))
           | Panic \<Rightarrow> Inr Panic
           | Ok header \<Rightarrow>
               (case h_reqrep header of
                  None \<Rightarrow> Inl fr'
                | Some rep \<Rightarrow>
                    if rr_id rep \<noteq> i then Inl fr'
                    else Inr (Ok \<lparr>pr_transport_stream = fr', pr_self_id = m_client_id message\<rparr>))))"

partial_function (option) join_wait ::
  "'v deps \<Rightarrow> ('io, 'fr, 'v, 'd) framed_lib \<Rightarrow> string \<Rightarrow> 'fr \<Rightarrow> 'fr peer transport_result option" where
  "join_wait d lib i fr =
     (case join_turn d lib i fr of Inl fr' \<Rightarrow> join_wait d lib i fr' | Inr r \<Rightarrow> Some r)"

definition join_message :: "string \<Rightarrow> string \<Rightarrow> auth option \<Rightarrow> 'v message_builder" where
  "join_message name i auth =
     (let join_message = mb_reqrep (mb_join CLIENT_ID_UNASSIGNED name) (reqrep_req i) in
      case auth of Some auth \<Rightarrow> mb_auth join_message auth | None \<Rightarrow> join_message)"

text \<open>
  \<open>ulid\<close> is what the global generator returns: an identifier, or the text of its error.
\<close>

definition peer_from_stream ::
  "'v deps \<Rightarrow> ('io, 'fr, 'v, 'd) framed_lib \<Rightarrow> string + string \<Rightarrow> 'io \<Rightarrow> string \<Rightarrow> auth option \<Rightarrow>
   'fr peer transport_result option" where
  "peer_from_stream d lib ulid stream name auth =
     (let fr = message_sink lib stream in
      case ulid of
        Inl e \<Rightarrow> Some (Err (T_Other e))
      | Inr i \<Rightarrow>
          (case build d (join_message name i auth) of
             Err e \<Rightarrow> Some (Err (T_Protocol e))
           | Panic \<Rightarrow> Some Panic
           | Ok join \<Rightarrow>
               (case sink_send lib fr join of
                  (fr', Inl e) \<Rightarrow> Some (Err (T_Protocol e))
                | (fr', Inr _) \<Rightarrow> join_wait d lib i fr')))"

definition peer_connect ::
  "'v deps \<Rightarrow> ('io, 'fr, 'v, 'd) framed_lib \<Rightarrow> ('m, ('w, 'io, 'l) transport_object, 'c) manager_lib \<Rightarrow>
   ('w, 'io, 'l) builtin_ops \<Rightarrow> instant \<Rightarrow> instant \<Rightarrow> string + string \<Rightarrow> string \<Rightarrow> string \<Rightarrow> auth option \<Rightarrow>
   'w \<Rightarrow> 'fr peer transport_result option" where
  "peer_connect d lib mlib ops now1 now2 ulid address name auth w =
     (let manager = manager_new mlib ops in
      case manager_connect mlib now1 now2 address manager w of
        (_, _, Ok stream) \<Rightarrow> peer_from_stream d lib ulid stream name auth
      | (_, _, Err e) \<Rightarrow> Some (Err e)
      | (_, _, Panic) \<Rightarrow> Some Panic)"

record 'fr server =
  sv_transport_stream :: 'fr

record 'fr client =
  cl_transport_stream :: 'fr

definition server_with_transport_streams :: "'fr \<Rightarrow> 'fr server" where
  "server_with_transport_streams s = \<lparr>sv_transport_stream = s\<rparr>"

text \<open>Both ends of a split hold the one stream of the peer.\<close>

definition peer_split :: "'fr peer \<Rightarrow> 'fr server \<times> 'fr client" where
  "peer_split p =
     (server_with_transport_streams (pr_transport_stream p),
      \<lparr>cl_transport_stream = pr_transport_stream p\<rparr>)"

definition peer_disconnect :: "'fr peer \<Rightarrow> unit transport_result" where
  "peer_disconnect p = res_bind (shared_disconnect (pr_transport_stream p)) (\<lambda>_. Ok ())"

definition peer_send_message ::
  "('io, 'fr, 'v, 'd) framed_lib \<Rightarrow> 'fr peer \<Rightarrow> 'v raw_message \<Rightarrow> 'fr peer \<times> unit transport_result" where
  "peer_send_message lib p message =
     (case shared_send_message lib (pr_transport_stream p) message of
        (s, r) \<Rightarrow> (p\<lparr>pr_transport_stream := s\<rparr>, r))"

definition peer_receive_message ::
  "('io, 'fr, 'v, 'd) framed_lib \<Rightarrow> 'fr peer \<Rightarrow> 'fr peer \<times> ('v, 'd) message transport_result" where
  "peer_receive_message lib p =
     (case shared_receive_message lib (pr_transport_stream p) of
        (s, r) \<Rightarrow> (p\<lparr>pr_transport_stream := s\<rparr>, r))"

definition server_disconnect :: "'fr server \<Rightarrow> unit transport_result" where
  "server_disconnect p = res_bind (shared_disconnect (sv_transport_stream p)) (\<lambda>_. Ok ())"

definition server_send_message ::
  "('io, 'fr, 'v, 'd) framed_lib \<Rightarrow> 'fr server \<Rightarrow> 'v raw_message \<Rightarrow> 'fr server \<times> unit transport_result" where
  "server_send_message lib p message =
     (case shared_send_message lib (sv_transport_stream p) message of
        (s, r) \<Rightarrow> (p\<lparr>sv_transport_stream := s\<rparr>, r))"

definition server_receive_message ::
  "('io, 'fr, 'v, 'd) framed_lib \<Rightarrow> 'fr server \<Rightarrow> 'fr server \<times> ('v, 'd) message transport_result" where
  "server_receive_message lib p =
     (case shared_receive_message lib (sv_transport_stream p) of
        (s, r) \<Rightarrow> (p\<lparr>sv_transport_stream := s\<rparr>, r))"

definition client_disconnect :: "'fr client \<Rightarrow> unit transport_result" where
  "client_disconnect p = res_bind (shared_disconnect (cl_transport_stream p)) (\<lambda>_. Ok ())"

definition client_send_message ::
  "('io, 'fr, 'v, 'd) framed_lib \<Rightarrow> 'fr client \<Rightarrow> 'v raw_message \<Rightarrow> 'fr client \<times> unit transport_result" where
  "client_send_message lib p message =
     (case shared_send_message lib (cl_transport_stream p) message of
        (s, r) \<Rightarrow> (p\<lparr>cl_transport_stream := s\<rparr>, r))"

definition client_receive_message ::
  "('io, 'fr, 'v, 'd) framed_lib \<Rightarrow> 'fr client \<Rightarrow> 'fr client \<times> ('v, 'd) message transport_result" where
  "client_receive_message lib p =
     (case shared_receive_message lib (cl_transport_stream p) of
        (s, r) \<Rightarrow> (p\<lparr>cl_transport_stream := s\<rparr>, r))"

section \<open>The server's data (\<open>server.rs\<close>)\<close>

record ('v, 'd) request_context =
  rq_message :: "('v, 'd) message"
  rq_client_id :: u32
  rq_source_url :: "string option"

record 'v response_context =
  rs_message :: "'v raw_message"

definition response_context_new :: "'v raw_message \<Rightarrow> 'v response_context" where
  "response_context_new message = \<lparr>rs_message = message\<rparr>"

definition response_with_status :: "'v response_context \<Rightarrow> status_code \<Rightarrow> 'v response_context" where
  "response_with_status r status =
     r\<lparr>rs_message := (rs_message r)\<lparr>rm_header := (rm_header (rs_message r))\<lparr>h_status := Some status\<rparr>\<rparr>\<rparr>"

text \<open>
  \<open>ServiceWrapper\<close> passes both methods of a \<open>tower\<close> service on to the service inside; \<open>'f\<close> is
  the type of its futures, which the wrapper only boxes.
\<close>

record ('sv, 'q, 'f, 'e) service =
  svc_poll_ready :: "'sv \<Rightarrow> 'sv \<times> (unit, 'e) res wait"
  svc_call :: "'sv \<Rightarrow> 'q \<Rightarrow> 'sv \<times> 'f"

record 'sv service_wrapper =
  sw_inner :: 'sv

definition wrapper_poll_ready ::
  "('sv, 'q, 'f, 'e) service \<Rightarrow> 'sv service_wrapper \<Rightarrow> 'sv service_wrapper \<times> (unit, 'e) res wait" where
  "wrapper_poll_ready svc = on_field sw_inner sw_inner_update (svc_poll_ready svc)"

definition wrapper_call ::
  "('sv, 'q, 'f, 'e) service \<Rightarrow> 'sv service_wrapper \<Rightarrow> 'q \<Rightarrow> 'sv service_wrapper \<times> 'f" where
  "wrapper_call svc w req = on_field sw_inner sw_inner_update (\<lambda>s. svc_call svc s req) w"

datatype server_error =
    ServerTransport transport_error
  | ServerProtocol protocol_error
  | HandlerNotFound string
  | ServerInternal string

primrec server_error_text :: "server_error \<Rightarrow> string" where
  "server_error_text (ServerTransport e) = ''Transport error: '' @ transport_error_text e"
| "server_error_text (ServerProtocol e) = ''Protocol error: '' @ protocol_error_text e"
| "server_error_text (HandlerNotFound p) = ''Handler not found for path: '' @ p"
| "server_error_text (ServerInternal e) = ''Internal server error: '' @ e"

section \<open>Properties\<close>

lemma join_message_header:
  "mb_message_type (join_message name i auth) = Join"
  "mb_header (join_message name i auth) =
     header_new\<lparr>h_client_name := Some name, h_reqrep := Some (reqrep_req i), h_auth := auth\<rparr>"
  by (auto simp: join_message_def mb_join_def mb_auth_def Let_def builder_steps header_new_def
      split: option.splits)

lemma join_message_invalid: "build d (join_message name i auth) = Err (ForbiddenField ''reqrep'' ''JOIN'')"
  by (simp add: build_def validate_cases join_message_header) (simp add: header_new_def)

lemma from_stream_fails:
  "peer_from_stream d lib ulid stream name auth =
     Some (Err (case ulid of Inl e \<Rightarrow> T_Other e | Inr _ \<Rightarrow> T_Protocol (ForbiddenField ''reqrep'' ''JOIN'')))"
  by (simp add: peer_from_stream_def join_message_invalid split: sum.splits)

lemma connect_fails: "peer_connect d lib mlib ops now1 now2 ulid address name auth w \<noteq> Some (Ok p)"
  by (auto simp: peer_connect_def from_stream_fails Let_def split: prod.splits res.splits)

text \<open>
  C30. No peer can ever join: \<open>from_stream\<close> puts a correlation into its join message, which
  the validation of its own protocol crate forbids, so for every stream, name, credential
  and generated identifier it returns that error before anything is sent; \<open>connect\<close>
  therefore never succeeds either, whatever the transports do.
\<close>

theorem peer_never_joins:
  "peer_from_stream d lib (Inr i) stream name auth =
     Some (Err (T_Protocol (ForbiddenField ''reqrep'' ''JOIN''))) \<and>
   (\<exists>e. peer_from_stream d lib ulid stream name auth = Some (Err e)) \<and>
   peer_connect d lib mlib ops now1 now2 ulid address name auth w \<noteq> Some (Ok p)"
  using connect_fails [of d lib mlib ops now1 now2 ulid address name auth w p]
  by (simp add: from_stream_fails)

text \<open>
  One turn that goes on, and any number of them.
\<close>

inductive join_skips ::
  "'v deps \<Rightarrow> ('io, 'fr, 'v, 'd) framed_lib \<Rightarrow> string \<Rightarrow> 'fr \<Rightarrow> 'fr \<Rightarrow> bool" for d lib i where
  skips_none: "join_skips d lib i fr fr"
| skips_turn: "join_turn d lib i fr = Inl fr' \<Longrightarrow> join_skips d lib i fr' fr'' \<Longrightarrow> join_skips d lib i fr fr''"

inductive_cases join_skipsE: "join_skips d lib i fr fr'"

lemma join_wait_skips: "join_skips d lib i fr fr' \<Longrightarrow> join_wait d lib i fr = join_wait d lib i fr'"
  by (induction rule: join_skips.induct) (simp_all add: join_wait.simps)

lemma join_wait_returned:
  assumes "join_wait d lib i fr = Some r"
  shows "\<exists>fr'. join_skips d lib i fr fr' \<and> join_turn d lib i fr' = Inr r"
  using assms
proof (induction rule: join_wait.raw_induct [rotated 1, consumes 1])
  case (1 wait d lib i fr r)
  show ?case
  proof (cases "join_turn d lib i fr")
    case (Inl fr')
    with 1(2) have "wait d lib i fr' = Some r"
      by simp
    then obtain fr'' where "join_skips d lib i fr' fr''" and "join_turn d lib i fr'' = Inr r"
      using 1(1) by blast
    then show ?thesis
      using skips_turn [of d lib i, OF Inl] by blast
  next
    case (Inr _)
    then show ?thesis using 1 by (auto intro: skips_none)
  qed
qed

text \<open>What the wait of the handshake skips, and what it takes for its answer.\<close>

definition answers :: "'v deps \<Rightarrow> string \<Rightarrow> ('v, 'd) message \<Rightarrow> bool" where
  "answers d i m \<longleftrightarrow> (\<exists>h q. snd (m_header d m) = Ok h \<and> h_reqrep h = Some q \<and> rr_id q = i)"

definition skipped :: "'v deps \<Rightarrow> string \<Rightarrow> ('v, 'd) message \<Rightarrow> bool" where
  "skipped d i m \<longleftrightarrow>
     (\<exists>h. snd (m_header d m) = Ok h \<and> (\<forall>q. h_reqrep h = Some q \<longrightarrow> rr_id q \<noteq> i))"

lemma join_wait_skip:
  assumes "stream_next lib s = (s', Some (Inr m))" and "skipped d i m"
  shows "join_wait d lib i s = join_wait d lib i s'"
  using assms by (auto simp: join_wait.simps [of d lib i s] join_turn_def skipped_def split: option.splits)

text \<open>
  The stream as its items: what \<open>next\<close> answers the \<open>n\<close>-th time, and the stream after \<open>n\<close> times.
\<close>

definition after_items :: "('io, 'fr, 'v, 'd) framed_lib \<Rightarrow> nat \<Rightarrow> 'fr \<Rightarrow> 'fr" where
  "after_items lib n fr = ((\<lambda>s. fst (stream_next lib s)) ^^ n) fr"

definition item_at ::
  "('io, 'fr, 'v, 'd) framed_lib \<Rightarrow> nat \<Rightarrow> 'fr \<Rightarrow> (protocol_error + ('v, 'd) message) option" where
  "item_at lib n fr = snd (stream_next lib (after_items lib n fr))"

text \<open>
  An item that the wait passes over: the end of the stream, or a message without the
  correlation. Any other item ends it: an error, a message whose header cannot be read, or
  the answer.
\<close>

definition passed_over :: "'v deps \<Rightarrow> string \<Rightarrow> (protocol_error + ('v, 'd) message) option \<Rightarrow> bool" where
  "passed_over d i x \<longleftrightarrow> x = None \<or> (\<exists>m. x = Some (Inr m) \<and> skipped d i m)"

definition ends_wait ::
  "'v deps \<Rightarrow> string \<Rightarrow> (protocol_error + ('v, 'd) message) option \<Rightarrow> 'fr \<Rightarrow> 'fr peer transport_result \<Rightarrow> bool"
where
  "ends_wait d i x fr r \<longleftrightarrow>
     (\<exists>e. x = Some (Inl e) \<and> r = Err (T_Protocol e)) \<or>
     (\<exists>m e. x = Some (Inr m) \<and> snd (m_header d m) = Err e \<and> r = Err (T_Protocol e)) \<or>
     (\<exists>m. x = Some (Inr m) \<and> snd (m_header d m) = Panic \<and> r = Panic) \<or>
     (\<exists>m. x = Some (Inr m) \<and> answers d i m \<and> r = Ok \<lparr>pr_transport_stream = fr, pr_self_id = m_client_id m\<rparr>)"

lemma join_turn_goes_on:
  "join_turn d lib i fr = Inl fr' \<longleftrightarrow> passed_over d i (snd (stream_next lib fr)) \<and> fr' = fst (stream_next lib fr)"
  by (auto simp: join_turn_def passed_over_def skipped_def split: prod.splits option.splits sum.splits res.splits)

lemma join_turn_returns:
  "join_turn d lib i fr = Inr r \<longleftrightarrow> ends_wait d i (snd (stream_next lib fr)) (fst (stream_next lib fr)) r"
  by (auto simp: join_turn_def ends_wait_def answers_def split: prod.splits option.splits sum.splits res.splits)

lemma after_items_simps:
  "after_items lib 0 fr = fr" "after_items lib (Suc n) fr = fst (stream_next lib (after_items lib n fr))"
  "after_items lib (Suc n) fr = after_items lib n (fst (stream_next lib fr))"
  using funpow_swap1 [of "\<lambda>s. fst (stream_next lib s)" n fr] by (simp_all add: after_items_def)

lemma item_at_Suc: "item_at lib (Suc n) fr = item_at lib n (fst (stream_next lib fr))"
  by (simp add: item_at_def after_items_simps(3))

lemma join_skips_items:
  "join_skips d lib i fr fr' \<longleftrightarrow> (\<exists>n. fr' = after_items lib n fr \<and> (\<forall>k<n. passed_over d i (item_at lib k fr)))"
proof
  show "join_skips d lib i fr fr' \<Longrightarrow> \<exists>n. fr' = after_items lib n fr \<and> (\<forall>k<n. passed_over d i (item_at lib k fr))"
  proof (induction rule: join_skips.induct)
    case (skips_none fr)
    then show ?case
      by (intro exI [of _ 0]) (simp add: after_items_simps)
  next
    case (skips_turn fr fr' fr'')
    then obtain n where "fr'' = after_items lib n fr'" "\<forall>k<n. passed_over d i (item_at lib k fr')"
      by blast
    with skips_turn.hyps(1) have "fr'' = after_items lib (Suc n) fr \<and> (\<forall>k<Suc n. passed_over d i (item_at lib k fr))"
      by (auto simp: join_turn_goes_on after_items_simps(3) item_at_Suc All_less_Suc2)
        (simp add: item_at_def after_items_simps(1))
    then show ?case by blast
  qed
next
  have "(\<forall>k<n. passed_over d i (item_at lib k fr)) \<Longrightarrow> join_skips d lib i fr (after_items lib n fr)" for n
  proof (induction n arbitrary: fr)
    case (Suc n)
    then have "join_turn d lib i fr = Inl (fst (stream_next lib fr))"
      by (auto simp: join_turn_goes_on item_at_def after_items_simps(1))
    moreover have "join_skips d lib i (fst (stream_next lib fr)) (after_items lib n (fst (stream_next lib fr)))"
      using Suc.prems by (intro Suc.IH) (auto simp flip: item_at_Suc)
    ultimately show ?case
      unfolding after_items_simps(3) by (rule skips_turn)
  qed (simp add: after_items_simps skips_none)
  then show "\<exists>n. fr' = after_items lib n fr \<and> (\<forall>k<n. passed_over d i (item_at lib k fr)) \<Longrightarrow> join_skips d lib i fr fr'"
    by blast
qed

lemma ends_or_passed:
  "ends_wait d i x fr r \<Longrightarrow> \<not> passed_over d i x"
  "\<not> passed_over d i x \<Longrightarrow> \<exists>r. ends_wait d i x fr r"
proof -
  show "ends_wait d i x fr r \<Longrightarrow> \<not> passed_over d i x"
    by (auto simp: ends_wait_def passed_over_def skipped_def answers_def)
  show "\<exists>r. ends_wait d i x fr r" if x: "\<not> passed_over d i x"
  proof (cases x)
    case (Some y)
    show ?thesis
    proof (cases y)
      case (Inr m)
      with x Some have "\<not> skipped d i m"
        by (simp add: passed_over_def)
      then have "answers d i m" if "snd (m_header d m) = Ok h" for h
        using that by (auto simp: skipped_def answers_def)
      with Some Inr show ?thesis
        by (cases "snd (m_header d m)") (auto simp: ends_wait_def)
    qed (simp add: Some ends_wait_def)
  qed (use x in \<open>simp add: passed_over_def\<close>)
qed

text \<open>
  C31. What the wait for the join answer makes of a stream: it takes item after item, passes
  over the messages without the correlation and over the end of the stream, and returns for
  the first other item, with the error of the stream or of the header, or with a peer that
  has the client id of the answer and the rest of the stream. It never returns exactly if every
  item is passed over; so on a stream that has ended the peer spins for ever, where every other
  reader of the stream reports \<open>ConnectionClosed\<close>.
\<close>

theorem join_wait_exact:
  "(join_wait d lib i fr = Some r \<longleftrightarrow>
      (\<exists>n. (\<forall>k<n. passed_over d i (item_at lib k fr)) \<and>
         ends_wait d i (item_at lib n fr) (after_items lib (Suc n) fr) r)) \<and>
   (join_wait d lib i fr = None \<longleftrightarrow> (\<forall>n. passed_over d i (item_at lib n fr))) \<and>
   (stream_next lib fr = (fr, None) \<longrightarrow>
      join_wait d lib i fr = None \<and> shared_receive_message lib fr = (fr, Err T_ConnectionClosed))"
proof -
  have exact: "join_wait d lib i fr = Some r \<longleftrightarrow>
      (\<exists>n. (\<forall>k<n. passed_over d i (item_at lib k fr)) \<and>
         ends_wait d i (item_at lib n fr) (after_items lib (Suc n) fr) r)" for r
  proof -
    have "join_wait d lib i fr = Some r \<longleftrightarrow> (\<exists>fr'. join_skips d lib i fr fr' \<and> join_turn d lib i fr' = Inr r)"
      using join_wait_returned join_wait_skips by (fastforce simp: join_wait.simps)
    then show ?thesis
      by (auto simp: join_skips_items join_turn_returns item_at_def after_items_simps(2))
  qed
  have never: "join_wait d lib i fr = None \<longleftrightarrow> (\<forall>n. passed_over d i (item_at lib n fr))"
  proof
    assume none: "join_wait d lib i fr = None"
    show "\<forall>n. passed_over d i (item_at lib n fr)"
    proof (rule ccontr)
      assume "\<not> (\<forall>n. passed_over d i (item_at lib n fr))"
      then obtain n where n: "\<not> passed_over d i (item_at lib n fr)" "\<forall>k<n. passed_over d i (item_at lib k fr)"
        using exists_least_iff [of "\<lambda>n. \<not> passed_over d i (item_at lib n fr)"] by auto
      from ends_or_passed(2) [OF n(1), of "after_items lib (Suc n) fr"] obtain r where
        "ends_wait d i (item_at lib n fr) (after_items lib (Suc n) fr) r"
        by (elim exE)
      with n(2) have "join_wait d lib i fr = Some r"
        unfolding exact by (intro exI [of _ n] conjI)
      with none show False
        by simp
    qed
  next
    assume "\<forall>n. passed_over d i (item_at lib n fr)"
    then have "\<not> ends_wait d i (item_at lib n fr) (after_items lib (Suc n) fr) r" for n r
      by (metis ends_or_passed(1))
    then have "join_wait d lib i fr \<noteq> Some r" for r
      unfolding exact by simp
    then show "join_wait d lib i fr = None"
      by (metis not_Some_eq)
  qed
  have "item_at lib n fr = None" if ended: "stream_next lib fr = (fr, None)" for n
  proof -
    have "after_items lib n fr = fr"
      by (induction n) (simp_all add: after_items_simps(1,2) ended)
    then show ?thesis
      by (simp add: item_at_def ended)
  qed
  then show ?thesis
    using exact never by (simp add: shared_receive_message_def passed_over_def)
qed

text \<open>
  The wait itself, once a join message is out: messages without the correlation are
  skipped, however many there are, and the first with it ends the wait with a peer whose
  identifier is that message's client id; the correlation's direction and the message
  type are not looked at, so a request with the same identifier is taken for the answer.
\<close>

theorem join_wait_first_answer:
  fixes d :: "'v deps" and m :: "('v, 'd) message"
  assumes "\<forall>k < length ms. stream_next lib (s k) = (s (Suc k), Some (Inr (ms ! k))) \<and> skipped d i (ms ! k)"
    and "stream_next lib (s (length ms)) = (s', Some (Inr m))" and "answers d i m"
  shows "join_wait d lib i (s 0) = Some (Ok \<lparr>pr_transport_stream = s', pr_self_id = m_client_id m\<rparr>)"
proof -
  have answer: "join_wait d lib i (s (length ms)) =
      Some (Ok \<lparr>pr_transport_stream = s', pr_self_id = m_client_id m\<rparr>)"
    using assms(2,3) by (auto simp: join_wait.simps [of d lib i "s (length ms)"] join_turn_def answers_def)
  have skips: "join_wait d lib i (s 0) = join_wait d lib i (s k)" if "k \<le> length ms" for k
    using that
  proof (induction k)
    case (Suc k)
    then show ?case
      using assms(1) join_wait_skip [of lib "s k" "s (Suc k)" "ms ! k" d i] by simp
  qed simp
  have "join_wait d lib i (s 0) = join_wait d lib i (s (length ms))"
    by (rule skips) simp
  with answer show ?thesis by (simp only:)
qed

definition demo_framed_lib :: "(unit, (nat, nat) message list, nat, nat) framed_lib" where
  "demo_framed_lib =
     \<lparr>framed_new = (\<lambda>io c. []), sink_send = (\<lambda>fr m. (fr, Inr ())),
      stream_next = (\<lambda>fr. case fr of [] \<Rightarrow> ([], None) | m # ms \<Rightarrow> (ms, Some (Inr m)))\<rparr>"

definition demo_stray :: "(nat, nat) message" where
  "demo_stray = fresh_message (base_header_new Publish 5 1 0) (base_header_bytes (base_header_new Publish 5 1 0) @ [1])"

theorem join_wait_first_answer_witness:
  "join_wait demo_deps demo_framed_lib ''id1'' [demo_stray, demo_request] =
     Some (Ok \<lparr>pr_transport_stream = [], pr_self_id = 1000\<rparr>)"
proof -
  have "raw_header_bytes demo_stray = Ok [1]"
    by (simp add: raw_header_bytes_def slice_def demo_stray_def base_header_new_def
        BASE_HEADER_SIZE_def word_le_nat_alt)
  then have "header_init demo_deps demo_stray = Ok demo_header"
    by (simp add: header_init_def demo_deps_def demo_from_slice_def
        demo_stray_def base_header_new_def word_less_nat_alt)
  then have h: "snd (m_header demo_deps demo_request) = Ok demo_request_header"
    "snd (m_header demo_deps demo_stray) = Ok demo_header"
    using demo_request_init by (simp_all add: m_header_snd demo_request_def demo_stray_def)
  have "skipped demo_deps ''id1'' demo_stray"
    using h(2) by (simp add: skipped_def demo_header_def header_new_def)
  moreover have "answers demo_deps ''id1'' demo_request"
    using h(1) by (simp add: answers_def demo_request_header_def reqrep_req_def)
  moreover have "m_client_id demo_request = 1000"
    by (simp add: demo_request_def m_client_id_def base_header_new_def)
  ultimately show ?thesis
    using join_wait_first_answer [of "[demo_stray]" demo_framed_lib "\<lambda>k. drop k [demo_stray, demo_request]"
        demo_deps "''id1''" "[]" demo_request]
    by (simp add: demo_framed_lib_def)
qed

theorem join_wait_exact_witness:
  "join_wait demo_deps demo_framed_lib ''id1'' [] = None \<and>
   shared_receive_message demo_framed_lib [] = ([], Err T_ConnectionClosed)"
  using join_wait_exact [of demo_deps demo_framed_lib "''id1''" "[]"] by (simp add: demo_framed_lib_def)

end
