(* ===== verification/Shared_Stream.thy ===== *)
theory Shared_Stream
  imports Peers
begin

text \<open>
  The shared stream under concurrency. Every handle (a peer, or the server and the client of
  a split one) locks the stream for the whole of a call: \<open>self.write().await\<close> yields a guard
  that lives until \<open>send\<close> or \<open>next\<close> has been polled to its end, so that the runtime runs
  other tasks, and bytes arrive, while the guard is held. The model is a state machine: a
  lock word, one call per task, and the framed stream; the futures of the framed stream are
  parameters. Calls are awaited to their end.
\<close>

section \<open>State\<close>

text \<open>\<open>'k\<close> is the state of a \<open>Send\<close> future between two polls; a \<open>Next\<close> future has none.\<close>

record ('fr, 'k, 'v, 'd) framed_futures =
  ff_send :: "'v raw_message \<Rightarrow> 'k"
  ff_poll_send :: "'k \<Rightarrow> 'fr \<Rightarrow> 'k \<times> 'fr \<times> (protocol_error + unit) wait"
  ff_poll_next :: "'fr \<Rightarrow> 'fr \<times> (protocol_error + ('v, 'd) message) option wait"

datatype 'v shared_call = SendCall "'v raw_message" | ReceiveCall

datatype ('v, 'd) shared_return =
    SendReturned "unit transport_result"
  | ReceiveReturned "('v, 'd) message transport_result"

datatype ('v, 'k) task = Idle | Waiting "'v shared_call" | Sending "'v raw_message" 'k | Receiving

record ('t, 'fr, 'v, 'k, 'd) shared_state =
  sh_stream :: 'fr
  sh_lock :: "'t option"
  sh_task :: "'t \<Rightarrow> ('v, 'k) task"
  sh_log :: "('t \<times> 'v shared_call \<times> ('v, 'd) shared_return) list"

definition shared_new :: "'fr \<Rightarrow> ('t, 'fr, 'v, 'k, 'd) shared_state" where
  "shared_new s = \<lparr>sh_stream = s, sh_lock = None, sh_task = (\<lambda>_. Idle), sh_log = []\<rparr>"

section \<open>Steps\<close>

primrec begin_call :: "('fr, 'k, 'v, 'd) framed_futures \<Rightarrow> 'v shared_call \<Rightarrow> ('v, 'k) task" where
  "begin_call ff (SendCall m) = Sending m (ff_send ff m)"
| "begin_call ff ReceiveCall = Receiving"

text \<open>\<open>write().await\<close>: the guard is handed out when no other is alive.\<close>

definition take_lock ::
  "('fr, 'k, 'v, 'd) framed_futures \<Rightarrow> 't \<Rightarrow> ('t, 'fr, 'v, 'k, 'd) shared_state \<Rightarrow>
   ('t, 'fr, 'v, 'k, 'd) shared_state option" where
  "take_lock ff t st =
     (case sh_task st t of
        Waiting c \<Rightarrow>
          if sh_lock st = None then
            Some (st\<lparr>sh_lock := Some t, sh_task := (sh_task st)(t := begin_call ff c)\<rparr>)
          else None
      | _ \<Rightarrow> None)"

text \<open>One poll of the future behind the guard.\<close>

primrec poll_task ::
  "('fr, 'k, 'v, 'd) framed_futures \<Rightarrow> ('v, 'k) task \<Rightarrow> 'fr \<Rightarrow>
   ('v, 'k) task \<times> 'fr \<times> ('v, 'd) shared_return option" where
  "poll_task ff Idle s = (Idle, s, None)"
| "poll_task ff (Waiting c) s = (Waiting c, s, None)"
| "poll_task ff (Sending m k) s =
     (case ff_poll_send ff k s of
        (k', s', Pending) \<Rightarrow> (Sending m k', s', None)
      | (k', s', Ready r) \<Rightarrow> (Sending m k', s', Some (SendReturned (send_result r))))"
| "poll_task ff Receiving s =
     (case ff_poll_next ff s of
        (s', Pending) \<Rightarrow> (Receiving, s', None)
      | (s', Ready r) \<Rightarrow> (Receiving, s', Some (ReceiveReturned (receive_result r))))"

primrec call_of :: "('v, 'k) task \<Rightarrow> 'v shared_call option" where
  "call_of Idle = None"
| "call_of (Waiting c) = None"
| "call_of (Sending m k) = Some (SendCall m)"
| "call_of Receiving = Some ReceiveCall"

text \<open>A task that is polled: a call that ends drops its guard and is recorded.\<close>

definition run_task ::
  "('fr, 'k, 'v, 'd) framed_futures \<Rightarrow> 't \<Rightarrow> ('t, 'fr, 'v, 'k, 'd) shared_state \<Rightarrow>
   ('t, 'fr, 'v, 'k, 'd) shared_state option" where
  "run_task ff t st =
     (case call_of (sh_task st t) of
        None \<Rightarrow> None
      | Some c \<Rightarrow>
          (case poll_task ff (sh_task st t) (sh_stream st) of
             (k, s, None) \<Rightarrow> Some (st\<lparr>sh_stream := s, sh_task := (sh_task st)(t := k)\<rparr>)
           | (k, s, Some r) \<Rightarrow>
               Some (st\<lparr>sh_stream := s, sh_lock := None, sh_task := (sh_task st)(t := Idle),
                 sh_log := sh_log st @ [(t, c, r)]\<rparr>)))"

text \<open>
  \<open>env s s'\<close>: what arrives from the other side, or is taken by it, between two polls.
\<close>

inductive shared_step ::
  "('fr, 'k, 'v, 'd) framed_futures \<Rightarrow> ('fr \<Rightarrow> 'fr \<Rightarrow> bool) \<Rightarrow> ('t, 'fr, 'v, 'k, 'd) shared_state \<Rightarrow>
   ('t, 'fr, 'v, 'k, 'd) shared_state \<Rightarrow> bool" for ff env where
  called: "sh_task st t = Idle \<Longrightarrow>
    shared_step ff env st (st\<lparr>sh_task := (sh_task st)(t := Waiting c)\<rparr>)"
| locked: "take_lock ff t st = Some st' \<Longrightarrow> shared_step ff env st st'"
| polled: "run_task ff t st = Some st' \<Longrightarrow> shared_step ff env st st'"
| outside: "env (sh_stream st) s \<Longrightarrow> shared_step ff env st (st\<lparr>sh_stream := s\<rparr>)"

inductive shared_run ::
  "('fr, 'k, 'v, 'd) framed_futures \<Rightarrow> ('fr \<Rightarrow> 'fr \<Rightarrow> bool) \<Rightarrow> ('t, 'fr, 'v, 'k, 'd) shared_state \<Rightarrow>
   ('t, 'fr, 'v, 'k, 'd) shared_state \<Rightarrow> bool" for ff env where
  here: "shared_run ff env st st"
| there: "shared_run ff env st st' \<Longrightarrow> shared_step ff env st' st'' \<Longrightarrow> shared_run ff env st st''"

text \<open>The steps of the handles as a function, to run a schedule.\<close>

datatype ('t, 'v) shared_event = Calls 't "'v shared_call" | Locks 't | Polls 't

primrec after_event ::
  "('fr, 'k, 'v, 'd) framed_futures \<Rightarrow> ('t, 'v) shared_event \<Rightarrow> ('t, 'fr, 'v, 'k, 'd) shared_state \<Rightarrow>
   ('t, 'fr, 'v, 'k, 'd) shared_state option" where
  "after_event ff (Calls t c) st =
     (case sh_task st t of
        Idle \<Rightarrow> Some (st\<lparr>sh_task := (sh_task st)(t := Waiting c)\<rparr>)
      | _ \<Rightarrow> None)"
| "after_event ff (Locks t) st = take_lock ff t st"
| "after_event ff (Polls t) st = run_task ff t st"

fun after_events ::
  "('fr, 'k, 'v, 'd) framed_futures \<Rightarrow> ('t, 'v) shared_event list \<Rightarrow> ('t, 'fr, 'v, 'k, 'd) shared_state \<Rightarrow>
   ('t, 'fr, 'v, 'k, 'd) shared_state option" where
  "after_events ff [] st = Some st"
| "after_events ff (e # es) st =
     (case after_event ff e st of None \<Rightarrow> None | Some st' \<Rightarrow> after_events ff es st')"

lemma after_event_step: "after_event ff e st = Some st' \<Longrightarrow> shared_step ff env st st'"
  by (cases e) (auto split: task.splits intro: shared_step.intros)

lemma after_events_run:
  "shared_run ff env st0 st \<Longrightarrow> after_events ff es st = Some st' \<Longrightarrow> shared_run ff env st0 st'"
proof (induction es arbitrary: st)
  case (Cons e es)
  from Cons.prems(2) obtain st1 where "after_event ff e st = Some st1" and rest: "after_events ff es st1 = Some st'"
    by (auto split: option.splits)
  from after_event_step [OF this(1)] show ?case
    by (rule Cons.IH [OF there [OF Cons.prems(1)] rest])
qed simp

lemmas after_events_new = after_events_run [OF here]

section \<open>The calls one by one\<close>

text \<open>
  The abstract stream: \<open>guarded c s k s'\<close> says that the call \<open>c\<close>, begun on \<open>s\<close> and with nobody
  else calling, can have got to \<open>k\<close> and \<open>s'\<close>; \<open>one_by_one s0 calls s\<close> that the
  recorded calls, each run to its end before the next begins, lead from \<open>s0\<close> to \<open>s\<close>.
\<close>

inductive guarded ::
  "('fr, 'k, 'v, 'd) framed_futures \<Rightarrow> ('fr \<Rightarrow> 'fr \<Rightarrow> bool) \<Rightarrow> 'v shared_call \<Rightarrow> 'fr \<Rightarrow> ('v, 'k) task \<Rightarrow>
   'fr \<Rightarrow> bool" for ff env c s where
  begun: "guarded ff env c s (begin_call ff c) s"
| arrived: "guarded ff env c s k s1 \<Longrightarrow> env s1 s2 \<Longrightarrow> guarded ff env c s k s2"
| pending: "guarded ff env c s k s1 \<Longrightarrow> poll_task ff k s1 = (k', s2, None) \<Longrightarrow> guarded ff env c s k' s2"

inductive one_by_one ::
  "('fr, 'k, 'v, 'd) framed_futures \<Rightarrow> ('fr \<Rightarrow> 'fr \<Rightarrow> bool) \<Rightarrow> 'fr \<Rightarrow>
   ('t \<times> 'v shared_call \<times> ('v, 'd) shared_return) list \<Rightarrow> 'fr \<Rightarrow> bool" for ff env s0 where
  nothing: "one_by_one ff env s0 [] s0"
| between: "one_by_one ff env s0 calls s \<Longrightarrow> env s s' \<Longrightarrow> one_by_one ff env s0 calls s'"
| whole: "one_by_one ff env s0 calls s \<Longrightarrow> guarded ff env c s k s1 \<Longrightarrow>
    poll_task ff k s1 = (k', s2, Some r) \<Longrightarrow> one_by_one ff env s0 (calls @ [(t, c, r)]) s2"

section \<open>The simulation\<close>

lemma call_of_begin [simp]: "call_of (begin_call ff c) = Some c"
  by (cases c) simp_all

lemma poll_task_call: "poll_task ff k s = (k', s', r) \<Longrightarrow> call_of k' = call_of k"
  by (cases k) (auto split: prod.splits wait.splits)

lemma guarded_call: "guarded ff env c s k s' \<Longrightarrow> call_of k = Some c"
  by (induction rule: guarded.induct) (simp_all add: poll_task_call)

text \<open>A task holds the guard exactly if the lock says so.\<close>

definition lock_ok :: "('t, 'fr, 'v, 'k, 'd) shared_state \<Rightarrow> bool" where
  "lock_ok st \<longleftrightarrow> (\<forall>u. call_of (sh_task st u) \<noteq> None \<longleftrightarrow> sh_lock st = Some u)"

definition simulated ::
  "('fr, 'k, 'v, 'd) framed_futures \<Rightarrow> ('fr \<Rightarrow> 'fr \<Rightarrow> bool) \<Rightarrow> 'fr \<Rightarrow> ('t, 'fr, 'v, 'k, 'd) shared_state \<Rightarrow> bool"
where
  "simulated ff env s0 st \<longleftrightarrow>
     (case sh_lock st of
        None \<Rightarrow> one_by_one ff env s0 (sh_log st) (sh_stream st)
      | Some t \<Rightarrow> \<exists>c s. one_by_one ff env s0 (sh_log st) s \<and> guarded ff env c s (sh_task st t) (sh_stream st))"

lemma lock_ok_new: "lock_ok (shared_new s)"
  by (simp add: lock_ok_def shared_new_def)

lemma simulated_new: "simulated ff env s (shared_new s)"
  unfolding simulated_def shared_new_def by (simp add: one_by_one.nothing)

lemma lock_holder: "lock_ok st \<Longrightarrow> call_of (sh_task st u) = Some c \<Longrightarrow> sh_lock st = Some u"
  unfolding lock_ok_def by (metis option.discI)

lemma lock_held: "lock_ok st \<Longrightarrow> sh_lock st = Some t \<Longrightarrow> \<exists>c. call_of (sh_task st t) = Some c"
  unfolding lock_ok_def by (metis not_Some_eq)

lemma lock_others: "lock_ok st \<Longrightarrow> sh_lock st = Some t \<Longrightarrow> u \<noteq> t \<Longrightarrow> call_of (sh_task st u) = None"
  unfolding lock_ok_def by (metis option.inject)

lemma lock_ok_idle: "lock_ok st \<Longrightarrow> sh_task st t = Idle \<Longrightarrow> sh_lock st \<noteq> Some t"
  unfolding lock_ok_def by (metis call_of.simps(1))

lemma take_lock_cases:
  assumes "take_lock ff t st = Some st'"
  obtains c where "sh_task st t = Waiting c" "sh_lock st = None"
    "st' = st\<lparr>sh_lock := Some t, sh_task := (sh_task st)(t := begin_call ff c)\<rparr>"
  using assms by (auto simp: take_lock_def split: task.splits if_splits)

lemma run_task_cases:
  assumes "run_task ff t st = Some st'"
  obtains (polling) c k s where "call_of (sh_task st t) = Some c"
      "poll_task ff (sh_task st t) (sh_stream st) = (k, s, None)"
      "st' = st\<lparr>sh_stream := s, sh_task := (sh_task st)(t := k)\<rparr>"
  | (returned) c k s r where "call_of (sh_task st t) = Some c"
      "poll_task ff (sh_task st t) (sh_stream st) = (k, s, Some r)"
      "st' = st\<lparr>sh_stream := s, sh_lock := None, sh_task := (sh_task st)(t := Idle),
         sh_log := sh_log st @ [(t, c, r)]\<rparr>"
  using assms by (auto simp: run_task_def split: option.splits prod.splits)

lemma lock_ok_step: "shared_step ff env st st' \<Longrightarrow> lock_ok st \<Longrightarrow> lock_ok st'"
proof (induction rule: shared_step.induct)
  case (called st t c)
  then show ?case
    using lock_ok_idle [of st t] by (auto simp: lock_ok_def)
next
  case (locked t st st')
  then show ?case by (auto elim!: take_lock_cases simp: lock_ok_def split: if_splits)
next
  case (polled t st st')
  from polled.hyps show ?case
  proof (cases rule: run_task_cases)
    case polling
    then show ?thesis
      using polled.prems poll_task_call [OF polling(2)] by (auto simp: lock_ok_def)
  next
    case returned
    then show ?thesis
      using lock_others [OF polled.prems lock_holder [OF polled.prems returned(1)]]
      by (simp add: lock_ok_def)
  qed
qed (simp add: lock_ok_def)

lemma simulated_step:
  "shared_step ff env st st' \<Longrightarrow> lock_ok st \<Longrightarrow> simulated ff env s0 st \<Longrightarrow> simulated ff env s0 st'"
proof (induction rule: shared_step.induct)
  case (called st t c)
  have "sh_lock st \<noteq> Some t"
    by (rule lock_ok_idle [OF called.prems(1) called.hyps])
  then have "sh_lock st = Some u \<Longrightarrow> u \<noteq> t" for u
    by auto
  with called.prems(2) show ?case
    by (cases "sh_lock st") (simp_all add: simulated_def)
next
  case (locked t st st')
  then show ?case
    by (fastforce elim!: take_lock_cases simp: simulated_def intro: guarded.begun)
next
  case (polled t st st')
  from polled.hyps show ?case
  proof (cases rule: run_task_cases)
    case polling
    then have "sh_lock st = Some t"
      using lock_holder [OF polled.prems(1)] by blast
    with polling polled.prems(2) show ?thesis
      by (auto simp: simulated_def intro: guarded.pending)
  next
    case returned
    then have t: "sh_lock st = Some t"
      using lock_holder [OF polled.prems(1)] by blast
    with polled.prems(2) obtain c s where "one_by_one ff env s0 (sh_log st) s"
      and g: "guarded ff env c s (sh_task st t) (sh_stream st)"
      by (auto simp: simulated_def)
    from whole [OF this returned(2)] guarded_call [OF g] returned show ?thesis
      by (simp add: simulated_def)
  qed
next
  case (outside st s)
  then show ?case
    by (auto simp: simulated_def split: option.splits intro: between arrived)
qed

lemma shared_run_simulated:
  "shared_run ff env st st' \<Longrightarrow> lock_ok st \<Longrightarrow> simulated ff env s0 st \<Longrightarrow> lock_ok st' \<and> simulated ff env s0 st'"
proof (induction rule: shared_run.induct)
  case (there st st1 st2)
  then show ?case
    using lock_ok_step [OF there.hyps(2)] simulated_step [OF there.hyps(2)] by blast
qed simp

lemmas shared_run_new = shared_run_simulated [OF _ lock_ok_new simulated_new]

section \<open>The sequential functions\<close>

text \<open>
  With nothing from outside, the sequential run is the run of \<open>shared_send_message\<close> and
  \<open>shared_receive_message\<close>, which pass the stream on explicitly, one call after the other.
  \<open>completes\<close> says that \<open>send().await\<close> and \<open>next().await\<close> are what polling their futures to
  the end amounts to.
\<close>

definition completes ::
  "('fr, 'k, 'v, 'd) framed_futures \<Rightarrow> ('io, 'fr, 'v, 'd) framed_lib \<Rightarrow> bool" where
  "completes ff lib \<longleftrightarrow>
     (\<forall>m s k s1 k' s2 x. guarded ff (\<lambda>s s'. False) (SendCall m) s (Sending m k) s1 \<longrightarrow>
        ff_poll_send ff k s1 = (k', s2, Ready x) \<longrightarrow> sink_send lib s m = (s2, x)) \<and>
     (\<forall>s s1 s2 x. guarded ff (\<lambda>s s'. False) ReceiveCall s Receiving s1 \<longrightarrow>
        ff_poll_next ff s1 = (s2, Ready x) \<longrightarrow> stream_next lib s = (s2, x))"

primrec call_effect ::
  "('io, 'fr, 'v, 'd) framed_lib \<Rightarrow> 'v shared_call \<Rightarrow> 'fr \<Rightarrow> 'fr \<times> ('v, 'd) shared_return" where
  "call_effect lib (SendCall m) s = map_prod id SendReturned (shared_send_message lib s m)"
| "call_effect lib ReceiveCall s = map_prod id ReceiveReturned (shared_receive_message lib s)"

fun replays ::
  "('io, 'fr, 'v, 'd) framed_lib \<Rightarrow> ('t \<times> 'v shared_call \<times> ('v, 'd) shared_return) list \<Rightarrow> 'fr \<Rightarrow> 'fr \<Rightarrow> bool"
where
  "replays lib [] s s' \<longleftrightarrow> s' = s"
| "replays lib ((t, c, r) # calls) s s' \<longleftrightarrow>
     (case call_effect lib c s of (s1, r1) \<Rightarrow> r1 = r \<and> replays lib calls s1 s')"

lemma replays_snoc:
  "replays lib calls s s1 \<Longrightarrow> call_effect lib c s1 = (s2, r) \<Longrightarrow> replays lib (calls @ [(t, c, r)]) s s2"
  by (induction lib calls s s1 rule: replays.induct) (auto split: prod.splits)

lemma whole_call_effect:
  assumes "completes ff lib" and "guarded ff (\<lambda>s s'. False) c s k s1" and "poll_task ff k s1 = (k', s2, Some r)"
  shows "call_effect lib c s = (s2, r)"
proof (cases c)
  case (SendCall m)
  then obtain j where k: "k = Sending m j"
    using guarded_call [OF assms(2)] by (cases k) auto
  with assms(3) obtain j' x where "ff_poll_send ff j s1 = (j', s2, Ready x)" and r: "r = SendReturned (send_result x)"
    by (auto split: prod.splits wait.splits)
  then have "sink_send lib s m = (s2, x)"
    using assms(1,2) unfolding completes_def SendCall k by blast
  with SendCall r show ?thesis
    by (simp add: shared_send_message_def)
next
  case ReceiveCall
  then have k: "k = Receiving"
    using guarded_call [OF assms(2)] by (cases k) auto
  with assms(3) obtain x where "ff_poll_next ff s1 = (s2, Ready x)" and r: "r = ReceiveReturned (receive_result x)"
    by (auto split: prod.splits wait.splits)
  then have "stream_next lib s = (s2, x)"
    using assms(1,2) unfolding completes_def ReceiveCall k by blast
  with ReceiveCall r show ?thesis
    by (simp add: shared_receive_message_def)
qed

lemma one_by_one_replays:
  assumes "completes ff lib"
  shows "one_by_one ff (\<lambda>s s'. False) s0 calls s \<Longrightarrow> replays lib calls s0 s"
  by (induction rule: one_by_one.induct) (auto intro: replays_snoc whole_call_effect [OF assms])

section \<open>Properties\<close>

text \<open>
  C4. Refinement: however the calls of any number of handles interleave with one another
  and with the other side, the stream is used as if the calls had been made one by one, in
  the order in which they returned and with the same results: the finished calls are a
  sequential run of the stream, a call under way (there is at most one) has got as far as
  it can on its own behind them, and the handles that wait have not touched the stream.
\<close>

theorem shared_calls_sequential:
  assumes "shared_run ff env (shared_new s0) st"
  shows "case sh_lock st of
      None \<Rightarrow> one_by_one ff env s0 (sh_log st) (sh_stream st) \<and> (\<forall>u. call_of (sh_task st u) = None)
    | Some t \<Rightarrow> (\<exists>c s. one_by_one ff env s0 (sh_log st) s \<and>
          guarded ff env c s (sh_task st t) (sh_stream st) \<and> call_of (sh_task st t) = Some c) \<and>
        (\<forall>u. u \<noteq> t \<longrightarrow> call_of (sh_task st u) = None)"
proof (cases "sh_lock st")
  case None
  then show ?thesis
    using shared_run_new [OF assms] by (simp add: lock_ok_def simulated_def)
next
  case (Some t)
  have ok: "lock_ok st" and "simulated ff env s0 st"
    using shared_run_new [OF assms] by simp_all
  with Some guarded_call lock_others [OF ok Some] show ?thesis
    by (fastforce simp: simulated_def)
qed

text \<open>A stream for the witnesses: what has arrived and what was sent; a send is done at once.\<close>

type_synonym demo_stream = "(nat, nat) message list \<times> nat raw_message list"

fun demo_poll_next :: "demo_stream \<Rightarrow> demo_stream \<times> (protocol_error + (nat, nat) message) option wait" where
  "demo_poll_next ([], out) = (([], out), Pending)"
| "demo_poll_next (m # ms, out) = ((ms, out), Ready (Some (Inr m)))"

definition demo_futures :: "(demo_stream, nat raw_message, nat, nat) framed_futures" where
  "demo_futures =
     \<lparr>ff_send = (\<lambda>m. m), ff_poll_send = (\<lambda>m s. (m, (fst s, snd s @ [m]), Ready (Inr ()))),
      ff_poll_next = demo_poll_next\<rparr>"

definition demo_arrival :: "demo_stream \<Rightarrow> demo_stream \<Rightarrow> bool" where
  "demo_arrival s s' \<longleftrightarrow> (\<exists>m. s' = (fst s @ [m], snd s))"

text \<open>The client sends, then the server waits for a message, and the client wants to send again.\<close>

definition demo_schedule :: "(bool, nat) shared_event list" where
  "demo_schedule =
     [Calls False (SendCall demo_raw), Calls True ReceiveCall, Locks False, Polls False, Locks True, Polls True,
      Calls False (SendCall demo_raw)]"

definition demo_waiting :: "(bool, demo_stream, nat, nat raw_message, nat) shared_state" where
  "demo_waiting =
     \<lparr>sh_stream = ([], [demo_raw]), sh_lock = Some True,
      sh_task = (\<lambda>t. if t then Receiving else Waiting (SendCall demo_raw)),
      sh_log = [(False, SendCall demo_raw, SendReturned (Ok ()))]\<rparr>"

lemma demo_waiting_after: "after_events demo_futures demo_schedule (shared_new ([], [])) = Some demo_waiting"
  by (simp add: demo_schedule_def demo_waiting_def demo_futures_def shared_new_def take_lock_def
      run_task_def fun_eq_iff)

theorem shared_calls_sequential_witness:
  "\<exists>c s. one_by_one demo_futures demo_arrival ([], []) (sh_log demo_waiting) s \<and>
     guarded demo_futures demo_arrival c s Receiving ([], [demo_raw]) \<and>
     sh_log demo_waiting = [(False, SendCall demo_raw, SendReturned (Ok ()))]"
proof -
  have "sh_lock demo_waiting = Some True" "sh_task demo_waiting True = Receiving"
    "sh_stream demo_waiting = ([], [demo_raw])"
    "sh_log demo_waiting = [(False, SendCall demo_raw, SendReturned (Ok ()))]"
    by (simp_all add: demo_waiting_def)
  with shared_calls_sequential [OF after_events_new [OF demo_waiting_after], of demo_arrival]
  show ?thesis by auto
qed

text \<open>
  A stream nothing complete arrives on: polling \<open>next\<close> stays pending, and so it does after
  whatever the other side does.
\<close>

definition silent :: "('fr, 'k, 'v, 'd) framed_futures \<Rightarrow> ('fr \<Rightarrow> 'fr \<Rightarrow> bool) \<Rightarrow> ('fr \<Rightarrow> bool) \<Rightarrow> bool" where
  "silent ff env q \<longleftrightarrow>
     (\<forall>s s' r. q s \<longrightarrow> ff_poll_next ff s = (s', r) \<longrightarrow> q s' \<and> r = Pending) \<and>
     (\<forall>s s'. q s \<longrightarrow> env s s' \<longrightarrow> q s')"

lemma silent_step:
  assumes "silent ff env q" and "shared_step ff env st st'"
    and "lock_ok st" and "sh_task st t = Receiving" and "q (sh_stream st)"
  shows "sh_task st' t = Receiving \<and> q (sh_stream st') \<and> sh_log st' = sh_log st \<and>
    (\<forall>u c. sh_task st u = Waiting c \<longrightarrow> sh_task st' u = Waiting c)"
proof -
  have lock: "sh_lock st = Some t"
    using assms(3,4) unfolding lock_ok_def by (metis call_of.simps(4) option.discI)
  from assms(2) show ?thesis
  proof (cases rule: shared_step.cases)
    case (called u c)
    then have "u \<noteq> t"
      using assms(4) by auto
    then show ?thesis
      using called assms(4,5) by auto
  next
    case (locked u)
    then show ?thesis
      using lock by (auto elim: take_lock_cases)
  next
    case (polled u)
    have u: "u = t"
      using polled lock_holder [OF assms(3), of u] lock by (auto elim: run_task_cases)
    obtain s where s: "ff_poll_next ff (sh_stream st) = (s, Pending)" and "q s"
      using assms(1,5) unfolding silent_def by (cases "ff_poll_next ff (sh_stream st)") blast
    with polled assms(4) have "st' = st\<lparr>sh_stream := s, sh_task := (sh_task st)(t := Receiving)\<rparr>"
      by (simp add: u run_task_def)
    with \<open>q s\<close> assms(4) show ?thesis by simp
  next
    case (outside s)
    moreover have "q s"
      using assms(1,5) outside(2) unfolding silent_def by blast
    ultimately show ?thesis
      using assms(4) by simp
  qed
qed

text \<open>
  C32. A receive blocks every send. Once a handle waits for a message, and nothing complete
  arrives, no call of any handle returns any more: in all that can happen the receiving
  handle keeps the lock, nothing is added to what has returned, and a handle that waits to
  send (the request, say, whose answer the other is waiting for) waits for ever. After
  \<open>split\<close> the server and the client are two such handles on one stream.
\<close>

theorem receive_blocks_send:
  assumes "shared_run ff env (shared_new s0) st" and "sh_task st t = Receiving"
    and "silent ff env q" and "q (sh_stream st)" and "shared_run ff env st st'"
  shows "sh_task st' t = Receiving \<and> sh_log st' = sh_log st \<and>
    (\<forall>u c. sh_task st u = Waiting c \<longrightarrow> sh_task st' u = Waiting c)"
proof -
  have "lock_ok st"
    using shared_run_new [OF assms(1)] by blast
  from assms(5) this assms(2,4) have "lock_ok st' \<and> q (sh_stream st') \<and> sh_task st' t = Receiving \<and>
      sh_log st' = sh_log st \<and> (\<forall>u c. sh_task st u = Waiting c \<longrightarrow> sh_task st' u = Waiting c)"
  proof (induction rule: shared_run.induct)
    case (there st st1 st2)
    then show ?case
      using silent_step [OF assms(3) there.hyps(2), of t] lock_ok_step [OF there.hyps(2)] by auto
  qed simp
  then show ?thesis by blast
qed

theorem receive_blocks_send_witness:
  "sh_task (the (after_events demo_futures [Polls True, Polls True] demo_waiting)) False =
     Waiting (SendCall demo_raw)"
proof -
  have st': "after_events demo_futures [Polls True, Polls True] demo_waiting = Some demo_waiting"
    by (simp add: demo_waiting_def demo_futures_def run_task_def fun_eq_iff)
  have "silent demo_futures (\<lambda>s s'. False) (\<lambda>s. fst s = [])"
    by (auto simp: silent_def demo_futures_def)
  from receive_blocks_send [OF after_events_new [OF demo_waiting_after] _ this _ after_events_new [OF st'],
      of True] st'
  show ?thesis by (simp add: demo_waiting_def)
qed

end
