(* ===== verification/Fair_Stream.thy ===== *)
theory Fair_Stream
  imports Shared_Stream "HOL-Library.Sublist"
begin

text \<open>
  The order in which the calls on a shared stream return. The lock of \<open>SharedTransportStream\<close>
  belongs to the runtime and is not modelled beyond what \<open>Shared_Stream\<close> says of it; that it is
  documented to be fair (who asks first gets it first) is an assumption on the history of a run:
  the guards are handed out in the order in which they were asked for. What the code makes of
  that is the subject here: a call holds its guard until it returns and asks for one only.
\<close>

section \<open>Histories\<close>

text \<open>A run of the shared stream with the events of its handles, in the order in which they occur.\<close>

inductive shared_history ::
  "('fr, 'k, 'v, 'd) framed_futures \<Rightarrow> ('fr \<Rightarrow> 'fr \<Rightarrow> bool) \<Rightarrow> 'fr \<Rightarrow> ('t, 'v) shared_event list \<Rightarrow>
   ('t, 'fr, 'v, 'k, 'd) shared_state \<Rightarrow> bool" for ff env s0 where
  begins: "shared_history ff env s0 [] (shared_new s0)"
| happens: "shared_history ff env s0 es st \<Longrightarrow> after_event ff e st = Some st' \<Longrightarrow>
    shared_history ff env s0 (es @ [e]) st'"
| arrives: "shared_history ff env s0 es st \<Longrightarrow> env (sh_stream st) s \<Longrightarrow>
    shared_history ff env s0 es (st\<lparr>sh_stream := s\<rparr>)"

text \<open>The histories are those of the runs.\<close>

lemma history_is_run: "shared_history ff env s0 es st \<Longrightarrow> shared_run ff env (shared_new s0) st"
  by (induction rule: shared_history.induct) (auto intro: shared_run.intros after_event_step shared_step.outside)

lemma run_has_history: "shared_run ff env st0 st \<Longrightarrow> st0 = shared_new s0 \<Longrightarrow> \<exists>es. shared_history ff env s0 es st"
proof (induction rule: shared_run.induct)
  case (there st0 st st')
  then obtain es where h: "shared_history ff env s0 es st"
    by blast
  from there.hyps(2) show ?case
  proof cases
    case (called t c)
    with h happens [OF h, of "Calls t c"] show ?thesis by auto
  next
    case (locked t)
    with h happens [OF h, of "Locks t"] show ?thesis by auto
  next
    case (polled t)
    with h happens [OF h, of "Polls t"] show ?thesis by auto
  next
    case (outside s)
    with arrives [of ff env s0 es st s] h show ?thesis by auto
  qed
qed (auto intro: begins)

lemma events_history:
  "shared_history ff env s0 es0 st \<Longrightarrow> after_events ff es st = Some st' \<Longrightarrow> shared_history ff env s0 (es0 @ es) st'"
proof (induction es arbitrary: es0 st)
  case (Cons e es)
  then obtain st1 where "after_event ff e st = Some st1" "after_events ff es st1 = Some st'"
    by (auto split: option.splits)
  from Cons.IH [OF happens [OF Cons.prems(1) this(1)] this(2)] show ?case
    by simp
qed simp

section \<open>What was asked for and what was handed out\<close>

text \<open>The calls in the order in which they were made, and the tasks in the order in which they got the guard.\<close>

fun calls_made :: "('t, 'v) shared_event list \<Rightarrow> ('t \<times> 'v shared_call) list" where
  "calls_made [] = []"
| "calls_made (Calls t c # es) = (t, c) # calls_made es"
| "calls_made (_ # es) = calls_made es"

fun granted :: "('t, 'v) shared_event list \<Rightarrow> 't list" where
  "granted [] = []"
| "granted (Locks t # es) = t # granted es"
| "granted (_ # es) = granted es"

text \<open>The documented fairness of the lock.\<close>

definition served_in_order :: "('t, 'v) shared_event list \<Rightarrow> bool" where
  "served_in_order es \<longleftrightarrow> prefix (granted es) (map fst (calls_made es))"

lemma calls_made_append [simp]: "calls_made (es @ es') = calls_made es @ calls_made es'"
  by (induction es rule: calls_made.induct) simp_all

lemma granted_append [simp]: "granted (es @ es') = granted es @ granted es'"
  by (induction es rule: granted.induct) simp_all

text \<open>The calls that have returned, and the one under way.\<close>

definition returned_calls :: "('t, 'fr, 'v, 'k, 'd) shared_state \<Rightarrow> ('t \<times> 'v shared_call) list" where
  "returned_calls s = map (\<lambda>(t, c, r). (t, c)) (sh_log s)"

definition under_way :: "('t, 'fr, 'v, 'k, 'd) shared_state \<Rightarrow> ('t \<times> 'v shared_call) list" where
  "under_way s = (case sh_lock s of None \<Rightarrow> [] | Some t \<Rightarrow> [(t, the (call_of (sh_task s t)))])"

primrec awaited :: "('v, 'k) task \<Rightarrow> 'v shared_call option" where
  "awaited Idle = None"
| "awaited (Waiting c) = Some c"
| "awaited (Sending m k) = None"
| "awaited Receiving = None"

lemma awaited_waiting: "awaited k = Some c \<longleftrightarrow> k = Waiting c"
  by (cases k) auto

lemma call_of_awaited: "call_of k \<noteq> None \<Longrightarrow> awaited k = None"
  by (cases k) auto

lemma awaited_begin [simp]: "awaited (begin_call ff c) = None"
  by (cases c) simp_all

section \<open>The invariant\<close>

text \<open>
  Each guard was for one call, which has returned or is under way; and a task has made the
  calls that have returned to it, the one under way, and the one it waits with.
\<close>

abbreviation of_task :: "'t \<Rightarrow> ('t \<times> 'c) list \<Rightarrow> ('t \<times> 'c) list" where
  "of_task t \<equiv> filter (\<lambda>x. fst x = t)"

definition waiting_of :: "('t, 'fr, 'v, 'k, 'd) shared_state \<Rightarrow> 't \<Rightarrow> ('t \<times> 'v shared_call) list" where
  "waiting_of st t = (case awaited (sh_task st t) of None \<Rightarrow> [] | Some c \<Rightarrow> [(t, c)])"

definition history_ok :: "('t, 'v) shared_event list \<Rightarrow> ('t, 'fr, 'v, 'k, 'd) shared_state \<Rightarrow> bool" where
  "history_ok es st \<longleftrightarrow> lock_ok st \<and> granted es = map fst (returned_calls st @ under_way st) \<and>
     (\<forall>t. of_task t (calls_made es) = of_task t (returned_calls st @ under_way st) @ waiting_of st t)"

lemma history_ok_call:
  assumes "history_ok es st" and "after_event ff (Calls t c) st = Some st'"
  shows "history_ok (es @ [Calls t c]) st'"
proof -
  have idle: "sh_task st t = Idle" and st': "st' = st\<lparr>sh_task := (sh_task st)(t := Waiting c)\<rparr>"
    using assms(2) by (auto split: task.splits)
  have ok: "lock_ok st"
    using assms(1) by (simp add: history_ok_def)
  have not_t: "sh_lock st \<noteq> Some t"
    by (rule lock_ok_idle [OF ok idle])
  then have "under_way st' = under_way st"
    by (auto simp: st' under_way_def split: option.splits)
  moreover have "lock_ok st'"
    using ok not_t by (auto simp: st' lock_ok_def)
  moreover have "waiting_of st' u = (if u = t then [(t, c)] else waiting_of st u)" "waiting_of st t = []" for u
    by (simp_all add: st' waiting_of_def idle)
  ultimately show ?thesis
    using assms(1) by (auto simp: history_ok_def st' returned_calls_def)
qed

lemma history_ok_lock:
  assumes "history_ok es st" and "take_lock ff t st = Some st'"
  shows "history_ok (es @ [Locks t]) st'"
proof -
  obtain c where c: "sh_task st t = Waiting c" "sh_lock st = None"
    "st' = st\<lparr>sh_lock := Some t, sh_task := (sh_task st)(t := begin_call ff c)\<rparr>"
    by (rule take_lock_cases [OF assms(2)])
  have "lock_ok st'"
    using lock_ok_step [OF shared_step.locked [OF assms(2)]] assms(1) by (simp add: history_ok_def)
  moreover have "under_way st = []" "under_way st' = [(t, c)]"
    by (simp_all add: under_way_def c)
  moreover have "waiting_of st u = (if u = t then [(t, c)] else waiting_of st' u)" "waiting_of st' t = []" for u
    by (simp_all add: waiting_of_def c)
  ultimately show ?thesis
    using assms(1) by (auto simp: history_ok_def c(3) returned_calls_def)
qed

lemma history_ok_poll:
  assumes "history_ok es st" and "run_task ff t st = Some st'"
  shows "history_ok (es @ [Polls t]) st'"
proof -
  have ok: "lock_ok st"
    using assms(1) by (simp add: history_ok_def)
  have ok': "lock_ok st'"
    by (rule lock_ok_step [OF shared_step.polled [OF assms(2)] ok])
  from assms(2) show ?thesis
  proof (cases rule: run_task_cases)
    case (polling c k s)
    have t: "sh_lock st = Some t" and k: "call_of k = Some c"
      using lock_holder [OF ok polling(1)] poll_task_call [OF polling(2)] polling(1) by simp_all
    then have "under_way st' = under_way st"
      using polling(1) by (simp add: under_way_def polling(3))
    moreover have "waiting_of st' u = waiting_of st u" for u
      using call_of_awaited [of k] call_of_awaited [of "sh_task st t"] k polling(1)
      by (simp add: waiting_of_def polling(3))
    ultimately show ?thesis
      using assms(1) ok' by (simp add: history_ok_def polling(3) returned_calls_def)
  next
    case (returned c k s r)
    have "under_way st = [(t, c)]" "under_way st' = []" "returned_calls st' = returned_calls st @ [(t, c)]"
      using lock_holder [OF ok returned(1)] returned(1)
      by (simp_all add: under_way_def returned_calls_def returned(3))
    moreover have "waiting_of st' u = waiting_of st u" for u
      using call_of_awaited [of "sh_task st t"] returned(1) by (simp add: waiting_of_def returned(3))
    ultimately show ?thesis
      using assms(1) ok' by (simp add: history_ok_def)
  qed
qed

lemma history_is_ok: "shared_history ff env s0 es st \<Longrightarrow> history_ok es st"
proof (induction rule: shared_history.induct)
  case begins
  then show ?case
    using lock_ok_new by (simp add: history_ok_def) (simp add: shared_new_def returned_calls_def under_way_def waiting_of_def)
next
  case (happens es st e st')
  then show ?case
    by (cases e) (auto intro: history_ok_lock history_ok_poll history_ok_call simp del: after_event.simps(1))
next
  case (arrives es st s)
  have "under_way (st\<lparr>sh_stream := s\<rparr>) = under_way st"
    by (simp add: under_way_def split: option.split)
  with arrives.IH show ?case
    by (simp add: history_ok_def lock_ok_def returned_calls_def waiting_of_def)
qed

text \<open>Two lists that agree on the keys and, for each key, on its entries agree.\<close>

lemma same_order:
  assumes "prefix (map fst xs) (map fst ys)" and "\<And>t. prefix (of_task t xs) (of_task t ys)"
  shows "prefix xs ys"
  using assms
proof (induction xs arbitrary: ys)
  case (Cons x xs)
  then obtain y ys' where ys: "ys = y # ys'" and keys: "fst y = fst x" "prefix (map fst xs) (map fst ys')"
    by (cases ys) auto
  have "y = x"
    using Cons.prems(2) [of "fst x"] keys(1) by (simp add: ys)
  have "prefix (of_task t xs) (of_task t ys')" for t
    using Cons.prems(2) [of t] by (cases "fst x = t") (simp_all add: ys \<open>y = x\<close>)
  with Cons.IH [OF keys(2)] show ?case
    by (simp add: ys \<open>y = x\<close>)
qed simp

lemma single_entries: "(\<And>t. length (of_task t xs) \<le> 1) \<Longrightarrow> distinct (map fst xs)"
proof (induction xs)
  case (Cons x xs)
  have "length (of_task t xs) \<le> 1" for t
    using Cons.prems [of t] by (simp split: if_splits)
  moreover have "of_task (fst x) xs = []"
    using Cons.prems [of "fst x"] by simp
  then have "fst x \<notin> fst ` set xs"
    by (auto simp: filter_empty_conv)
  ultimately show ?case
    using Cons.IH by simp
qed simp

section \<open>Property\<close>

text \<open>
  C9. When the runtime hands out the guards of the stream in the order in which they were asked
  for, as its lock is documented to do, the calls of all handles return in the order in which
  they were made: at every moment the calls made so far are those that have returned, in the
  order of their returns, then the one under way if there is one, then those that wait, one for
  each waiting handle.
\<close>

theorem calls_in_order:
  assumes "shared_history ff env s0 es st" and "served_in_order es"
  shows "\<exists>waiting. calls_made es = returned_calls st @ under_way st @ waiting \<and> distinct (map fst waiting) \<and>
    (\<forall>t c. (t, c) \<in> set waiting \<longleftrightarrow> sh_task st t = Waiting c)"
proof -
  let ?served = "returned_calls st @ under_way st"
  have ok: "history_ok es st"
    by (rule history_is_ok [OF assms(1)])
  then have "prefix (map fst ?served) (map fst (calls_made es))"
    using assms(2) by (simp add: history_ok_def served_in_order_def)
  moreover have of_task: "of_task t (calls_made es) = of_task t ?served @ waiting_of st t" for t
    using ok by (simp add: history_ok_def)
  ultimately obtain waiting where made: "calls_made es = ?served @ waiting"
    using same_order [of ?served "calls_made es"] by (metis prefixE prefixI)
  have each: "of_task t waiting = waiting_of st t" for t
    using of_task [of t] by (simp add: made)
  have "(t, c) \<in> set waiting \<longleftrightarrow> sh_task st t = Waiting c" for t c
  proof -
    have "(t, c) \<in> set waiting \<longleftrightarrow> (t, c) \<in> set (waiting_of st t)"
      by (simp flip: each)
    also have "\<dots> \<longleftrightarrow> sh_task st t = Waiting c"
      by (auto simp: waiting_of_def simp flip: awaited_waiting split: option.splits)
    finally show ?thesis .
  qed
  moreover have "distinct (map fst waiting)"
    by (rule single_entries) (simp add: each waiting_of_def split: option.split)
  ultimately show ?thesis
    using made by auto
qed

text \<open>
  A message has arrived. Handle 5 asks for the stream to receive it, then 6 to send and 7 to
  receive; 5 and 6 have been served.
\<close>

definition demo_schedule :: "(nat, nat) shared_event list" where
  "demo_schedule = [Calls 5 ReceiveCall, Locks 5, Calls 6 (SendCall demo_raw), Calls 7 ReceiveCall, Polls 5,
     Locks 6, Polls 6]"

definition demo_served :: "(nat, demo_stream, nat, nat raw_message, nat) shared_state" where
  "demo_served = the (after_events demo_futures demo_schedule (shared_new ([demo_request], [])))"

theorem calls_in_order_witness:
  "\<exists>waiting. [(5, ReceiveCall), (6, SendCall demo_raw), (7, ReceiveCall)] =
     returned_calls demo_served @ under_way demo_served @ waiting \<and> length (returned_calls demo_served) = 2 \<and>
     (7, ReceiveCall) \<in> set waiting"
proof -
  have run: "after_events demo_futures demo_schedule (shared_new ([demo_request], [])) = Some demo_served"
    unfolding demo_served_def
    by (simp add: demo_schedule_def take_lock_def run_task_def demo_futures_def shared_new_def)
  have state: "sh_task demo_served 7 = Waiting ReceiveCall" "length (returned_calls demo_served) = 2"
    unfolding demo_served_def
    by (simp_all add: demo_schedule_def take_lock_def run_task_def demo_futures_def shared_new_def returned_calls_def)
  have "shared_history demo_futures (\<lambda>s s'. False) ([demo_request], []) ([] @ demo_schedule) demo_served"
    by (rule events_history [OF begins run])
  moreover have "served_in_order ([] @ demo_schedule)"
    by (simp add: served_in_order_def demo_schedule_def)
  ultimately show ?thesis
    using calls_in_order [of demo_futures "\<lambda>s s'. False" "([demo_request], [])" "[] @ demo_schedule" demo_served] state
    by (auto simp: demo_schedule_def)
qed

end
