(* ===== verification/Stream_Session.thy ===== *)
theory Stream_Session
  imports Peers
begin

text \<open>
  Messages over a byte stream: what a codec writes goes out with \<open>poll_write\<close>, which may take
  any part of it, is carried over in any pieces, comes in with \<open>poll_read\<close> and goes through
  the codec of the other end, all of it interleaved. The stream is any that promises what
  \<open>AsyncRead\<close> and \<open>AsyncWrite\<close> do (\<open>pipe_laws\<close>); the streams of the transports keep that
  promise if the runtime's streams under them do.
\<close>

section \<open>Byte streams\<close>

text \<open>
  \<open>out\<close> is all that a stream has taken, \<open>inn\<close> what it has yet to hand out; \<open>ok\<close> holds of the
  states of the stream. A poll that is pending or fails takes nothing and hands out nothing.
\<close>

primrec taken :: "(usize, io_error) res wait \<Rightarrow> nat" where
  "taken Pending = 0"
| "taken (Ready r) = (case r of Ok n \<Rightarrow> unat n | _ \<Rightarrow> 0)"

primrec handed_out :: "read_buf \<Rightarrow> (read_buf, io_error) res wait \<Rightarrow> bytes" where
  "handed_out buf Pending = []"
| "handed_out buf (Ready r) = (case r of Ok buf' \<Rightarrow> drop (length (rb_filled buf)) (rb_filled buf') | _ \<Rightarrow> [])"

definition write_laws :: "'s async_io \<Rightarrow> ('s \<Rightarrow> bool) \<Rightarrow> ('s \<Rightarrow> bytes) \<Rightarrow> ('s \<Rightarrow> bytes) \<Rightarrow> bool" where
  "write_laws io ok inn out \<longleftrightarrow>
     (\<forall>s bs s' r. ok s \<longrightarrow> ai_poll_write io s bs = (s', r) \<longrightarrow>
        ok s' \<and> taken r \<le> length bs \<and> out s' = out s @ take (taken r) bs \<and> inn s' = inn s) \<and>
     (\<forall>s s' r. ok s \<longrightarrow> ai_poll_flush io s = (s', r) \<longrightarrow> ok s' \<and> out s' = out s \<and> inn s' = inn s)"

definition read_laws :: "'s async_io \<Rightarrow> ('s \<Rightarrow> bool) \<Rightarrow> ('s \<Rightarrow> bytes) \<Rightarrow> ('s \<Rightarrow> bytes) \<Rightarrow> bool" where
  "read_laws io ok inn out \<longleftrightarrow>
     (\<forall>s buf s' r. ok s \<longrightarrow> ai_poll_read io s buf = (s', r) \<longrightarrow>
        ok s' \<and> inn s = handed_out buf r @ inn s' \<and> out s' = out s \<and>
        (\<forall>buf'. r = Ready (Ok buf') \<longrightarrow> extends_buf buf buf'))"

definition pipe_laws :: "'s async_io \<Rightarrow> ('s \<Rightarrow> bool) \<Rightarrow> ('s \<Rightarrow> bytes) \<Rightarrow> ('s \<Rightarrow> bytes) \<Rightarrow> bool" where
  "pipe_laws io ok inn out \<longleftrightarrow> write_laws io ok inn out \<and> read_laws io ok inn out"

lemma write_lawsD:
  "write_laws io ok inn out \<Longrightarrow> ok s \<Longrightarrow> ai_poll_write io s bs = (s', r) \<Longrightarrow>
     ok s' \<and> taken r \<le> length bs \<and> out s' = out s @ take (taken r) bs \<and> inn s' = inn s"
  "write_laws io ok inn out \<Longrightarrow> ok s \<Longrightarrow> ai_poll_flush io s = (s', q) \<Longrightarrow>
     ok s' \<and> out s' = out s \<and> inn s' = inn s"
  unfolding write_laws_def by blast+

lemma read_lawsD:
  "read_laws io ok inn out \<Longrightarrow> ok s \<Longrightarrow> ai_poll_read io s buf = (s', r) \<Longrightarrow>
     ok s' \<and> inn s = handed_out buf r @ inn s' \<and> out s' = out s"
  "read_laws io ok inn out \<Longrightarrow> ok s \<Longrightarrow> ai_poll_read io s buf = (s', Ready (Ok buf')) \<Longrightarrow>
     extends_buf buf buf'"
  unfolding read_laws_def by blast+

lemma handed_out_none: "\<nexists>buf'. r = Ready (Ok buf') \<Longrightarrow> handed_out buf r = []"
  by (cases r) (auto split: res.splits)

text \<open>A poll that is passed on to a field keeps the laws of the stream in the field.\<close>

lemma on_field_write:
  assumes "write_laws io ok inn out" and "\<And>x s. get (upd (\<lambda>_. x) s) = x"
    and "\<And>s bs. ai_poll_write wio s bs = on_field get upd (\<lambda>x. ai_poll_write io x bs) s"
    and "\<And>s. ai_poll_flush wio s = on_field get upd (ai_poll_flush io) s"
  shows "write_laws wio (\<lambda>s. ok (get s)) (\<lambda>s. inn (get s)) (\<lambda>s. out (get s))"
  unfolding write_laws_def assms(3,4) on_field_def
  by (auto simp: assms(2) split: prod.splits dest: write_lawsD [OF assms(1)])

lemma on_field_read:
  assumes "read_laws io ok inn out" and "\<And>x s. get (upd (\<lambda>_. x) s) = x"
    and "\<And>s buf. ai_poll_read wio s buf = on_field get upd (\<lambda>x. ai_poll_read io x buf) s"
  shows "read_laws wio (\<lambda>s. ok (get s)) (\<lambda>s. inn (get s)) (\<lambda>s. out (get s))"
  unfolding read_laws_def assms(3) on_field_def
  by (auto simp: assms(2) split: prod.splits dest: read_lawsD [OF assms(1)])

lemma on_field_pipe:
  assumes "pipe_laws io ok inn out" and "\<And>x s. get (upd (\<lambda>_. x) s) = x"
    and "\<And>s bs. ai_poll_write wio s bs = on_field get upd (\<lambda>x. ai_poll_write io x bs) s"
    and "\<And>s. ai_poll_flush wio s = on_field get upd (ai_poll_flush io) s"
    and "\<And>s buf. ai_poll_read wio s buf = on_field get upd (\<lambda>x. ai_poll_read io x buf) s"
  shows "pipe_laws wio (\<lambda>s. ok (get s)) (\<lambda>s. inn (get s)) (\<lambda>s. out (get s))"
  using assms(1) unfolding pipe_laws_def
  by (blast intro: on_field_write [OF _ assms(2-4)] on_field_read [OF _ assms(2,5)])

text \<open>The two ends of a child process are two pipes, one for each direction.\<close>

lemma stdio_pipe:
  assumes "read_laws rio okr inn (\<lambda>_. [])" and "write_laws wio okw (\<lambda>_. []) out"
  shows "pipe_laws (so_io (stdio_ops lib rio wio)) (\<lambda>s. okr (ss_read s) \<and> okw (ss_write s))
    (\<lambda>s. inn (ss_read s)) (\<lambda>s. out (ss_write s))"
  unfolding pipe_laws_def write_laws_def read_laws_def
  by (auto simp: stdio_stream_defs split: prod.splits dest: read_lawsD [OF assms(1)] write_lawsD [OF assms(2)])

text \<open>A box is a stream of the operations it was made with.\<close>

lemma boxed_pipe:
  assumes "pipe_laws (so_io ops) ok inn out"
  shows "pipe_laws boxed_io (\<lambda>b. bx_ops b = ops \<and> ok (bx_self b)) (\<lambda>b. inn (bx_self b)) (\<lambda>b. out (bx_self b))"
proof -
  have laws: "write_laws (so_io ops) ok inn out" "read_laws (so_io ops) ok inn out"
    using assms by (simp_all add: pipe_laws_def)
  show ?thesis
    unfolding pipe_laws_def write_laws_def read_laws_def
    by (auto simp: boxed_defs on_field_def split: prod.splits dest: write_lawsD [OF laws(1)] read_lawsD [OF laws(2)])
qed

lemma borrow_pipe:
  "pipe_laws (so_io ops) ok inn out \<Longrightarrow>
   pipe_laws (so_io (borrow_ops ops)) (\<lambda>b. ok (sb_stream b)) (\<lambda>b. inn (sb_stream b)) (\<lambda>b. out (sb_stream b))"
  by (erule on_field_pipe) (simp_all add: borrow_defs)

text \<open>
  A stream for the witnesses: what has arrived and what was taken. It takes at most 20 bytes
  at a time and hands out what there is room for.
\<close>

definition demo_pipe :: "(bytes \<times> bytes) async_io" where
  "demo_pipe =
     \<lparr>ai_poll_read = (\<lambda>(i, w) buf.
        ((drop (rb_remaining buf) i, w),
         Ready (put_slice (take (rb_remaining buf) i) buf))),
      ai_poll_write = (\<lambda>(i, w) bs. ((i, w @ take 20 bs), Ready (Ok (usize_len (take 20 bs))))),
      ai_poll_flush = (\<lambda>s. (s, Ready (Ok ()))), ai_poll_shutdown = (\<lambda>s. (s, Ready (Ok ())))\<rparr>"

lemma demo_pipe_laws: "pipe_laws demo_pipe (\<lambda>_. True) fst snd"
proof -
  have "unat (usize_len (take 20 bs)) = length (take 20 bs)" for bs :: bytes
    by (rule unat_usize_len) simp
  moreover have "take (min (length bs) 20) bs = take 20 bs" for bs :: bytes
    by (simp add: min_def)
  ultimately show ?thesis
    by (auto simp: pipe_laws_def write_laws_def read_laws_def demo_pipe_def put_slice_def extends_buf_def)
qed

lemma demo_tcp_pipe:
  "pipe_laws (so_io (tcp_ops demo_tcp_lib demo_pipe)) (\<lambda>_. True) (\<lambda>s. fst (ts_stream s)) (\<lambda>s. snd (ts_stream s))"
  by (rule on_field_pipe [OF demo_pipe_laws])
    (simp_all add: tcp_ops_def tcp_poll_read_def tcp_poll_write_def tcp_poll_flush_def)

text \<open>
  C13. The transports are byte streams: the stream of each of the four byte transports, with
  the runtime's stream under it, and a box or a borrow of any stream, takes and hands out the
  bytes in order and without loss or invention if what is under it does; the standard
  streams of a child process do so together when each of the two pipes does in its direction.
\<close>

theorem streams_stay_pipes:
  assumes "pipe_laws io ok inn out"
    and "read_laws rio okr inr (\<lambda>_. [])" and "write_laws wio okw (\<lambda>_. []) outw"
    and "pipe_laws (so_io ops) oko ino outo"
  shows "pipe_laws (so_io (tcp_ops tlib io)) (\<lambda>s. ok (ts_stream s)) (\<lambda>s. inn (ts_stream s)) (\<lambda>s. out (ts_stream s)) \<and>
    pipe_laws (so_io (ipc_ops ilib io)) (\<lambda>s. ok (is_inner s)) (\<lambda>s. inn (is_inner s)) (\<lambda>s. out (is_inner s)) \<and>
    pipe_laws (so_io (channel_ops io)) (\<lambda>s. ok (cs_end s)) (\<lambda>s. inn (cs_end s)) (\<lambda>s. out (cs_end s)) \<and>
    pipe_laws (so_io (stdio_ops slib rio wio)) (\<lambda>s. okr (ss_read s) \<and> okw (ss_write s))
      (\<lambda>s. inr (ss_read s)) (\<lambda>s. outw (ss_write s)) \<and>
    pipe_laws (so_io boxed_ops) (\<lambda>b. bx_ops b = ops \<and> oko (bx_self b)) (\<lambda>b. ino (bx_self b)) (\<lambda>b. outo (bx_self b)) \<and>
    pipe_laws (so_io (borrow_ops ops)) (\<lambda>b. oko (sb_stream b)) (\<lambda>b. ino (sb_stream b)) (\<lambda>b. outo (sb_stream b))"
proof (intro conjI)
  show "pipe_laws (so_io (tcp_ops tlib io)) (\<lambda>s. ok (ts_stream s)) (\<lambda>s. inn (ts_stream s)) (\<lambda>s. out (ts_stream s))"
    by (rule on_field_pipe [OF assms(1)]) (simp_all add: tcp_ops_def tcp_poll_read_def tcp_poll_write_def tcp_poll_flush_def)
  show "pipe_laws (so_io (ipc_ops ilib io)) (\<lambda>s. ok (is_inner s)) (\<lambda>s. inn (is_inner s)) (\<lambda>s. out (is_inner s))"
    by (rule on_field_pipe [OF assms(1)]) (simp_all add: ipc_ops_def ipc_poll_read_def ipc_poll_write_def ipc_poll_flush_def)
  show "pipe_laws (so_io (channel_ops io)) (\<lambda>s. ok (cs_end s)) (\<lambda>s. inn (cs_end s)) (\<lambda>s. out (cs_end s))"
    by (rule on_field_pipe [OF assms(1)]) (simp_all add: channel_ops_def channel_poll_read_def channel_poll_write_def channel_poll_flush_def)
  show "pipe_laws (so_io (stdio_ops slib rio wio)) (\<lambda>s. okr (ss_read s) \<and> okw (ss_write s))
      (\<lambda>s. inr (ss_read s)) (\<lambda>s. outw (ss_write s))"
    by (rule stdio_pipe [OF assms(2,3)])
  show "pipe_laws (so_io boxed_ops) (\<lambda>b. bx_ops b = ops \<and> oko (bx_self b)) (\<lambda>b. ino (bx_self b)) (\<lambda>b. outo (bx_self b))"
    using boxed_pipe [OF assms(4)] by (simp add: boxed_ops_def)
  show "pipe_laws (so_io (borrow_ops ops)) (\<lambda>b. oko (sb_stream b)) (\<lambda>b. ino (sb_stream b)) (\<lambda>b. outo (sb_stream b))"
    by (rule borrow_pipe [OF assms(4)])
qed

text \<open>A socket behind a box, and a child with its two pipes.\<close>

theorem streams_stay_pipes_witness:
  "pipe_laws (so_io boxed_ops) (\<lambda>b. bx_ops b = tcp_ops demo_tcp_lib demo_pipe) (\<lambda>b. fst (ts_stream (bx_self b)))
     (\<lambda>b. snd (ts_stream (bx_self b))) \<and>
   (\<forall>slib :: (bool, bytes \<times> bytes, bytes \<times> bytes) stdio_lib.
     pipe_laws (so_io (stdio_ops slib demo_pipe demo_pipe)) (\<lambda>s. True) (\<lambda>s. fst (ss_read s)) (\<lambda>s. snd (ss_write s)))"
proof -
  have "read_laws demo_pipe (\<lambda>_. True) fst (\<lambda>_. [])" "write_laws demo_pipe (\<lambda>_. True) (\<lambda>_. []) snd"
    using demo_pipe_laws by (simp_all add: pipe_laws_def read_laws_def write_laws_def)
  note pipes = streams_stay_pipes [OF demo_pipe_laws this demo_tcp_pipe]
  have "pipe_laws (so_io (stdio_ops slib demo_pipe demo_pipe)) (\<lambda>s. True) (\<lambda>s. fst (ss_read s)) (\<lambda>s. snd (ss_write s))"
    for slib :: "(bool, bytes \<times> bytes, bytes \<times> bytes) stdio_lib"
    using pipes [THEN conjunct2, THEN conjunct2, THEN conjunct2, THEN conjunct1, of slib] by simp
  with pipes [THEN conjunct2, THEN conjunct2, THEN conjunct2, THEN conjunct2, THEN conjunct1] show ?thesis
    by simp
qed

section \<open>A link\<close>

text \<open>
  One direction of a connection: the sending end with the bytes its codec has written and the
  stream has not taken yet, how many bytes have been carried over so far, and the receiving
  end with its codec, its read buffer and what it has decoded. \<open>ln_failed\<close> is a decoder that
  refused what it was given, or never came back.
\<close>

record ('a, 'b, 'v, 'd) link =
  ln_sender :: 'a
  ln_unwritten :: bytes
  ln_sent :: "'v raw_message list"
  ln_carried :: nat
  ln_receiver :: 'b
  ln_codec :: message_codec
  ln_unread :: bytes
  ln_received :: "('v, 'd) message list"
  ln_failed :: bool

definition link_new :: "('a \<Rightarrow> bytes) \<Rightarrow> 'a \<Rightarrow> 'b \<Rightarrow> ('a, 'b, 'v, 'd) link" where
  "link_new out a b =
     \<lparr>ln_sender = a, ln_unwritten = [], ln_sent = [], ln_carried = length (out a), ln_receiver = b,
      ln_codec = codec, ln_unread = [], ln_received = [], ln_failed = False\<rparr>"

text \<open>A message is put into the write buffer, or refused; part of the buffer is written.\<close>

definition link_send :: "'v deps \<Rightarrow> 'v raw_message \<Rightarrow> ('a, 'b, 'v, 'd) link \<Rightarrow> ('a, 'b, 'v, 'd) link" where
  "link_send d rm l =
     (case codec_encode_raw d codec rm (ln_unwritten l) of
        (buf, Ok _) \<Rightarrow> l\<lparr>ln_unwritten := buf, ln_sent := ln_sent l @ [rm]\<rparr>
      | (buf, _) \<Rightarrow> l\<lparr>ln_unwritten := buf\<rparr>)"

definition link_write :: "'a async_io \<Rightarrow> ('a, 'b, 'v, 'd) link \<Rightarrow> ('a, 'b, 'v, 'd) link" where
  "link_write io l =
     (case ai_poll_write io (ln_sender l) (ln_unwritten l) of
        (a, r) \<Rightarrow> l\<lparr>ln_sender := a, ln_unwritten := drop (taken r) (ln_unwritten l)\<rparr>)"

definition link_flush :: "'a async_io \<Rightarrow> ('a, 'b, 'v, 'd) link \<Rightarrow> ('a, 'b, 'v, 'd) link" where
  "link_flush io l = l\<lparr>ln_sender := fst (ai_poll_flush io (ln_sender l))\<rparr>"

text \<open>A read with room for \<open>n\<close> bytes, after which the decoder is asked until it waits.\<close>

definition link_read :: "'v deps \<Rightarrow> 'b async_io \<Rightarrow> nat \<Rightarrow> ('a, 'b, 'v, 'd) link \<Rightarrow> ('a, 'b, 'v, 'd) link" where
  "link_read d io n l =
     (case ai_poll_read io (ln_receiver l) \<lparr>rb_filled = [], rb_remaining = n\<rparr> of
        (b, Ready (Ok buf)) \<Rightarrow>
          (case drain (codec_decode d) (ln_codec l) (ln_unread l @ rb_filled buf) (ln_received l) of
             Some (q, Ok ms) \<Rightarrow> l\<lparr>ln_receiver := b, ln_codec := fst q, ln_unread := snd q, ln_received := ms\<rparr>
           | _ \<Rightarrow> l\<lparr>ln_receiver := b, ln_failed := True\<rparr>)
      | (b, _) \<Rightarrow> l\<lparr>ln_receiver := b\<rparr>)"

text \<open>What the connection does in between: it carries over some of what the sender has taken.\<close>

definition in_transit :: "('a \<Rightarrow> bytes) \<Rightarrow> ('a, 'b, 'v, 'd) link \<Rightarrow> bytes" where
  "in_transit out l = drop (ln_carried l) (out (ln_sender l))"

record ('a, 'b) ends =
  en_sender :: "'a async_io"
  en_receiver :: "'b async_io"
  en_out :: "'a \<Rightarrow> bytes"
  en_inn :: "'b \<Rightarrow> bytes"
  en_ok :: "'b \<Rightarrow> bool"
  en_room :: nat

inductive link_step ::
  "'v deps \<Rightarrow> ('a, 'b) ends \<Rightarrow> ('a, 'b, 'v, 'd) link \<Rightarrow> ('a, 'b, 'v, 'd) link \<Rightarrow> bool" for d e where
  send: "link_step d e l (link_send d rm l)"
| written: "link_step d e l (link_write (en_sender e) l)"
| flushed: "link_step d e l (link_flush (en_sender e) l)"
| carried: "in_transit (en_out e) l = bs @ later \<Longrightarrow> en_ok e b \<Longrightarrow> en_inn e b = en_inn e (ln_receiver l) @ bs \<Longrightarrow>
    link_step d e l (l\<lparr>ln_receiver := b, ln_carried := ln_carried l + length bs\<rparr>)"
| received: "n \<le> en_room e \<Longrightarrow> link_step d e l (link_read d (en_receiver e) n l)"

inductive link_run ::
  "'v deps \<Rightarrow> ('a, 'b) ends \<Rightarrow> ('a, 'b, 'v, 'd) link \<Rightarrow> ('a, 'b, 'v, 'd) link \<Rightarrow> bool" for d e where
  here: "link_run d e l l"
| there: "link_run d e l l' \<Longrightarrow> link_step d e l' l'' \<Longrightarrow> link_run d e l l''"

section \<open>The invariant\<close>

lemma feed_snoc:
  "feed dec s src (chunks @ [c]) ms =
     (case feed dec s src chunks ms of
        Some (q, Ok ms') \<Rightarrow> drain dec (fst q) (snd q @ c) ms'
      | other \<Rightarrow> other)"
  by (induction chunks arbitrary: s src ms) (auto split: option.splits prod.splits res.splits)

text \<open>Messages the codec can write and that leave room for a read in the codec of the other end.\<close>

definition fits :: "'v deps \<Rightarrow> nat \<Rightarrow> 'v raw_message \<Rightarrow> bool" where
  "fits d room rm \<longleftrightarrow> encodable d rm \<and> decodes_back d (rm_header rm) \<and>
     (\<forall>b. to_bytes d rm = Ok b \<longrightarrow> length b + room \<le> 2 ^ 30)"

abbreviation wire_of :: "'v deps \<Rightarrow> 'v raw_message list \<Rightarrow> bytes" where
  "wire_of d rms \<equiv> concat (map (\<lambda>rm. frame_bytes (sent_frame d rm)) rms)"

text \<open>Whatever part of what was sent has been read, in whatever reads: its whole messages are decoded.\<close>

lemma reads_decoded:
  fixes d :: "'v deps"
  assumes "nom_laws d" and "room + 34 \<le> 2 ^ 30"
    and "\<forall>rm \<in> set rms. fits d room rm \<and> (\<exists>b. to_bytes d rm = Ok b)"
    and "\<forall>c \<in> set reads. length c \<le> room" and "concat reads @ later = wire_of d rms"
  obtains n part where "n \<le> length rms" and "later = [] \<Longrightarrow> n = length rms \<and> part = []"
    and "feed (codec_decode d) codec [] reads [] = Some ((codec_state default_limits part, []),
      Ok (map (\<lambda>rm. frame_message (sent_frame d rm)) (take n rms) :: ('v, 'd) message list))"
proof -
  let ?fs = "map (sent_frame d) rms"
  have frames: "takes_frame d default_limits (sent_frame d rm) \<and> length (frame_bytes (sent_frame d rm)) + room \<le> 2 ^ 30"
    if "rm \<in> set rms" for rm
    using assms(1,3) that sent_frame(1,2) [OF assms(1), of rm] unfolding fits_def takes_frame_def
    by auto
  have wire: "concat reads @ later = concat (map frame_bytes ?fs) @ []"
    using assms(5) by (simp add: o_def)
  have "frame_bytes empty_frame \<noteq> []"
    by (rule frame_nonempty [of default_limits]) simp
  with codec_dec.cut_frames [OF wire, where g = empty_frame and missing = "frame_bytes empty_frame"]
  obtain fa fb f cut gap where cut: "?fs = fa @ fb" "concat reads = concat (map frame_bytes fa) @ cut"
      "f = hd (fb @ [empty_frame])" "frame_bytes f = cut @ gap" "gap \<noteq> []"
      "cut @ later = concat (map frame_bytes fb) @ []"
    by (metis append_Nil)
  have "f \<in> set (?fs @ [empty_frame])"
    using cut(1,3) by (cases fb) auto
  then have member: "set (fa @ [f]) \<subseteq> set (?fs @ [empty_frame])"
    using cut(1) by auto
  with frames have good: "\<forall>g \<in> set (fa @ [f]). takes_frame d default_limits g"
    using assms(1) by (fastforce simp: takes_frame_def)
  have fa: "fa = map (sent_frame d) (take (length fa) rms)" and n: "length fa \<le> length rms"
    using cut(1) by (metis append_eq_conv_conj take_map, metis length_append length_map le_add1)
  have size: "length (frame_bytes g) + room \<le> 2 ^ 30" if "g \<in> set (fa @ [f])" for g
    using subsetD [OF member that] frames assms(2) by auto
  have cap: "\<forall>g \<in> set (fa @ [f]). \<forall>c \<in> set reads. length (frame_bytes g) + length c \<le> unat (fst default_limits)"
    using size assms(4) by (fastforce simp: default_limits_def DEFAULT_MAX_MESSAGE_SIZE_def)
  have "frame_bytes (hd (fa @ [f])) \<noteq> []"
    using good by (intro hd_frame_nonempty [of fa f default_limits]) (simp add: takes_frame_def)
  from codec_dec.feed_frames [OF good cut(4,5), of "[]" reads _ "[]"] cap cut(2) this
  have "feed (codec_decode d) codec [] reads [] =
      Some ((codec_state default_limits cut, []), Ok (map frame_message fa :: ('v, 'd) message list))"
    by (simp add: codec_def codec_new_state)
  moreover have "length fa = length rms \<and> cut = []" if "later = []"
  proof (cases fb)
    case Nil
    with cut(1,6) that show ?thesis
      by (metis append_Nil2 concat.simps(1) length_map list.simps(8))
  next
    case (Cons g gs)
    with cut(3,6) that have "length (frame_bytes f) \<le> length cut"
      by simp
    with cut(4,5) show ?thesis by simp
  qed
  moreover have "map frame_message fa = (map (\<lambda>rm. frame_message (sent_frame d rm)) (take (length fa) rms) :: ('v, 'd) message list)"
    by (subst fa) simp
  ultimately show thesis
    using n that [of "length fa" cut] by simp
qed

text \<open>
  Nothing is lost, doubled or reordered on the way: what has been sent is what was read, what
  the receiver can read, what is in transit and what has not been written, in this order.
\<close>

definition link_ok :: "'v deps \<Rightarrow> ('a, 'b) ends \<Rightarrow> ('a \<Rightarrow> bool) \<Rightarrow> ('a, 'b, 'v, 'd) link \<Rightarrow> bool" where
  "link_ok d e oka l \<longleftrightarrow>
     oka (ln_sender l) \<and> en_ok e (ln_receiver l) \<and> \<not> ln_failed l \<and>
     (\<forall>rm \<in> set (ln_sent l). \<exists>b. to_bytes d rm = Ok b) \<and>
     (\<exists>reads. feed (codec_decode d) codec [] reads [] = Some ((ln_codec l, ln_unread l), Ok (ln_received l)) \<and>
        (\<forall>c \<in> set reads. length c \<le> en_room e) \<and>
        wire_of d (ln_sent l) =
          concat reads @ en_inn e (ln_receiver l) @ in_transit (en_out e) l @ ln_unwritten l) \<and>
     ln_carried l \<le> length (en_out e (ln_sender l))"

definition ends_laws :: "('a, 'b) ends \<Rightarrow> ('a \<Rightarrow> bool) \<Rightarrow> ('a \<Rightarrow> bytes) \<Rightarrow> ('b \<Rightarrow> bytes) \<Rightarrow> bool" where
  "ends_laws e oka inna outb \<longleftrightarrow>
     pipe_laws (en_sender e) oka inna (en_out e) \<and> pipe_laws (en_receiver e) (en_ok e) (en_inn e) outb"

lemma link_send_cases:
  fixes d :: "'v deps"
  assumes "nom_laws d" and "rm \<in> set (ln_sent (link_send d rm l)) \<Longrightarrow> encodable d rm"
  obtains "link_send d rm l = l"
  | b where "to_bytes d rm = Ok b" "link_send d rm l =
      l\<lparr>ln_unwritten := ln_unwritten l @ frame_bytes (sent_frame d rm), ln_sent := ln_sent l @ [rm]\<rparr>"
proof (cases "codec_encode_raw d codec rm (ln_unwritten l)")
  case (Pair buf r)
  show thesis
  proof (cases "r = Ok ()")
    case True
    with Pair obtain b where b: "to_bytes d rm = Ok b" "buf = ln_unwritten l @ b"
      using codec_raw.accepted_iff by blast
    from Pair True have run: "link_send d rm l = l\<lparr>ln_unwritten := buf, ln_sent := ln_sent l @ [rm]\<rparr>"
      by (simp add: link_send_def)
    with assms(2) have "encodable d rm"
      by simp
    from sent_frame(1) [OF assms(1) this b(1)] b run that(2) show thesis
      by simp
  next
    case False
    with Pair codec_raw.refuses have "buf = ln_unwritten l"
      by blast
    with Pair False have "link_send d rm l = l"
      by (cases r) (simp_all add: link_send_def)
    with that(1) show thesis .
  qed
qed

lemma link_send_ok:
  fixes d :: "'v deps"
  assumes "nom_laws d" and "link_ok d e oka l" and "\<forall>rm \<in> set (ln_sent (link_send d rm l)). fits d (en_room e) rm"
  shows "link_ok d e oka (link_send d rm l)"
proof (rule link_send_cases [OF assms(1), of rm l])
  show "encodable d rm" if "rm \<in> set (ln_sent (link_send d rm l))"
    using that assms(3) by (simp add: fits_def)
  show ?thesis if "link_send d rm l = l"
    using that assms(2) by simp
  fix b
  assume "to_bytes d rm = Ok b" and "link_send d rm l =
      l\<lparr>ln_unwritten := ln_unwritten l @ frame_bytes (sent_frame d rm), ln_sent := ln_sent l @ [rm]\<rparr>"
  with assms(2) show ?thesis
    by (auto simp: link_ok_def in_transit_def)
qed

lemma link_write_ok:
  assumes "ends_laws e oka inna outb" and "link_ok d e oka l"
  shows "link_ok d e oka (link_write (en_sender e) l)"
proof -
  obtain a r where poll: "ai_poll_write (en_sender e) (ln_sender l) (ln_unwritten l) = (a, r)"
    by fastforce
  have "write_laws (en_sender e) oka inna (en_out e)" and "oka (ln_sender l)"
    using assms by (simp_all add: ends_laws_def pipe_laws_def link_ok_def)
  from write_lawsD(1) [OF this poll] assms(2) show ?thesis
    by (auto simp: link_write_def poll link_ok_def in_transit_def)
qed

lemma link_flush_ok:
  assumes "ends_laws e oka inna outb" and "link_ok d e oka l"
  shows "link_ok d e oka (link_flush (en_sender e) l)"
proof -
  obtain a r where poll: "ai_poll_flush (en_sender e) (ln_sender l) = (a, r)"
    by fastforce
  have "write_laws (en_sender e) oka inna (en_out e)" and "oka (ln_sender l)"
    using assms by (simp_all add: ends_laws_def pipe_laws_def link_ok_def)
  from write_lawsD(2) [OF this poll] assms(2) show ?thesis
    by (simp add: link_flush_def poll link_ok_def in_transit_def)
qed

lemma link_carry_ok:
  assumes "link_ok d e oka l" and "in_transit (en_out e) l = bs @ later" and "en_ok e b"
    and "en_inn e b = en_inn e (ln_receiver l) @ bs"
  shows "link_ok d e oka (l\<lparr>ln_receiver := b, ln_carried := ln_carried l + length bs\<rparr>)"
proof -
  have "drop (ln_carried l + length bs) (en_out e (ln_sender l)) = later"
    using arg_cong [OF assms(2), of "drop (length bs)"] by (simp add: in_transit_def add.commute)
  moreover have "length bs \<le> length (en_out e (ln_sender l)) - ln_carried l"
    using arg_cong [OF assms(2), of length] by (simp add: in_transit_def)
  ultimately show ?thesis
    using assms by (auto simp: link_ok_def in_transit_def)
qed

lemma link_read_ok:
  fixes d :: "'v deps" and l :: "('a, 'b, 'v, 'd) link"
  assumes "ends_laws e oka inna outb" and "nom_laws d" and "en_room e + 34 \<le> 2 ^ 30"
    and "link_ok d e oka l" and "n \<le> en_room e" and "\<forall>rm \<in> set (ln_sent l). fits d (en_room e) rm"
  shows "link_ok d e oka (link_read d (en_receiver e) n l)"
proof -
  obtain b r where poll: "ai_poll_read (en_receiver e) (ln_receiver l) \<lparr>rb_filled = [], rb_remaining = n\<rparr> = (b, r)"
    by fastforce
  have laws: "read_laws (en_receiver e) (en_ok e) (en_inn e) outb" "en_ok e (ln_receiver l)"
    using assms by (simp_all add: ends_laws_def pipe_laws_def link_ok_def)
  note read = read_lawsD(1) [OF this poll]
  show ?thesis
  proof (cases "\<exists>buf. r = Ready (Ok buf)")
    case False
    then have "link_read d (en_receiver e) n l = l\<lparr>ln_receiver := b\<rparr>"
      using poll by (auto simp: link_read_def split: wait.splits res.splits)
    with handed_out_none [OF False] read assms(4) show ?thesis
      by (simp add: link_ok_def in_transit_def)
  next
    case True
    then obtain buf where r: "r = Ready (Ok buf)"
      by blast
    from read_lawsD(2) [OF laws poll [unfolded r]] have room: "length (rb_filled buf) \<le> n"
      by (auto simp: extends_buf_def)
    obtain reads where fed: "feed (codec_decode d) codec [] reads [] = Some ((ln_codec l, ln_unread l), Ok (ln_received l))"
      and small: "\<forall>c \<in> set reads. length c \<le> en_room e"
      and sent: "wire_of d (ln_sent l) =
          concat reads @ en_inn e (ln_receiver l) @ in_transit (en_out e) l @ ln_unwritten l"
      using assms(4) unfolding link_ok_def by blast
    let ?reads = "reads @ [rb_filled buf]"
    have small': "\<forall>c \<in> set ?reads. length c \<le> en_room e"
      using small room assms(5) by simp
    have sent': "concat ?reads @ en_inn e b @ in_transit (en_out e) l @ ln_unwritten l = wire_of d (ln_sent l)"
      using sent read r by simp
    have "\<forall>rm \<in> set (ln_sent l). fits d (en_room e) rm \<and> (\<exists>b. to_bytes d rm = Ok b)"
      using assms(4,6) by (simp add: link_ok_def)
    from reads_decoded [OF assms(2,3) this small' sent'] obtain q ms where
      fed': "feed (codec_decode d) codec [] ?reads [] = Some (q, Ok (ms :: ('v, 'd) message list))"
      by metis
    then have "drain (codec_decode d) (ln_codec l) (ln_unread l @ rb_filled buf) (ln_received l) = Some (q, Ok ms)"
      using fed by (simp add: feed_snoc)
    then have "link_read d (en_receiver e) n l =
        l\<lparr>ln_receiver := b, ln_codec := fst q, ln_unread := snd q, ln_received := ms\<rparr>"
      using poll r by (simp add: link_read_def)
    with assms(4) read fed' small' sent' show ?thesis
      by (auto simp: link_ok_def in_transit_def intro!: exI [of _ ?reads])
  qed
qed

lemma link_read_keeps:
  assumes "ai_poll_read io (ln_receiver l) \<lparr>rb_filled = [], rb_remaining = n\<rparr> = (b, r)"
  shows "ln_receiver (link_read d io n l) = b" and "ln_sent (link_read d io n l) = ln_sent l"
    and "ln_unwritten (link_read d io n l) = ln_unwritten l" and "ln_sender (link_read d io n l) = ln_sender l"
    and "ln_carried (link_read d io n l) = ln_carried l"
  by (auto simp: link_read_def assms split: wait.splits res.splits option.splits prod.splits)

lemma link_step_sent: "link_step d e l l' \<Longrightarrow> set (ln_sent l) \<subseteq> set (ln_sent l')"
  by (induction rule: link_step.induct)
    (auto simp: link_send_def link_write_def link_flush_def link_read_def
      split: prod.splits res.splits wait.splits option.splits)

lemma link_step_ok:
  fixes d :: "'v deps" and l l' :: "('a, 'b, 'v, 'd) link"
  assumes "ends_laws e oka inna outb" and "nom_laws d" and "en_room e + 34 \<le> 2 ^ 30"
    and "link_step d e l l'" and "link_ok d e oka l" and "\<forall>rm \<in> set (ln_sent l'). fits d (en_room e) rm"
  shows "link_ok d e oka l'"
proof -
  have before: "\<forall>rm \<in> set (ln_sent l). fits d (en_room e) rm"
    using assms(6) link_step_sent [OF assms(4)] by blast
  from assms(4) show ?thesis
  proof cases
    case (send rm)
    with link_send_ok [OF assms(2,5)] assms(6) show ?thesis by simp
  next
    case written
    with link_write_ok [OF assms(1,5)] show ?thesis by simp
  next
    case flushed
    with link_flush_ok [OF assms(1,5)] show ?thesis by simp
  next
    case (carried bs later b)
    with link_carry_ok [OF assms(5)] show ?thesis by simp
  next
    case (received n)
    with link_read_ok [OF assms(1-3,5) _ before] show ?thesis by simp
  qed
qed

lemma link_run_ok:
  fixes d :: "'v deps" and l l' :: "('a, 'b, 'v, 'd) link"
  assumes "ends_laws e oka inna outb" and "nom_laws d" and "en_room e + 34 \<le> 2 ^ 30"
  shows "link_run d e l l' \<Longrightarrow> link_ok d e oka l \<Longrightarrow> \<forall>rm \<in> set (ln_sent l'). fits d (en_room e) rm \<Longrightarrow>
    link_ok d e oka l'"
proof (induction rule: link_run.induct)
  case (there l l' l'')
  have "\<forall>rm \<in> set (ln_sent l'). fits d (en_room e) rm"
    using there.prems(2) link_step_sent [OF there.hyps(2)] by blast
  with there show ?case
    using link_step_ok [OF assms there.hyps(2)] by blast
qed

lemma link_new_ok:
  "oka a \<Longrightarrow> en_ok e b \<Longrightarrow> en_inn e b = [] \<Longrightarrow> link_ok d e oka (link_new (en_out e) a b)"
  by (auto simp: link_ok_def link_new_def in_transit_def intro!: exI [of _ "[]"])

text \<open>What the invariant says of the messages.\<close>

lemma link_ok_received:
  fixes d :: "'v deps" and l :: "('a, 'b, 'v, 'd) link"
  assumes "nom_laws d" and "en_room e + 34 \<le> 2 ^ 30" and "link_ok d e oka l"
    and "\<forall>rm \<in> set (ln_sent l). fits d (en_room e) rm"
  obtains n where "n \<le> length (ln_sent l)"
    and "ln_received l = map (\<lambda>rm. frame_message (sent_frame d rm)) (take n (ln_sent l))"
    and "ln_unwritten l = [] \<and> in_transit (en_out e) l = [] \<and> en_inn e (ln_receiver l) = [] \<longrightarrow>
      n = length (ln_sent l) \<and> ln_codec l = codec"
proof -
  obtain reads where fed: "feed (codec_decode d) codec [] reads [] = Some ((ln_codec l, ln_unread l), Ok (ln_received l))"
    and small: "\<forall>c \<in> set reads. length c \<le> en_room e"
    and sent: "concat reads @ (en_inn e (ln_receiver l) @ in_transit (en_out e) l @ ln_unwritten l) = wire_of d (ln_sent l)"
    using assms(3) unfolding link_ok_def by metis
  have "\<forall>rm \<in> set (ln_sent l). fits d (en_room e) rm \<and> (\<exists>b. to_bytes d rm = Ok b)"
    using assms(3,4) by (simp add: link_ok_def)
  then show thesis
  proof (rule reads_decoded [OF assms(1,2) _ small sent, where 'd = 'd])
    fix n part
    assume n: "n \<le> length (ln_sent l)"
      and all: "en_inn e (ln_receiver l) @ in_transit (en_out e) l @ ln_unwritten l = [] \<Longrightarrow>
        n = length (ln_sent l) \<and> part = []"
      and "feed (codec_decode d) codec [] reads [] = Some ((codec_state default_limits part, []),
        Ok (map (\<lambda>rm. frame_message (sent_frame d rm)) (take n (ln_sent l)) :: ('v, 'd) message list))"
    with fed have "ln_received l = map (\<lambda>rm. frame_message (sent_frame d rm)) (take n (ln_sent l))"
      and "ln_codec l = codec_state default_limits part"
      by simp_all
    with n all show thesis
      by (intro that [of n]) (simp_all add: codec_def codec_new_state)
  qed
qed

section \<open>A link can always be emptied\<close>

text \<open>
  \<open>responsive\<close>: a stream that is given bytes takes at least one, bytes that were taken can be
  carried over, and a read with the room of a link finds at least one of the bytes that are
  there.
\<close>

definition responsive :: "('a, 'b) ends \<Rightarrow> ('a \<Rightarrow> bool) \<Rightarrow> bool" where
  "responsive e oka \<longleftrightarrow>
     (\<forall>a bs a' r. oka a \<longrightarrow> bs \<noteq> [] \<longrightarrow> ai_poll_write (en_sender e) a bs = (a', r) \<longrightarrow> 0 < taken r) \<and>
     (\<forall>b bs. en_ok e b \<longrightarrow> (\<exists>b'. en_ok e b' \<and> en_inn e b' = en_inn e b @ bs)) \<and>
     (\<forall>b b' r. en_ok e b \<longrightarrow> en_inn e b \<noteq> [] \<longrightarrow>
        ai_poll_read (en_receiver e) b \<lparr>rb_filled = [], rb_remaining = en_room e\<rparr> = (b', r) \<longrightarrow>
        handed_out \<lparr>rb_filled = [], rb_remaining = en_room e\<rparr> r \<noteq> [])"

lemma link_run_trans: "link_run d e l' l'' \<Longrightarrow> link_run d e l l' \<Longrightarrow> link_run d e l l''"
  by (induction rule: link_run.induct) (auto intro: link_run.there)

lemmas link_run_first = link_run_trans [OF _ link_run.there [OF link_run.here]]

text \<open>A loop whose every turn keeps an invariant and what was sent, and makes a measure smaller.\<close>

lemma link_loop:
  assumes "\<And>l. I l \<Longrightarrow> 0 < (\<mu> l :: nat) \<Longrightarrow> \<exists>l'. link_step d e l l' \<and> I l' \<and> ln_sent l' = ln_sent l \<and> \<mu> l' < \<mu> l"
    and "I l"
  shows "\<exists>l'. link_run d e l l' \<and> I l' \<and> ln_sent l' = ln_sent l \<and> \<mu> l' = 0"
  using assms(2)
proof (induction "\<mu> l" arbitrary: l rule: less_induct)
  case less
  show ?case
  proof (cases "\<mu> l = 0")
    case True
    with less.prems show ?thesis
      by (blast intro: link_run.here)
  next
    case False
    then obtain l1 where l1: "link_step d e l l1" "I l1" "ln_sent l1 = ln_sent l" "\<mu> l1 < \<mu> l"
      using assms(1) [OF less.prems] by blast
    from less.hyps [OF this(4,2)] l1 show ?thesis
      by (metis link_run_first)
  qed
qed

lemma link_all_written:
  fixes d :: "'v deps"
  assumes "ends_laws e oka inna outb" and "responsive e oka" and "link_ok d e oka l"
  shows "\<exists>l'. link_run d e l l' \<and> link_ok d e oka l' \<and> ln_sent l' = ln_sent l \<and> length (ln_unwritten l') = 0"
proof (rule link_loop [where I = "link_ok d e oka" and \<mu> = "\<lambda>l. length (ln_unwritten l)"])
  show "link_ok d e oka l"
    by (rule assms(3))
next
  fix l
  assume l: "link_ok d e oka l" "0 < length (ln_unwritten l)"
  let ?l = "link_write (en_sender e) l"
  obtain a r where poll: "ai_poll_write (en_sender e) (ln_sender l) (ln_unwritten l) = (a, r)"
    by fastforce
  have "oka (ln_sender l)" "ln_unwritten l \<noteq> []"
    using l by (simp_all add: link_ok_def)
  then have "0 < taken r"
    using assms(2) poll unfolding responsive_def by blast
  with l(2) have "ln_sent ?l = ln_sent l" "length (ln_unwritten ?l) < length (ln_unwritten l)"
    by (simp_all add: link_write_def poll)
  with link_write_ok [OF assms(1) l(1)] link_step.written
  show "\<exists>l'. link_step d e l l' \<and> link_ok d e oka l' \<and> ln_sent l' = ln_sent l \<and>
      length (ln_unwritten l') < length (ln_unwritten l)"
    by blast
qed

lemma link_all_carried:
  fixes d :: "'v deps"
  assumes "responsive e oka" and "link_ok d e oka l"
  shows "\<exists>l'. link_step d e l l' \<and> link_ok d e oka l' \<and> ln_sent l' = ln_sent l \<and>
    ln_unwritten l' = ln_unwritten l \<and> in_transit (en_out e) l' = []"
proof -
  let ?bs = "in_transit (en_out e) l"
  have "en_ok e (ln_receiver l)"
    using assms(2) by (simp add: link_ok_def)
  then obtain b where b: "en_ok e b" "en_inn e b = en_inn e (ln_receiver l) @ ?bs"
    using assms(1) unfolding responsive_def by blast
  let ?l = "l\<lparr>ln_receiver := b, ln_carried := ln_carried l + length ?bs\<rparr>"
  have "link_step d e l ?l"
    using b by (intro link_step.carried [of e l ?bs "[]" b]) simp_all
  moreover have "link_ok d e oka ?l"
    using b by (intro link_carry_ok [OF assms(2), of ?bs "[]" b]) simp_all
  moreover have "in_transit (en_out e) ?l = []"
    by (simp add: in_transit_def)
  ultimately show ?thesis
    by (intro exI [of _ ?l]) simp
qed

lemma link_all_read:
  fixes d :: "'v deps" and l :: "('a, 'b, 'v, 'd) link"
  assumes "ends_laws e oka inna outb" and "nom_laws d" and "en_room e + 34 \<le> 2 ^ 30" and "responsive e oka"
    and "link_ok d e oka l" and "\<forall>rm \<in> set (ln_sent l). fits d (en_room e) rm"
    and "ln_unwritten l = []" and "in_transit (en_out e) l = []"
  shows "\<exists>l'. link_run d e l l' \<and> (link_ok d e oka l' \<and> (\<forall>rm \<in> set (ln_sent l'). fits d (en_room e) rm) \<and>
      ln_unwritten l' = [] \<and> in_transit (en_out e) l' = []) \<and> ln_sent l' = ln_sent l \<and>
    length (en_inn e (ln_receiver l')) = 0"
proof (rule link_loop [where \<mu> = "\<lambda>l. length (en_inn e (ln_receiver l))"])
  fix l :: "('a, 'b, 'v, 'd) link"
  assume l: "link_ok d e oka l \<and> (\<forall>rm \<in> set (ln_sent l). fits d (en_room e) rm) \<and>
      ln_unwritten l = [] \<and> in_transit (en_out e) l = []"
    and more_left: "0 < length (en_inn e (ln_receiver l))"
  let ?l = "link_read d (en_receiver e) (en_room e) l"
  have ok: "link_ok d e oka ?l"
    using l by (intro link_read_ok [OF assms(1-3)]) simp_all
  obtain b r where poll: "ai_poll_read (en_receiver e) (ln_receiver l) \<lparr>rb_filled = [], rb_remaining = en_room e\<rparr> = (b, r)"
    by fastforce
  have "read_laws (en_receiver e) (en_ok e) (en_inn e) outb" "en_ok e (ln_receiver l)"
    using assms(1) l by (simp_all add: ends_laws_def pipe_laws_def link_ok_def)
  note read = read_lawsD(1) [OF this poll]
  have "handed_out \<lparr>rb_filled = [], rb_remaining = en_room e\<rparr> r \<noteq> []"
    using assms(4) poll more_left \<open>en_ok e (ln_receiver l)\<close> unfolding responsive_def by blast
  with read have shorter: "length (en_inn e b) < length (en_inn e (ln_receiver l))"
    by (cases "handed_out \<lparr>rb_filled = [], rb_remaining = en_room e\<rparr> r") simp_all
  note keeps = link_read_keeps [OF poll]
  from link_step.received [of "en_room e" e d l] ok l shorter
  show "\<exists>l'. link_step d e l l' \<and> (link_ok d e oka l' \<and> (\<forall>rm \<in> set (ln_sent l'). fits d (en_room e) rm) \<and>
      ln_unwritten l' = [] \<and> in_transit (en_out e) l' = []) \<and> ln_sent l' = ln_sent l \<and>
      length (en_inn e (ln_receiver l')) < length (en_inn e (ln_receiver l))"
    by (intro exI [of _ ?l]) (simp add: keeps in_transit_def)
qed (use assms in simp)

section \<open>Properties\<close>

text \<open>What a raw message is when it has arrived.\<close>

definition received_as :: "'v deps \<Rightarrow> 'v raw_message \<Rightarrow> ('v, 'd) message \<Rightarrow> bool" where
  "received_as d rm m \<longleftrightarrow>
     into_message d rm = Ok m \<and> m_message_type m = rm_message_type rm \<and> m_client_id m = rm_client_id rm \<and>
     snd (m_header d m) = Ok (rm_header rm) \<and> raw_payload_bytes m = Ok (rm_payload_data rm)"

lemma sent_received_as:
  fixes d :: "'v deps" and l :: "('a, 'b, 'v, 'd) link"
  assumes "nom_laws d" and "link_ok d e oka l" and "\<forall>rm \<in> set (ln_sent l). fits d room rm"
  shows "list_all2 (received_as d) (take n (ln_sent l))
    (map (\<lambda>rm. frame_message (sent_frame d rm)) (take n (ln_sent l)) :: ('v, 'd) message list)"
proof -
  have "received_as d rm (frame_message (sent_frame d rm) :: ('v, 'd) message)" if rm: "rm \<in> set (ln_sent l)" for rm
  proof -
    obtain b where enc: "encodable d rm" "decodes_back d (rm_header rm)" "to_bytes d rm = Ok b"
      using assms(2,3) rm unfolding link_ok_def fits_def by blast
    note arrived = sent_frame(3) [OF assms(1) enc(1,3)]
    show ?thesis
      unfolding received_as_def using arrived received_reads_back [OF assms(1) enc(1,2) arrived] by simp
  qed
  then show ?thesis
    by (auto simp: list_all2_map2 list.rel_refl_strong dest: in_set_takeD intro!: list.rel_refl_strong)
qed

text \<open>Writing, carrying over and reading, to the end.\<close>

lemma link_completes:
  fixes d :: "'v deps" and l :: "('a, 'b, 'v, 'd) link"
  assumes "nom_laws d" and "ends_laws e oka inna outb" and "en_room e + 34 \<le> 2 ^ 30" and "responsive e oka"
    and "oka a" and "en_ok e b" and "en_inn e b = []"
    and "link_run d e (link_new (en_out e) a b) l" and "\<forall>rm \<in> set (ln_sent l). fits d (en_room e) rm"
  shows "\<exists>l'. link_run d e l l' \<and> ln_sent l' = ln_sent l \<and>
    list_all2 (received_as d) (ln_sent l) (ln_received l') \<and> ln_codec l' = codec"
proof -
  have "link_ok d e oka l"
    using link_run_ok [OF assms(2,1,3,8) link_new_ok assms(9)] assms(5-7) by blast
  from link_all_written [OF assms(2,4) this] obtain l1 where l1: "link_run d e l l1" "link_ok d e oka l1"
      "ln_sent l1 = ln_sent l" "ln_unwritten l1 = []"
    by auto
  from link_all_carried [OF assms(4) l1(2)] obtain l2 where l2: "link_step d e l1 l2" "link_ok d e oka l2"
      "ln_sent l2 = ln_sent l1" "ln_unwritten l2 = ln_unwritten l1" "in_transit (en_out e) l2 = []"
    by blast
  have "\<forall>rm \<in> set (ln_sent l2). fits d (en_room e) rm"
    using assms(9) l1 l2 by simp
  from link_all_read [OF assms(2,1,3,4) l2(2) this _ l2(5)] obtain l3 where l3: "link_run d e l2 l3"
      "link_ok d e oka l3" "ln_sent l3 = ln_sent l2" "ln_unwritten l3 = []" "in_transit (en_out e) l3 = []"
      "en_inn e (ln_receiver l3) = []"
    using l1(4) l2(4) by auto
  have fits: "\<forall>rm \<in> set (ln_sent l3). fits d (en_room e) rm"
    using assms(9) l1 l2 l3 by simp
  have "ln_received l3 = map (\<lambda>rm. frame_message (sent_frame d rm)) (ln_sent l3) \<and> ln_codec l3 = codec"
    by (rule link_ok_received [OF assms(1,3) l3(2) fits]) (use l3 in simp)
  moreover have "link_run d e l l3"
    by (rule link_run_trans [OF l3(1) link_run.there [OF l1(1) l2(1)]])
  ultimately show ?thesis
    using sent_received_as [OF assms(1) l3(2) fits, of "length (ln_sent l3)"] l1 l2 l3
    by (intro exI [of _ l3]) simp
qed

text \<open>
  C2. Safety of a session over a byte stream: however encoding, partial writes, flushes, the
  connection and reads of any size up to a bound interleave, the receiver's codec never
  refuses anything and what it has decoded is, in order and without a gap, a prefix of what
  was sent, each message with the type, client id, header and payload it was sent with; as
  soon as nothing is left to write, to carry over or to read, everything sent has arrived.
\<close>

theorem stream_session:
  fixes d :: "'v deps" and l :: "('a, 'b, 'v, 'd) link"
  assumes "nom_laws d" and "ends_laws e oka inna outb" and "en_room e + 34 \<le> 2 ^ 30"
    and "oka a" and "en_ok e b" and "en_inn e b = []"
    and "link_run d e (link_new (en_out e) a b) l" and "\<forall>rm \<in> set (ln_sent l). fits d (en_room e) rm"
  shows "\<not> ln_failed l \<and>
    (\<exists>n \<le> length (ln_sent l). list_all2 (received_as d) (take n (ln_sent l)) (ln_received l) \<and>
       (ln_unwritten l = [] \<and> in_transit (en_out e) l = [] \<and> en_inn e (ln_receiver l) = [] \<longrightarrow>
          n = length (ln_sent l) \<and> ln_codec l = codec))"
proof -
  have ok: "link_ok d e oka l"
    using link_run_ok [OF assms(2,1,3,7) link_new_ok assms(8)] assms(4-6) by blast
  obtain n where "n \<le> length (ln_sent l)"
    and "ln_received l = map (\<lambda>rm. frame_message (sent_frame d rm)) (take n (ln_sent l))"
    and "ln_unwritten l = [] \<and> in_transit (en_out e) l = [] \<and> en_inn e (ln_receiver l) = [] \<longrightarrow>
      n = length (ln_sent l) \<and> ln_codec l = codec"
    by (rule link_ok_received [OF assms(1,3) ok assms(8)])
  with sent_received_as [OF assms(1) ok assms(8), of n] ok show ?thesis
    by (intro conjI exI [of _ n]) (simp_all add: link_ok_def)
qed

text \<open>Two sockets, and a link on which one message has been sent and written in two parts.\<close>

definition demo_ends :: "((bytes \<times> bytes) tcp_stream, (bytes \<times> bytes) tcp_stream) ends" where
  "demo_ends =
     \<lparr>en_sender = so_io (tcp_ops demo_tcp_lib demo_pipe), en_receiver = so_io (tcp_ops demo_tcp_lib demo_pipe),
      en_out = (\<lambda>s. snd (ts_stream s)), en_inn = (\<lambda>s. fst (ts_stream s)), en_ok = (\<lambda>_. True), en_room = 40\<rparr>"

lemma demo_ends_simps [simp]:
  "en_out demo_ends = (\<lambda>s. snd (ts_stream s))" "en_inn demo_ends = (\<lambda>s. fst (ts_stream s))"
  "en_ok demo_ends = (\<lambda>_. True)" "en_room demo_ends = 40"
  "ai_poll_write (en_sender demo_ends) a bs =
     (a\<lparr>ts_stream := (fst (ts_stream a), snd (ts_stream a) @ take 20 bs)\<rparr>, Ready (Ok (usize_len (take 20 bs))))"
  "ai_poll_read (en_receiver demo_ends) a \<lparr>rb_filled = [], rb_remaining = n\<rparr> =
     (a\<lparr>ts_stream := (drop n (fst (ts_stream a)), snd (ts_stream a))\<rparr>,
      Ready (Ok \<lparr>rb_filled = take n (fst (ts_stream a)), rb_remaining = n - min (length (fst (ts_stream a))) n\<rparr>))"
  by (simp_all add: demo_ends_def tcp_ops_def tcp_poll_read_def tcp_poll_write_def on_field_def demo_pipe_def
      put_slice_def split_beta)

lemma demo_ends_laws: "ends_laws demo_ends (\<lambda>_. True) (\<lambda>s. fst (ts_stream s)) (\<lambda>s. snd (ts_stream s))"
  using demo_tcp_pipe by (simp add: ends_laws_def demo_ends_def)

lemma demo_responsive: "responsive demo_ends (\<lambda>_. True)"
proof -
  have "0 < unat (usize_len (take 20 bs))" if "bs \<noteq> []" for bs :: bytes
    using that by (subst unat_usize_len) simp_all
  then show ?thesis
    by (auto simp: responsive_def intro: exI [of _ "(demo_tcp_stream [])\<lparr>ts_stream := (bs, [])\<rparr>" for bs])
qed

lemma demo_raw_fits: "fits demo_deps 40 demo_raw"
  using demo_raw_encodable demo_raw_decodes by (simp add: fits_def demo_raw_to_bytes)

lemma demo_raw_sent:
  "link_send demo_deps demo_raw l =
     l\<lparr>ln_unwritten := ln_unwritten l @ frame_bytes demo_frame, ln_sent := ln_sent l @ [demo_raw]\<rparr>"
proof -
  have "usize_len (frame_bytes demo_frame) \<le> c_max_frame_size codec"
    by (simp add: usize_len_def codec_def codec_new_def DEFAULT_MAX_MESSAGE_SIZE_def)
  with demo_raw_to_bytes show ?thesis
    by (simp add: link_send_def codec_raw.accepts)
qed

definition demo_link :: "((bytes \<times> bytes) tcp_stream, (bytes \<times> bytes) tcp_stream, nat, nat) link" where
  "demo_link =
     link_write (en_sender demo_ends) (link_write (en_sender demo_ends)
       (link_send demo_deps demo_raw (link_new (en_out demo_ends) (demo_tcp_stream []) (demo_tcp_stream []))))"

lemma demo_link_simps [simp]:
  "ln_sent demo_link = [demo_raw]" "ln_unwritten demo_link = []" "ln_carried demo_link = 0"
  "ln_sender demo_link = (demo_tcp_stream [])\<lparr>ts_stream := ([], frame_bytes demo_frame)\<rparr>"
  "ln_receiver demo_link = demo_tcp_stream []"
proof -
  have "unat (usize_len (take 20 bs)) = min 20 (length bs)" for bs :: bytes
    by (subst unat_usize_len) (simp_all add: min.commute)
  moreover have "unat (usize_len (drop 20 (frame_bytes demo_frame))) = 16"
    by (subst unat_usize_len) simp_all
  moreover have "take 20 (frame_bytes demo_frame) @ take 16 (drop 20 (frame_bytes demo_frame)) = frame_bytes demo_frame"
    by (simp flip: take_add)
  ultimately show "ln_sent demo_link = [demo_raw]" "ln_unwritten demo_link = []" "ln_carried demo_link = 0"
    "ln_sender demo_link = (demo_tcp_stream [])\<lparr>ts_stream := ([], frame_bytes demo_frame)\<rparr>"
    "ln_receiver demo_link = demo_tcp_stream []"
    by (simp_all add: demo_link_def demo_raw_sent link_new_def link_write_def demo_tcp_stream_def tcp_stream_new_def)
qed

lemma demo_link_run:
  "link_run demo_deps demo_ends (link_new (en_out demo_ends) (demo_tcp_stream []) (demo_tcp_stream [])) demo_link"
  unfolding demo_link_def
  by (rule link_run.there [OF link_run.there [OF link_run.there [OF link_run.here link_step.send]
        link_step.written] link_step.written])

text \<open>The 36 bytes are carried over and read at once.\<close>

theorem stream_session_witness:
  "let l = demo_link\<lparr>ln_receiver := demo_tcp_stream (frame_bytes demo_frame), ln_carried := 36\<rparr>;
       l' = link_read demo_deps (en_receiver demo_ends) 40 l
   in \<exists>m. ln_received l' = [m] \<and> received_as demo_deps demo_raw m"
proof -
  let ?l = "demo_link\<lparr>ln_receiver := demo_tcp_stream (frame_bytes demo_frame), ln_carried := 36\<rparr>"
  let ?l' = "link_read demo_deps (en_receiver demo_ends) 40 ?l"
  have stream: "ts_stream (demo_tcp_stream bs) = (bs, [])" for bs
    by (simp add: demo_tcp_stream_def tcp_stream_new_def)
  have "link_step demo_deps demo_ends demo_link ?l"
    using link_step.carried [of demo_ends demo_link "frame_bytes demo_frame" "[]"
        "demo_tcp_stream (frame_bytes demo_frame)" demo_deps]
    by (simp add: in_transit_def stream)
  moreover have "link_step demo_deps demo_ends ?l ?l'"
    by (rule link_step.received) simp
  ultimately have run: "link_run demo_deps demo_ends
      (link_new (en_out demo_ends) (demo_tcp_stream []) (demo_tcp_stream [])) ?l'"
    using demo_link_run link_run.there by blast
  have poll: "ai_poll_read (en_receiver demo_ends) (ln_receiver ?l) \<lparr>rb_filled = [], rb_remaining = 40\<rparr> =
      ((demo_tcp_stream (frame_bytes demo_frame))\<lparr>ts_stream := ([], [])\<rparr>,
       Ready (Ok \<lparr>rb_filled = frame_bytes demo_frame, rb_remaining = 4\<rparr>))"
    by (simp add: stream)
  note keeps = link_read_keeps [OF poll, of demo_deps]
  have "list_all2 (received_as demo_deps) [demo_raw] (ln_received ?l')"
    using stream_session [OF nom_laws_demo demo_ends_laws _ _ _ _ run] demo_raw_fits
    by (simp add: keeps in_transit_def stream)
  then show ?thesis
    by (auto simp: Let_def list_all2_Cons1)
qed

text \<open>
  C15. A session can always be completed: from every state that a session over responsive
  streams can get to, writing, carrying over and reading lead to a state in which all that
  has been sent has been received, whatever had been written, carried or read of it before.
\<close>

theorem stream_session_completes:
  fixes d :: "'v deps" and l :: "('a, 'b, 'v, 'd) link"
  assumes "nom_laws d" and "ends_laws e oka inna outb" and "en_room e + 34 \<le> 2 ^ 30" and "responsive e oka"
    and "oka a" and "en_ok e b" and "en_inn e b = []"
    and "link_run d e (link_new (en_out e) a b) l" and "\<forall>rm \<in> set (ln_sent l). fits d (en_room e) rm"
  shows "\<exists>l'. link_run d e l l' \<and> ln_sent l' = ln_sent l \<and>
    list_all2 (received_as d) (ln_sent l) (ln_received l') \<and> ln_codec l' = codec"
  by (rule link_completes [OF assms])

theorem stream_session_completes_witness:
  "\<exists>l. link_run demo_deps demo_ends demo_link l \<and>
     (\<exists>m. ln_received l = [m] \<and> received_as demo_deps demo_raw m)"
proof -
  from stream_session_completes [OF nom_laws_demo demo_ends_laws _ demo_responsive _ _ _ demo_link_run] demo_raw_fits
  show ?thesis
    by (auto simp: demo_tcp_stream_def tcp_stream_new_def list_all2_Cons1)
qed

end
