(* ===== verification/Request_Response.thy ===== *)
theory Request_Response
  imports Message_Builder
begin

text \<open>
  A request and its answer, from \<open>MessageBuilder\<close> of the requester through the wire format
  to \<open>create_response\<close> of the service (\<open>builder.rs\<close>, \<open>message.rs\<close>) and back.
\<close>

section \<open>When a response can be made\<close>

text \<open>A request that can be answered: its header reads, and has a correlation and a routing.\<close>

definition answerable :: "'v deps \<Rightarrow> ('v, 'd) message \<Rightarrow> 'v header \<Rightarrow> bool" where
  "answerable d m h \<longleftrightarrow>
     m_message_type m = Request \<and> snd (m_header d m) = Ok h \<and> h_reqrep h \<noteq> None \<and>
     (\<exists>r rs. h_routing h = Some (r # rs))"

text \<open>The answer that \<open>create_response\<close> gives to a request with the header \<open>h\<close> from \<open>c\<close>.\<close>

definition answer :: "'v header \<Rightarrow> u32 \<Rightarrow> u32 \<Rightarrow> status_code option \<Rightarrow> bytes \<Rightarrow> 'v raw_message" where
  "answer h c sender status pb =
     \<lparr>rm_message_type = Response, rm_client_id = sender,
      rm_header = header_new
        \<lparr>h_reqrep := Some (reqrep_res (rr_id (the (h_reqrep h)))),
         h_routing := Some ((hd (the (h_routing h)))\<lparr>r_client_id := Some c\<rparr> # tl (the (h_routing h))),
         h_status := status\<rparr>,
      rm_payload_data = pb\<rparr>"

lemma create_response_answers:
  assumes "answerable d m h"
  shows "snd (create_response d m sender status (Inr pb)) = Ok (answer h (m_client_id m) sender status pb)"
proof -
  obtain m' where mh: "m_header d m = (m', Ok h)"
    using assms by (cases "m_header d m") (simp add: answerable_def)
  have "m_client_id m' = m_client_id m"
    using accessors_keep_data(1) [of d m] mh by (simp add: m_client_id_def)
  with assms mh show ?thesis
    by (auto simp: answerable_def answer_def create_response_def m_message_type_def raw_message_new_def
        reqrep_res_def Let_def)
qed

lemma answer_well_formed:
  "well_formed Request h \<Longrightarrow> well_formed Response (rm_header (answer h c sender status pb))"
  by (auto simp: answer_def header_new_def)

section \<open>A request and its answer\<close>

text \<open>
  A request and its answer: a request that a builder accepts can be answered when it
  has arrived; the answer passes validation as a response, and back at the requester it reads
  as a response from the service with the service's status and payload, with the id of the
  request as its correlation and with the requester's client id in the one routing entry, whose
  name and path are those the request was sent to.
\<close>

lemma request_answered:
  fixes d :: "'v deps" and m :: "('v, 'd) message"
  assumes "nom_laws d" and "mb_message_type b = Request" and "build_with_payload b (Inr p) = Ok request"
    and "encodable d request" and "decodes_back d (rm_header request)" and "into_message d request = Ok m"
  shows "\<exists>q r response. h_reqrep (mb_header b) = Some q \<and> h_routing (mb_header b) = Some [r] \<and>
    snd (create_response d m sender status (Inr pb)) = Ok response \<and>
    validate_message_structure Response (rm_header response) = Ok () \<and>
    (\<forall>a :: ('v, 'd) message. encodable d response \<longrightarrow> decodes_back d (rm_header response) \<longrightarrow>
       into_message d response = Ok a \<longrightarrow>
       m_message_type a = Response \<and> m_client_id a = sender \<and> raw_payload_bytes a = Ok pb \<and>
       snd (m_header d a) = Ok (header_new
         \<lparr>h_reqrep := Some (reqrep_res (rr_id q)),
          h_routing := Some [r\<lparr>r_client_id := Some (mb_client_id b)\<rparr>], h_status := status\<rparr>))"
proof -
  have wf: "well_formed Request (mb_header b)" and request: "request = built b p"
    using assms(2,3) by (auto simp: build_with_payload_Ok_iff buildable_def)
  then obtain q r where parts: "h_reqrep (mb_header b) = Some q" "h_routing (mb_header b) = Some [r]"
    by auto
  note arrived = received_reads_back [OF assms(1,4-6)]
  have "answerable d m (mb_header b)"
    using arrived parts assms(2) by (simp add: answerable_def request built_def)
  note made = create_response_answers [OF this, of sender status pb]
  let ?response = "answer (mb_header b) (m_client_id m) sender status pb"
  have "validate_message_structure Response (rm_header ?response) = Ok ()"
    unfolding validate_ok_iff by (rule answer_well_formed [OF wf])
  moreover have "m_message_type a = Response \<and> m_client_id a = sender \<and> raw_payload_bytes a = Ok pb \<and>
       snd (m_header d a) = Ok (header_new
         \<lparr>h_reqrep := Some (reqrep_res (rr_id q)),
          h_routing := Some [r\<lparr>r_client_id := Some (mb_client_id b)\<rparr>], h_status := status\<rparr>)"
    if "encodable d ?response" "decodes_back d (rm_header ?response)" "into_message d ?response = Ok a"
    for a :: "('v, 'd) message"
    using received_reads_back [OF assms(1) that] arrived(2) parts
    by (simp add: answer_def request built_def)
  ultimately show ?thesis
    using parts made by blast
qed

text \<open>The two sample headers of the demonstration encoding, on their way.\<close>

lemma demo_header_bytes:
  assumes "h \<in> {demo_request_header, demo_response_header}"
  obtains hb where "header_bytes_of demo_deps h = Ok hb" "length hb \<le> 2" "decodes_back demo_deps h"
proof -
  have vec: "\<exists>hb. demo_to_vec h = Inr hb \<and> hb \<noteq> [] \<and> length hb \<le> 2 \<and> demo_from_slice hb = Inr h"
    using assms
    by (auto simp: demo_to_vec_def demo_from_slice_def demo_request_header_def demo_response_header_def
        demo_route_def header_new_def)
  have "h \<noteq> header_default"
    using assms by (auto simp: demo_request_header_def demo_response_header_def header_default_def header_new_def)
  then obtain hb where "header_bytes_of demo_deps h = Ok hb" "length hb \<le> 2" "decodes_back demo_deps h"
    using vec by (auto simp: header_bytes_of_def decodes_back_def demo_deps_def)
  then show thesis
    by (rule that)
qed

lemma demo_headers_travel:
  fixes rm :: "nat raw_message"
  assumes "rm_header rm \<in> {demo_request_header, demo_response_header}" and "length (rm_payload_data rm) \<le> 100"
  shows "encodable demo_deps rm" and "decodes_back demo_deps (rm_header rm)"
proof -
  obtain hb where hb: "header_bytes_of demo_deps (rm_header rm) = Ok hb" "length hb \<le> 2"
    and "decodes_back demo_deps (rm_header rm)"
    by (rule demo_header_bytes [OF assms(1)])
  then show "decodes_back demo_deps (rm_header rm)"
    by simp
  show "encodable demo_deps rm"
    using hb assms(2) by (simp add: encodable_def rust_sized_def)
qed

lemma demo_headers_small:
  fixes rm :: "nat raw_message"
  assumes "rm_header rm \<in> {demo_request_header, demo_response_header}" and "length (rm_payload_data rm) \<le> 100"
  shows "\<exists>bs. to_bytes demo_deps rm = Ok bs \<and> length bs \<le> 200"
proof -
  obtain hb where hb: "header_bytes_of demo_deps (rm_header rm) = Ok hb" "length hb \<le> 2"
    by (rule demo_header_bytes [OF assms(1)])
  have payload: "rust_sized (rm_payload_data rm)"
    using assms(2) by (simp add: rust_sized_def)
  have len: "wire_size rm hb \<le> 200"
    using hb(2) assms(2) by (simp add: wire_size_def)
  have "length hb < 2 ^ 32" and "length hb \<le> 65536" and "wire_size rm hb \<le> 2 ^ 30"
    using hb(2) len by simp_all
  with len wire_message(1) [OF this(2,3)] show ?thesis
    by (simp add: to_bytes_eq [OF hb(1) _ payload])
qed

end
