(* ===== verification/Conversation.thy ===== *)
theory Conversation
  imports Stream_Session Request_Response
begin

text \<open>
  Requests and answers over two links: the requester sends what its builders built, the
  service answers what its codec has decoded, in order, and everything in between (partial
  writes, reads of any size, either link being ahead) interleaves freely.
\<close>

section \<open>Sessions\<close>

text \<open>A link between two byte streams that was fresh once, and what was sent on it since.\<close>

definition in_session :: "'v deps \<Rightarrow> ('a, 'b) ends \<Rightarrow> ('a, 'b, 'v, 'd) link \<Rightarrow> bool" where
  "in_session d e l \<longleftrightarrow>
     (\<exists>oka inna outb a b. ends_laws e oka inna outb \<and> oka a \<and> en_ok e b \<and> en_inn e b = [] \<and>
        link_run d e (link_new (en_out e) a b) l) \<and>
     en_room e + 34 \<le> 2 ^ 30 \<and> (\<forall>rm \<in> set (ln_sent l). fits d (en_room e) rm)"

lemma in_sessionI:
  assumes "ends_laws e oka inna outb" and "oka a" and "en_ok e b" and "en_inn e b = []"
    and "link_run d e (link_new (en_out e) a b) l"
    and "en_room e + 34 \<le> 2 ^ 30" and "\<forall>rm \<in> set (ln_sent l). fits d (en_room e) rm"
  shows "in_session d e l"
  using assms unfolding in_session_def by blast

lemma session_received:
  fixes d :: "'v deps" and l :: "('a, 'b, 'v, 'd) link"
  assumes "nom_laws d" and "in_session d e l"
  shows "\<exists>n \<le> length (ln_sent l). list_all2 (received_as d) (take n (ln_sent l)) (ln_received l)"
proof -
  have room: "en_room e + 34 \<le> 2 ^ 30" and fits: "\<forall>rm \<in> set (ln_sent l). fits d (en_room e) rm"
    using assms(2) by (simp_all add: in_session_def)
  obtain oka inna outb a b where ends: "ends_laws e oka inna outb" and start: "oka a" "en_ok e b" "en_inn e b = []"
    and run: "link_run d e (link_new (en_out e) a b) l"
    using assms(2) unfolding in_session_def by blast
  have ok: "link_ok d e oka l"
    using link_run_ok [OF ends assms(1) room run link_new_ok fits] start by blast
  obtain n where "n \<le> length (ln_sent l)"
    and "ln_received l = map (\<lambda>rm. frame_message (sent_frame d rm)) (take n (ln_sent l))"
    by (rule link_ok_received [OF assms(1) room ok fits]) blast
  with sent_received_as [OF assms(1) ok fits, of n] show ?thesis
    by auto
qed

section \<open>Requests and answers\<close>

definition requests :: "'v message_builder list \<Rightarrow> 'v raw_message list \<Rightarrow> bool" where
  "requests bs rms \<longleftrightarrow>
     list_all2 (\<lambda>b rm. mb_message_type b = Request \<and> (\<exists>p. build_with_payload b (Inr p) = Ok rm)) bs rms"

text \<open>
  A service that has answered some of what it has received, in the order in which it came:
  \<open>outcomes\<close> are the status and the payload of each answer.
\<close>

definition service_answers ::
  "'v deps \<Rightarrow> u32 \<Rightarrow> ('v, 'd) message list \<Rightarrow> (status_code option \<times> bytes) list \<Rightarrow> 'v raw_message list \<Rightarrow> bool" where
  "service_answers d sender ms outcomes rms \<longleftrightarrow>
     length outcomes = length rms \<and> length rms \<le> length ms \<and>
     (\<forall>j < length rms. snd (create_response d (ms ! j) sender (fst (outcomes ! j)) (Inr (snd (outcomes ! j)))) =
        Ok (rms ! j))"

text \<open>What the requester reads in an answer to a request it built.\<close>

definition answered :: "'v deps \<Rightarrow> u32 \<Rightarrow> 'v message_builder \<Rightarrow> status_code option \<times> bytes \<Rightarrow> ('v, 'd) message \<Rightarrow> bool" where
  "answered d sender b out a \<longleftrightarrow>
     m_message_type a = Response \<and> m_client_id a = sender \<and> raw_payload_bytes a = Ok (snd out) \<and>
     (\<exists>q r. h_reqrep (mb_header b) = Some q \<and> h_routing (mb_header b) = Some [r] \<and>
        snd (m_header d a) = Ok (header_new
          \<lparr>h_reqrep := Some (reqrep_res (rr_id q)),
           h_routing := Some [r\<lparr>r_client_id := Some (mb_client_id b)\<rparr>], h_status := fst out\<rparr>))"

lemma received_answer:
  fixes d :: "'v deps" and m a :: "('v, 'd) message"
  assumes "nom_laws d" and "mb_message_type b = Request" and "build_with_payload b (Inr p) = Ok request"
    and "fits d room request" and "received_as d request m"
    and "snd (create_response d m sender (fst out) (Inr (snd out))) = Ok response"
    and "fits d room' response" and "received_as d response a"
  shows "answered d sender b out a"
proof -
  have "into_message d request = Ok m" and "into_message d response = Ok a"
    using assms(5,8) by (simp_all add: received_as_def)
  moreover have "encodable d request" "decodes_back d (rm_header request)"
      "encodable d response" "decodes_back d (rm_header response)"
    using assms(4,7) by (simp_all add: fits_def)
  ultimately show ?thesis
    using request_answered [OF assms(1-3), of m sender "fst out" "snd out"] assms(6)
    unfolding answered_def by fastforce
qed

section \<open>Property\<close>

text \<open>
  C6. Answers find their requests: while a requester sends requests over one byte stream and
  a service answers, in order, what it has received of them over another, with writes, reads
  and the two connections interleaved in any way, the \<open>j\<close>-th message the requester has
  received is the service's answer to the \<open>j\<close>-th request it sent: it carries that request's
  id, the requester's client id and route, and the status and payload the service gave.
\<close>

theorem answers_find_requests:
  fixes d :: "'v deps" and up :: "('a, 'b, 'v, 'd) link" and down :: "('x, 'y, 'v, 'd) link"
  assumes "nom_laws d" and "in_session d e up" and "in_session d e' down"
    and "requests bs (ln_sent up)" and "service_answers d sender (ln_received up) outcomes (ln_sent down)"
  shows "length (ln_received down) \<le> length bs \<and>
    (\<forall>j < length (ln_received down). answered d sender (bs ! j) (outcomes ! j) (ln_received down ! j))"
proof -
  obtain n where n: "n \<le> length (ln_sent up)" "list_all2 (received_as d) (take n (ln_sent up)) (ln_received up)"
    using session_received [OF assms(1,2)] by blast
  obtain k where k: "k \<le> length (ln_sent down)" "list_all2 (received_as d) (take k (ln_sent down)) (ln_received down)"
    using session_received [OF assms(1,3)] by blast
  have lens: "length bs = length (ln_sent up)" "length (ln_received up) = n" "length (ln_received down) = k"
      "length (ln_sent down) \<le> length (ln_received up)"
    using list_all2_lengthD [OF assms(4) [unfolded requests_def]] list_all2_lengthD [OF n(2)]
      list_all2_lengthD [OF k(2)] n(1) k(1) assms(5)
    by (simp_all add: service_answers_def)
  have "answered d sender (bs ! j) (outcomes ! j) (ln_received down ! j)" if j: "j < k" for j
  proof -
    have up: "j < length (ln_sent up)" and down: "j < length (ln_sent down)" and jn: "j < n"
      using j lens n(1) k(1) by simp_all
    obtain p where t: "mb_message_type (bs ! j) = Request"
      and b: "build_with_payload (bs ! j) (Inr p) = Ok (ln_sent up ! j)"
      using list_all2_nthD [OF assms(4) [unfolded requests_def], of j] up lens(1) by auto
    have f1: "fits d (en_room e) (ln_sent up ! j)" and f2: "fits d (en_room e') (ln_sent down ! j)"
      using assms(2,3) up down by (simp_all add: in_session_def)
    have r1: "received_as d (ln_sent up ! j) (ln_received up ! j)"
      using list_all2_nthD [OF n(2), of j] jn n(1) by simp
    have r2: "received_as d (ln_sent down ! j) (ln_received down ! j)"
      using list_all2_nthD [OF k(2), of j] j k(1) by simp
    have c: "snd (create_response d (ln_received up ! j) sender (fst (outcomes ! j)) (Inr (snd (outcomes ! j)))) =
        Ok (ln_sent down ! j)"
      using assms(5) down by (simp add: service_answers_def)
    show ?thesis
      by (rule received_answer [OF assms(1) t b f1 r1 c f2 r2])
  qed
  with lens n(1) k(1) show ?thesis
    by simp
qed

text \<open>One request and its answer over two pairs of sockets.\<close>

lemma demo_one_message:
  fixes rm :: "nat raw_message"
  assumes "rm_header rm \<in> {demo_request_header, demo_response_header}" and "length (rm_payload_data rm) \<le> 100"
  shows "\<exists>l :: ((bytes \<times> bytes) tcp_stream, (bytes \<times> bytes) tcp_stream, nat, nat) link.
    in_session demo_deps demo_ends l \<and> ln_sent l = [rm] \<and> list_all2 (received_as demo_deps) [rm] (ln_received l)"
proof -
  let ?new = "link_new (en_out demo_ends) (demo_tcp_stream []) (demo_tcp_stream []) ::
    ((bytes \<times> bytes) tcp_stream, (bytes \<times> bytes) tcp_stream, nat, nat) link"
  note travels = demo_headers_travel [OF assms]
  obtain bs where bs: "to_bytes demo_deps rm = Ok bs" "length bs \<le> 200"
    using demo_headers_small [OF assms] by blast
  have fits: "fits demo_deps 40 rm"
    using travels(1,2) bs by (simp add: fits_def)
  have "usize_len bs \<le> c_max_frame_size codec"
    using bs(2) by (simp add: usize_len_def codec_def codec_new_def DEFAULT_MAX_MESSAGE_SIZE_def word_le_nat_alt
        unat_of_nat)
  with bs(1) have sent: "ln_sent (link_send demo_deps rm ?new) = [rm]"
    by (simp add: link_send_def codec_raw.accepts link_new_def)
  have "link_run demo_deps demo_ends ?new (link_send demo_deps rm ?new)"
    by (rule link_run.there [OF link_run.here link_step.send])
  note start = this
  from link_completes [OF nom_laws_demo demo_ends_laws _ demo_responsive _ _ _ start] fits sent
  obtain l where l: "link_run demo_deps demo_ends (link_send demo_deps rm ?new) l" "ln_sent l = [rm]"
    "list_all2 (received_as demo_deps) [rm] (ln_received l)"
    by (auto simp: demo_tcp_stream_def tcp_stream_new_def)
  have "link_run demo_deps demo_ends ?new l"
    by (rule link_run_trans [OF l(1) start])
  from in_sessionI [OF demo_ends_laws _ _ _ this] fits l(2) have "in_session demo_deps demo_ends l"
    by (simp add: demo_tcp_stream_def tcp_stream_new_def)
  with l show ?thesis
    by blast
qed

theorem answers_find_requests_witness:
  "\<exists>up :: ((bytes \<times> bytes) tcp_stream, (bytes \<times> bytes) tcp_stream, nat, nat) link.
   \<exists>down :: ((bytes \<times> bytes) tcp_stream, (bytes \<times> bytes) tcp_stream, nat, nat) link.
     \<exists>m a. in_session demo_deps demo_ends up \<and> in_session demo_deps demo_ends down \<and>
       ln_received up = [m] \<and> ln_received down = [a] \<and>
       answered demo_deps 7 (mb_as_request (mb_request 1000 ''svc'' ''/p'' (Some 7)) ''id1'') (Some STATUS_OK, [9]) a"
proof -
  let ?b = "mb_as_request (mb_request 1000 ''svc'' ''/p'' (Some 7)) ''id1'' :: nat message_builder"
  have b: "mb_message_type ?b = Request" "mb_client_id ?b = 1000" "mb_header ?b = demo_request_header"
    by (simp_all add: builder_shapes builder_steps demo_request_header_def demo_route_def reqrep_req_def header_new_def)
  have built: "build_with_payload ?b (Inr [8]) = Ok (built ?b [8])"
    by (simp add: build_with_payload_Ok_iff buildable_def b) (simp add: demo_request_header_def header_new_def)
  have "rm_header (built ?b [8]) \<in> {demo_request_header, demo_response_header}"
    "length (rm_payload_data (built ?b [8])) \<le> 100"
    by (simp_all add: built_def b)
  from demo_one_message [OF this] obtain up :: "((bytes \<times> bytes) tcp_stream, (bytes \<times> bytes) tcp_stream, nat, nat) link"
    where up: "in_session demo_deps demo_ends up" "ln_sent up = [built ?b [8]]"
    "list_all2 (received_as demo_deps) [built ?b [8]] (ln_received up)"
    by blast
  obtain m where m: "ln_received up = [m]" "received_as demo_deps (built ?b [8]) m"
    using up(3) by (auto simp: list_all2_Cons1)
  let ?r = "answer demo_request_header (m_client_id m) 7 (Some STATUS_OK) [9]"
  have m_data: "m_message_type m = Request" "m_client_id m = 1000" "snd (m_header demo_deps m) = Ok demo_request_header"
    using m(2) by (simp_all add: received_as_def built_def b)
  then have "answerable demo_deps m demo_request_header"
    by (simp add: answerable_def demo_request_header_def header_new_def)
  note made = create_response_answers [OF this, of 7 "Some STATUS_OK" "[9]"]
  have "rm_header ?r \<in> {demo_request_header, demo_response_header}" "length (rm_payload_data ?r) \<le> 100"
    by (simp_all add: answer_def m_data demo_request_header_def demo_response_header_def reqrep_req_def header_new_def)
  from demo_one_message [OF this] obtain down :: "((bytes \<times> bytes) tcp_stream, (bytes \<times> bytes) tcp_stream, nat, nat) link"
    where down: "in_session demo_deps demo_ends down" "ln_sent down = [?r]"
    "list_all2 (received_as demo_deps) [?r] (ln_received down)"
    by blast
  obtain a where a: "ln_received down = [a]"
    using down(3) by (auto simp: list_all2_Cons1)
  have "requests [?b] (ln_sent up)"
    using built b(1) by (auto simp: requests_def up)
  moreover have "service_answers demo_deps 7 (ln_received up) [(Some STATUS_OK, [9])] (ln_sent down)"
    by (simp add: service_answers_def up m down made)
  ultimately have "answered demo_deps 7 ?b (Some STATUS_OK, [9]) a"
    using answers_find_requests [OF nom_laws_demo up(1) down(1), of "[?b]" 7 "[(Some STATUS_OK, [9])]"] a by simp
  with up(1) down(1) m(1) a show ?thesis
    by blast
qed

end
