(* ===== verification/Connections.thy ===== *)
theory Connections
  imports Transport_Manager
begin

text \<open>
  The manager over the models of the five transports: what \<open>connect\<close> of a manager with the
  default transports gives for a URL, and what can be observed of the stream it returns. The
  libraries under the transports and the runtime are gathered in one record.
\<close>

section \<open>The platform\<close>

record ('w, 's, 'l, 'c, 't) platform =
  pf_tcp :: "('s, 'l) tcp_lib"
  pf_ipc :: "('w, 's, 'l) ipc_lib"
  pf_stdio :: "('c, 's, 's) stdio_lib"
  pf_ws :: "('s, 'l, 't) ws_lib"
  pf_url_parse :: url_parser
  pf_duplex :: "'s duplex_fun"
  pf_now :: instant
  pf_io :: "'s async_io"

text \<open>A boxed stream, by the type of the stream in the box.\<close>

datatype ('s, 'c) any_stream =
    TcpStream "'s tcp_stream"
  | IpcStream "'s ipc_stream"
  | StdioStream "('c, 's, 's) stdio_stream"
  | WsStream "'s ws_stream"
  | ChannelStream "'s channel_stream"

text \<open>
  \<open>connect\<close> of the default transports, made with \<open>new()\<close>. A TCP connect has a deadline in
  the default configuration, so it is never pending.
\<close>

definition boxed_result :: "('a \<Rightarrow> 'b) \<Rightarrow> 'a transport_result \<Rightarrow> 'b transport_result" where
  "boxed_result box r = res_bind r (\<lambda>s. Ok (box s))"

definition default_connect ::
  "('w, 's, 'l, 'c, 't) platform \<Rightarrow> string \<Rightarrow> string \<Rightarrow> 'w \<times> 's channel_state \<Rightarrow>
   ('w \<times> 's channel_state) \<times> ('s, 'c) any_stream transport_result" where
  "default_connect pf ty u w =
     (if ty = tcp_transport_type then
        (w, case tcp_connect (pf_tcp pf) tcp_new u of
              Ready r \<Rightarrow> boxed_result TcpStream r
            | Pending \<Rightarrow> Panic)
      else if ty = ipc_transport_type then
        (case ipc_connect (pf_ipc pf) ipc_new u (fst w) of
           (w', r) \<Rightarrow> ((w', snd w), boxed_result IpcStream r))
      else if ty = stdio_transport_type then
        (w, boxed_result StdioStream (stdio_connect (pf_stdio pf) stdio_new u))
      else if ty = ws_transport_type then
        (w, boxed_result WsStream (ws_connect (pf_ws pf) ws_new u))
      else
        (case channel_connect (pf_url_parse pf) (pf_duplex pf) (pf_now pf) (snd w) u of
           (reg, r) \<Rightarrow> ((fst w, reg), boxed_result ChannelStream r)))"

definition default_ops ::
  "('w, 's, 'l, 'c, 't) platform \<Rightarrow>
   ('w \<times> 's channel_state, ('s, 'c) any_stream, unit) builtin_ops" where
  "default_ops pf =
     \<lparr>bo_connect = default_connect pf,
      bo_listen = (\<lambda>ty u w. (w, Err (T_UnsupportedTransport
        ''Type-erased transport listeners are not supported via TransportManager.'')))\<rparr>"

lemma default_ops_connect [simp]: "bo_connect (default_ops pf) = default_connect pf"
  by (simp add: default_ops_def)

lemma tcp_connect_returns: "tcp_connect lib tcp_new u \<noteq> Pending"
  by (auto simp: tcp_connect_def tcp_new_def tcp_config_default_def split: res.splits wait.splits sum.splits)

section \<open>Calls on a boxed stream\<close>

definition in_box :: "('x \<Rightarrow> 'b) \<Rightarrow> 'x stream_ops \<Rightarrow> stream_call \<Rightarrow> 'x \<Rightarrow> 'b \<times> stream_answer" where
  "in_box box ops c s = map_prod (\<lambda>b. box (bx_self b)) id (perform boxed_ops c \<lparr>bx_ops = ops, bx_self = s\<rparr>)"

fun any_perform ::
  "('w, 's, 'l, 'c, 't) platform \<Rightarrow> stream_call \<Rightarrow> ('s, 'c) any_stream \<Rightarrow> ('s, 'c) any_stream \<times> stream_answer"
where
  "any_perform pf c (TcpStream s) = in_box TcpStream (tcp_ops (pf_tcp pf) (pf_io pf)) c s"
| "any_perform pf c (IpcStream s) = in_box IpcStream (ipc_ops (pf_ipc pf) (pf_io pf)) c s"
| "any_perform pf c (StdioStream s) = in_box StdioStream (stdio_ops (pf_stdio pf) (pf_io pf) (pf_io pf)) c s"
| "any_perform pf c (WsStream s) = in_box WsStream (ws_ops (pf_ws pf)) c s"
| "any_perform pf c (ChannelStream s) = in_box ChannelStream (channel_ops (pf_io pf)) c s"

fun any_perform_all ::
  "('w, 's, 'l, 'c, 't) platform \<Rightarrow> stream_call list \<Rightarrow> ('s, 'c) any_stream \<Rightarrow>
   ('s, 'c) any_stream \<times> stream_answer list" where
  "any_perform_all pf [] s = (s, [])"
| "any_perform_all pf (c # cs) s =
     (case any_perform pf c s of (s', a) \<Rightarrow>
        (case any_perform_all pf cs s' of (s'', as) \<Rightarrow> (s'', a # as)))"

lemma in_box_perform: "in_box box ops c s = map_prod box id (perform ops c s)"
  by (simp add: in_box_def boxed_step prod.map_comp o_def) (simp add: id_def)

lemma any_run:
  "any_perform_all pf cs (TcpStream s1) = map_prod TcpStream id (perform_all (tcp_ops (pf_tcp pf) (pf_io pf)) cs s1)"
  "any_perform_all pf cs (IpcStream s2) = map_prod IpcStream id (perform_all (ipc_ops (pf_ipc pf) (pf_io pf)) cs s2)"
  "any_perform_all pf cs (StdioStream s3) =
     map_prod StdioStream id (perform_all (stdio_ops (pf_stdio pf) (pf_io pf) (pf_io pf)) cs s3)"
  "any_perform_all pf cs (WsStream s4) = map_prod WsStream id (perform_all (ws_ops (pf_ws pf)) cs s4)"
  "any_perform_all pf cs (ChannelStream s5) = map_prod ChannelStream id (perform_all (channel_ops (pf_io pf)) cs s5)"
  by (induction cs arbitrary: s1 s2 s3 s4 s5) (simp_all add: in_box_perform split_beta)

section \<open>What a new stream is\<close>

text \<open>The identity of a stream: what \<open>connection_info\<close> and \<open>timeouts\<close> of it report.\<close>

fun any_identity :: "('s, 'c) any_stream \<Rightarrow> connection_info \<times> connection_timeouts" where
  "any_identity (TcpStream s) = (ts_info s, ts_timeouts s)"
| "any_identity (IpcStream s) = (is_info s, is_timeouts s)"
| "any_identity (StdioStream s) = (ss_info s, ss_timeouts s)"
| "any_identity (WsStream s) = (wst_info s, wst_timeouts s)"
| "any_identity (ChannelStream s) = (cs_info s, timeouts_default)"

lemma any_identity_constant:
  "filter about_identity (snd (any_perform_all pf cs s)) =
     identity_replies (fst (any_identity s)) (snd (any_identity s)) cs"
  by (cases s)
    (simp_all add: any_run tcp_object.identity_constant ipc_object.identity_constant
      stdio_object.identity_constant ws_object.identity_constant channel_object.identity_constant
      tcp_identity ipc_identity stdio_identity ws_identity channel_identity)

text \<open>The timeouts a default transport gives its streams.\<close>

definition default_timeouts :: "string \<Rightarrow> connection_timeouts" where
  "default_timeouts ty =
     (if ty = ''tcp'' \<or> ty = ''stdio'' then
        \<lparr>ct_read_timeout = Some (from_secs 30), ct_write_timeout = Some (from_secs 30),
         ct_connect_timeout = Some (from_secs 30)\<rparr>
      else timeouts_default)"

lemma boxed_result_Ok: "boxed_result box r = Ok b \<longleftrightarrow> (\<exists>s. r = Ok s \<and> b = box s)"
  by (auto simp: boxed_result_def outcome)

lemma tcp_connect_identity:
  "tcp_connect lib tcp_new u = Ready (Ok s) \<Longrightarrow>
     ci_transport_type (ts_info s) = ''tcp'' \<and> ts_timeouts s = default_timeouts ''tcp''"
  by (auto simp: tcp_connect_def outcome tcp_stream_new_def tcp_new_def tcp_config_default_def
      default_timeouts_def TCP_CONNECTION_TIMEOUT_SECS_def split: res.splits wait.splits sum.splits)

lemma ipc_connect_identity:
  "ipc_connect lib tr u w = (w', Ok s) \<Longrightarrow>
     ci_transport_type (is_info s) = ''ipc'' \<and> is_timeouts s = default_timeouts ''ipc''"
  by (auto simp: ipc_connect_def outcome ipc_stream_new_def default_timeouts_def split: res.splits prod.splits)

lemma stdio_child_identity:
  "stdio_new_from_child lib child cmd = Ok s \<Longrightarrow>
     ci_transport_type (ss_info s) = ''stdio'' \<and> ss_timeouts s = stdio_timeouts_30"
  by (auto simp: stdio_new_from_child_def outcome split_beta Let_def)

lemma stdio_connect_identity:
  assumes "stdio_connect lib tr u = Ok s"
  shows "ci_transport_type (ss_info s) = ''stdio'' \<and> ss_timeouts s = default_timeouts ''stdio''"
proof -
  obtain target where connect: "(case target of None \<Rightarrow> Ok (stdio_new_from_self lib)
      | Some (command_to_run, args_to_use) \<Rightarrow>
          (case sl_spawn lib \<lparr>cmd_program = command_to_run, cmd_args = args_to_use,
               cmd_dir = sc_working_dir (st_config tr), cmd_env = sc_env (st_config tr)\<rparr> of
             Inl e \<Rightarrow> Err (T_ConnectionFailure
               (''Failed to spawn subprocess '' @ [char_of (39 :: nat)] @ command_to_run @
                [char_of (39 :: nat)] @ '': '' @ e))
           | Inr child \<Rightarrow> stdio_new_from_child lib child command_to_run)) = Ok s"
    using assms unfolding stdio_connect_def Let_def by (auto simp: outcome)
  have "default_timeouts ''stdio'' = stdio_timeouts_30"
    by (simp add: default_timeouts_def stdio_timeouts_30_def)
  with connect show ?thesis
    by (auto simp: stdio_new_from_self_def dest: stdio_child_identity split: option.splits sum.splits)
qed

lemma ws_connect_identity:
  assumes "ws_connect lib tr u = Ok s"
  shows "ci_transport_type (wst_info s) = ''websocket'' \<and> wst_timeouts s = default_timeouts ''websocket''"
proof -
  obtain parsed where "(case wl_connect lib (url_text parsed) of
      Inl e \<Rightarrow> Err (T_ConnectionFailure (''WebSocket connection to '' @ [char_of (39 :: nat)] @
        url_text parsed @ [char_of (39 :: nat)] @ '' failed: '' @ e))
    | Inr ws_stream \<Rightarrow> Ok (ws_stream_new (wl_now lib) ws_stream parsed)) = Ok s"
    using assms by (auto simp: ws_connect_def outcome)
  then show ?thesis
    by (auto simp: ws_stream_new_def default_timeouts_def split: sum.splits)
qed

lemma channel_connect_identity:
  "channel_connect parse dup now st u = (st', Ok s) \<Longrightarrow>
     ci_transport_type (cs_info s) = ''chan'' \<and> timeouts_default = default_timeouts ''chan''"
  by (auto simp: channel_connect_def channel_stream_new_def default_timeouts_def
      split: res.splits prod.splits option.splits)

lemma default_connect_identity:
  assumes "default_connect pf ty u w = (w', Ok s)"
    and "ty \<in> {''tcp'', ''ipc'', ''stdio'', ''websocket'', ''chan''}"
  shows "ci_transport_type (fst (any_identity s)) = ty \<and> snd (any_identity s) = default_timeouts ty"
  using assms
  by (auto simp: default_connect_def type_defs boxed_result_Ok
      dest: tcp_connect_identity ipc_connect_identity stdio_connect_identity ws_connect_identity
        channel_connect_identity
      split: if_splits prod.splits wait.splits)

section \<open>Properties\<close>

text \<open>The statistics never touch the registry.\<close>

lemma stats_run_transports: "stats_run lib m0 hist m \<Longrightarrow> tm_transports m = tm_transports m0"
  by (induction rule: stats_run.induct)
    (simp_all add: track_connection_attempt_def track_successful_connection_def cleanup_expired_entries_def
      manager_clear_cache_def Let_def)

lemma find_transport_cong:
  "tm_transports m = tm_transports m' \<Longrightarrow> find_transport_for_url lib m u = find_transport_for_url lib m' u"
  by (simp add: find_transport_for_url_def)

lemma default_selected:
  assumes "manager_laws lib"
    and "find_transport_for_url lib (manager_with_cache_config lib ops n ttl) u = Some t"
  shows "transport_for (scheme_prefix u) = Some (to_type t) \<and> to_connect t = bo_connect ops (to_type t)"
proof
  show "transport_for (scheme_prefix u) = Some (to_type t)"
    using selection_by_scheme [OF assms(1), of ops n ttl u] assms(2) by simp
  have "t \<in> set (map snd (ml_map_iter lib (tm_transports (manager_with_cache_config lib ops n ttl))))"
    using assms(2) unfolding find_transport_for_url_def by (metis find_Some_iff nth_mem)
  then show "to_connect t = bo_connect ops (to_type t)"
    unfolding registered_defaults [OF assms(1)] by (auto simp: builtin_def new_transport_def type_erased_def)
qed

text \<open>
  C7. What connecting through the manager gives: however a manager with the default transports
  has been used before and in whatever order its registry iterates, \<open>connect\<close> does exactly
  what the transport named by the scheme of the URL does, and fails without touching anything
  for any other scheme; the boxed stream it returns says, whatever else is called on it
  and in whatever order, that it is of that transport, with the timeouts that transport
  gives by default.
\<close>

theorem manager_connects:
  assumes "manager_laws lib"
    and "stats_run lib (manager_with_cache_config lib (default_ops pf) n ttl) hist m"
    and "manager_connect lib now1 now2 u m w = (m', w', r)"
  shows "case transport_for (scheme_prefix u) of
      None \<Rightarrow> w' = w \<and> r = Err (T_UnsupportedTransport (''No transport for URL: '' @ u))
    | Some ty \<Rightarrow> default_connect pf ty u w = (w', r) \<and>
        (\<forall>s. r = Ok s \<longrightarrow> (\<exists>i. ci_transport_type i = ty \<and>
           (\<forall>cs. filter about_identity (snd (any_perform_all pf cs s)) = identity_replies i (default_timeouts ty) cs)))"
proof -
  let ?fresh = "manager_with_cache_config lib (default_ops pf) n ttl"
  let ?m = "track_connection_attempt lib now1 u m"
  have "tm_transports ?m = tm_transports ?fresh"
    using stats_run_transports [OF stats_run.attempt [OF assms(2)]] .
  then have selected: "find_transport_for_url lib ?m u = find_transport_for_url lib ?fresh u"
    by (rule find_transport_cong)
  show ?thesis
  proof (cases "find_transport_for_url lib ?fresh u")
    case None
    then have "transport_for (scheme_prefix u) = None"
      using selection_by_scheme [OF assms(1), of "default_ops pf" n ttl u] by simp
    with None selected assms(3) show ?thesis
      by (simp add: manager_connect_def)
  next
    case (Some t)
    note t = default_selected [OF assms(1) Some]
    then have connect: "default_connect pf (to_type t) u w = (w', r)"
      using assms(3) Some selected
      by (auto simp: manager_connect_def Let_def split: prod.splits res.splits)
    have "to_type t \<in> {''tcp'', ''ipc'', ''stdio'', ''websocket'', ''chan''}"
      using t by (auto simp: transport_for_def split: option.splits if_splits)
    then have "\<exists>i. ci_transport_type i = to_type t \<and> (\<forall>cs. filter about_identity (snd (any_perform_all pf cs s)) =
        identity_replies i (default_timeouts (to_type t)) cs)" if "r = Ok s" for s
      using default_connect_identity connect that any_identity_constant by metis
    with t connect show ?thesis
      by simp
  qed
qed

theorem manager_connects_witness:
  "\<forall>pf :: (unit, nat \<times> bool, unit, unit, unit) platform.
     let pf = pf\<lparr>pf_url_parse := demo_chan_parse, pf_duplex := demo_duplex\<rparr>;
         m = manager_with_cache_config list_manager_lib (default_ops pf) 100 10
     in \<exists>s i. snd (snd (manager_connect list_manager_lib 5 6 ''chan://x'' m
           ((), \<lparr>chan_registry = Map.empty, chan_duplexes = 5\<rparr>))) = Ok s \<and>
         ci_transport_type i = ''chan'' \<and>
         filter about_identity (snd (any_perform_all pf [GetTimeouts, PollFlush, GetConnectionInfo] s)) =
           [TimeoutsAnswer timeouts_default, InfoAnswer i]"
proof
  fix pf' :: "(unit, nat \<times> bool, unit, unit, unit) platform"
  let ?pf = "pf'\<lparr>pf_url_parse := demo_chan_parse, pf_duplex := demo_duplex\<rparr>"
  let ?m = "manager_with_cache_config list_manager_lib (default_ops ?pf) 100 10"
  let ?w = "((), \<lparr>chan_registry = Map.empty, chan_duplexes = 5\<rparr> :: (nat \<times> bool) channel_state)"
  obtain m w r where run: "manager_connect list_manager_lib 5 6 ''chan://x'' ?m ?w = (m, w, r)"
    by (cases "manager_connect list_manager_lib 5 6 ''chan://x'' ?m ?w")
  have scheme: "transport_for (scheme_prefix ''chan://x'') = Some ''chan''"
    by (simp add: scheme_prefix_def starts_with_def transport_for_def)
  have "\<exists>s. snd (default_connect ?pf ''chan'' ''chan://x'' ?w) = Ok s"
    by (simp add: default_connect_def type_defs channel_connect_def channel_name_def demo_chan_parse_def
        parse_url_with_def chan_take_def chan_offer_def demo_duplex_def boxed_result_def)
  moreover note connected = manager_connects [OF list_manager_laws stats_run.fresh run, unfolded scheme option.case]
  ultimately obtain s where "r = Ok s"
    by auto
  with run connected show "let pf = ?pf; m = manager_with_cache_config list_manager_lib (default_ops pf) 100 10
     in \<exists>s i. snd (snd (manager_connect list_manager_lib 5 6 ''chan://x'' m
           ((), \<lparr>chan_registry = Map.empty, chan_duplexes = 5\<rparr>))) = Ok s \<and>
         ci_transport_type i = ''chan'' \<and>
         filter about_identity (snd (any_perform_all pf [GetTimeouts, PollFlush, GetConnectionInfo] s)) =
           [TimeoutsAnswer timeouts_default, InfoAnswer i]"
    by (auto simp: Let_def identity_replies_def default_timeouts_def simp del: any_perform_all.simps)
qed

end
