(* ===== verification/Ipc_Windows.thy ===== *)
theory Ipc_Windows
  imports Ipc_Transport
begin

text \<open>
  The IPC transport on a Windows target: \<open>ipc/windows.rs\<close> and the Windows branches of
  \<open>ipc.rs\<close>. The named pipes of the system are a parameter; the file names the standard
  library finds in a path are modelled, except for paths that start with two separators
  (network and verbatim prefixes), whose file name is a parameter.
\<close>

section \<open>Parameters\<close>

record pipe_options =
  po_first_pipe_instance :: bool
  po_in_buffer_size :: u32
  po_out_buffer_size :: u32
  po_max_instances :: nat

record ('w, 'c, 'p) pipe_lib =
  pw_url_parse :: url_parser
  pw_now :: instant
  pw_unc_file_name :: "string \<Rightarrow> string option"
  pw_open :: "string \<Rightarrow> 'w \<Rightarrow> 'w \<times> (io_error + 'c)"
  pw_create :: "pipe_options \<Rightarrow> string \<Rightarrow> 'w \<Rightarrow> 'w \<times> (io_error + 'p)"
  pw_connect :: "'p \<Rightarrow> 'w \<Rightarrow> 'w \<times> (io_error + unit)"

section \<open>Paths\<close>

definition is_separator :: "char \<Rightarrow> bool" where
  "is_separator c \<longleftrightarrow> c = CHR ''/'' \<or> c = CHR 0x5C"

fun split_path :: "string \<Rightarrow> string list" where
  "split_path [] = [[]]"
| "split_path (c # cs) =
     (if is_separator c then [] # split_path cs
      else (case split_path cs of
              [] \<Rightarrow> [[c]]
            | x # xs \<Rightarrow> (c # x) # xs))"

text \<open>\<open>Path::file_name\<close>: a drive prefix, empty components and \<open>.\<close> do not count.\<close>

definition is_drive_letter :: "char \<Rightarrow> bool" where
  "is_drive_letter c \<longleftrightarrow> c \<in> set ''ABCDEFGHIJKLMNOPQRSTUVWXYZabcdefghijklmnopqrstuvwxyz''"

definition skip_drive :: "string \<Rightarrow> string" where
  "skip_drive p =
     (case p of
        c # d # rest \<Rightarrow> if is_drive_letter c \<and> d = CHR '':'' then rest else p
      | _ \<Rightarrow> p)"

definition path_file_name :: "(string \<Rightarrow> string option) \<Rightarrow> string \<Rightarrow> string option" where
  "path_file_name unc p =
     (if list_all is_separator (take 2 p) \<and> length p \<ge> 2 then unc p
      else
        (case rev (filter (\<lambda>s. s \<noteq> [] \<and> s \<noteq> ''.'') (split_path (skip_drive p))) of
           [] \<Rightarrow> None
         | name # _ \<Rightarrow> if name = ''..'' then None else Some name))"

text \<open>\<open>Path::file_stem\<close> of a file name: what is before its last dot, if anything is.\<close>

definition file_stem :: "string \<Rightarrow> string" where
  "file_stem name =
     (let before = rev (drop 1 (dropWhile (\<lambda>c. c \<noteq> CHR ''.'') (rev name)))
      in if before = [] then name else before)"

definition windows_normalize_path :: "(string \<Rightarrow> string option) \<Rightarrow> string \<Rightarrow> path" where
  "windows_normalize_path unc p =
     (if CHR '':'' \<in> set p \<or> CHR 0x5C \<in> set p then
        (case path_file_name unc p of None \<Rightarrow> p | Some filename \<Rightarrow> file_stem filename)
      else p)"

definition windows_parse_path :: "('w, 'c, 'p) pipe_lib \<Rightarrow> string \<Rightarrow> path transport_result" where
  "windows_parse_path lib = parse_path_on (windows_normalize_path (pw_unc_file_name lib)) (pw_url_parse lib)"

definition pipe_prefix :: string where
  "pipe_prefix = [CHR 0x5C, CHR 0x5C, CHR ''.'', CHR 0x5C] @ ''pipe'' @ [CHR 0x5C]"

definition format_pipe_name :: "path \<Rightarrow> string" where
  "format_pipe_name p = pipe_prefix @ map (\<lambda>c. if c = CHR ''/'' then CHR 0x5C else c) p"

section \<open>Named pipes\<close>

datatype ('c, 'p) pipe_stream = ClientEnd 'c | ServerEnd 'p

record 'p pipe_listener =
  pl_server :: 'p
  pl_pipe_name :: string
  pl_config :: ipc_config

text \<open>The buffer sizes are cast to 32 bits, which drops the higher ones.\<close>

definition pipe_server_options :: "bool \<Rightarrow> nat \<Rightarrow> ipc_config \<Rightarrow> pipe_options" where
  "pipe_server_options first n config =
     \<lparr>po_first_pipe_instance = first, po_in_buffer_size = ucast (ic_buffer_size config),
      po_out_buffer_size = ucast (ic_buffer_size config), po_max_instances = n\<rparr>"

definition windows_connect ::
  "('w, 'c, 'p) pipe_lib \<Rightarrow> path \<Rightarrow> ipc_config \<Rightarrow> 'w \<Rightarrow> 'w \<times> ('c, 'p) pipe_stream transport_result" where
  "windows_connect lib p config w =
     (let pipe_name = format_pipe_name p in
      case pw_open lib pipe_name w of
        (w', r) \<Rightarrow> (w', res_bind (of_io (\<lambda>e. T_ConnectionFailure
            (''Failed to connect to '' @ pipe_name @ '': '' @ io_text e)) r)
          (\<lambda>client. Ok (ClientEnd client))))"

definition windows_listen ::
  "('w, 'c, 'p) pipe_lib \<Rightarrow> path \<Rightarrow> ipc_config \<Rightarrow> 'w \<Rightarrow> 'w \<times> 'p pipe_listener transport_result" where
  "windows_listen lib p config w =
     (let pipe_name = format_pipe_name p in
      case pw_create lib (pipe_server_options True 254 config) pipe_name w of
        (w', r) \<Rightarrow> (w', res_bind (of_io (\<lambda>e. T_ConnectionFailure
            (''Failed to create named pipe '' @ pipe_name @ '': '' @ io_text e)) r)
          (\<lambda>server. Ok \<lparr>pl_server = server, pl_pipe_name = pipe_name, pl_config = config\<rparr>)))"

text \<open>
  A new instance replaces the one that waits before a client is waited for on the old one.
\<close>

definition windows_accept ::
  "('w, 'c, 'p) pipe_lib \<Rightarrow> 'p pipe_listener \<Rightarrow> 'w \<Rightarrow>
   'p pipe_listener \<times> 'w \<times> ('c, 'p) pipe_stream transport_result" where
  "windows_accept lib l w =
     (case pw_create lib (pipe_server_options False 1 (pl_config l)) (pl_pipe_name l) w of
        (w, Inl e) \<Rightarrow> (l, w, Err (T_ConnectionFailure
          (''Error: '' @ io_text e @ '' (path: '' @ pl_pipe_name l @ '')'')))
      | (w, Inr new_server) \<Rightarrow>
          (let old_server = pl_server l; l = l\<lparr>pl_server := new_server\<rparr> in
           case pw_connect lib old_server w of
             (w, Inl e) \<Rightarrow> (l, w, Err (transport_from_io e))
           | (w, Inr _) \<Rightarrow> (l, w, Ok (ServerEnd old_server))))"

definition windows_close :: "path \<Rightarrow> 'w \<Rightarrow> 'w" where
  "windows_close p w = w"

section \<open>The transport on Windows\<close>

definition windows_adapter_connect ::
  "('w, 'c, 'p) pipe_lib \<Rightarrow> path \<Rightarrow> ipc_config \<Rightarrow> 'w \<Rightarrow> 'w \<times> ('c, 'p) pipe_stream transport_result" where
  "windows_adapter_connect lib p config w = windows_connect lib p config w"

definition windows_adapter_listen ::
  "('w, 'c, 'p) pipe_lib \<Rightarrow> path \<Rightarrow> ipc_config \<Rightarrow> 'w \<Rightarrow> 'w \<times> 'p pipe_listener transport_result" where
  "windows_adapter_listen lib p config w = windows_listen lib p config w"

definition windows_ipc_connect ::
  "('w, 'c, 'p) pipe_lib \<Rightarrow> ipc_transport \<Rightarrow> string \<Rightarrow> 'w \<Rightarrow>
   'w \<times> ('c, 'p) pipe_stream ipc_stream transport_result" where
  "windows_ipc_connect lib tr u w =
     (case windows_parse_path lib u of
        Ok p \<Rightarrow>
          (case windows_adapter_connect lib p (it_config tr) w of
             (w', r) \<Rightarrow> (w', res_bind r (\<lambda>s. Ok (ipc_stream_new (pw_now lib) s p))))
      | Err e \<Rightarrow> (w, Err e)
      | Panic \<Rightarrow> (w, Panic))"

definition windows_ipc_listen ::
  "('w, 'c, 'p) pipe_lib \<Rightarrow> ipc_transport \<Rightarrow> string \<Rightarrow> 'w \<Rightarrow>
   'w \<times> 'p pipe_listener ipc_listener transport_result" where
  "windows_ipc_listen lib tr u w =
     (case windows_parse_path lib u of
        Ok p \<Rightarrow>
          (case windows_adapter_listen lib p (it_config tr) w of
             (w', r) \<Rightarrow> (w', res_bind r (\<lambda>l. Ok \<lparr>il_inner = l, il_path = p\<rparr>)))
      | Err e \<Rightarrow> (w, Err e)
      | Panic \<Rightarrow> (w, Panic))"

definition windows_ipc_accept ::
  "('w, 'c, 'p) pipe_lib \<Rightarrow> 'p pipe_listener ipc_listener \<Rightarrow> 'w \<Rightarrow>
   'p pipe_listener ipc_listener \<times> 'w \<times> ('c, 'p) pipe_stream ipc_stream transport_result" where
  "windows_ipc_accept lib ls w =
     (case windows_accept lib (il_inner ls) w of
        (l, w', r) \<Rightarrow>
          (ls\<lparr>il_inner := l\<rparr>, w', res_bind r (\<lambda>s. Ok (ipc_stream_new (pw_now lib) s (il_path ls)))))"

definition windows_ipc_listener_close ::
  "'p pipe_listener ipc_listener \<Rightarrow> 'w \<Rightarrow> 'w \<times> unit transport_result" where
  "windows_ipc_listener_close ls w = (windows_close (il_path ls) w, Ok ())"

section \<open>Lemmas\<close>

lemma split_path_flat: "\<forall>x \<in> set (split_path p). \<forall>c \<in> set x. \<not> is_separator c"
  by (induction p) (auto split: list.splits)

lemma file_stem_set: "set (file_stem name) \<subseteq> set name"
  by (auto simp: file_stem_def Let_def dest!: in_set_dropD set_dropWhileD)

text \<open>A pipe that is named after a file carries no directory.\<close>

lemma windows_name_flat:
  assumes "path_file_name unc p = Some name" and "\<not> (list_all is_separator (take 2 p) \<and> length p \<ge> 2)"
    and "c \<in> set (file_stem name)"
  shows "\<not> is_separator c"
proof -
  let ?parts = "filter (\<lambda>s. s \<noteq> [] \<and> s \<noteq> ''.'') (split_path (skip_drive p))"
  have "name \<in> set (rev ?parts)"
    using assms(1,2) by (cases "rev ?parts") (auto simp: path_file_name_def split: if_splits)
  then have "name \<in> set (split_path (skip_drive p))"
    by simp
  with assms(3) file_stem_set [of name] show ?thesis
    using split_path_flat by blast
qed

lemma windows_name_example:
  "windows_normalize_path unc (''C:'' @ [CHR 0x5C] @ ''run/app.v2.sock'') = ''app.v2''"
  "windows_normalize_path unc ''D:app.v2'' = ''app''"
  "windows_normalize_path unc ''run/app.sock'' = ''run/app.sock''"
  by (simp_all add: windows_normalize_path_def path_file_name_def skip_drive_def is_drive_letter_def
      is_separator_def file_stem_def)

text \<open>
  The rule of the system for the number of instances: the first instance of a pipe sets it,
  and every further one must specify the same number. \<open>maximum\<close> is what is set, for the pipes
  that exist.
\<close>

definition pipe_rules :: "('w, 'c, 'p) pipe_lib \<Rightarrow> ('w \<Rightarrow> string \<Rightarrow> nat option) \<Rightarrow> bool" where
  "pipe_rules lib maximum \<longleftrightarrow>
     (\<forall>opts name w w' p. pw_create lib opts name w = (w', Inr p) \<longrightarrow>
        (case maximum w name of
           None \<Rightarrow> maximum w' = (maximum w)(name \<mapsto> po_max_instances opts)
         | Some n \<Rightarrow> \<not> po_first_pipe_instance opts \<and> po_max_instances opts = n \<and> maximum w' = maximum w)) \<and>
     (\<forall>opts name w w' e. pw_create lib opts name w = (w', Inl e) \<longrightarrow> maximum w' = maximum w)"

fun windows_accepts ::
  "('w, 'c, 'p) pipe_lib \<Rightarrow> nat \<Rightarrow> 'p pipe_listener \<Rightarrow> 'w \<Rightarrow>
   'p pipe_listener \<times> 'w \<times> ('c, 'p) pipe_stream transport_result list" where
  "windows_accepts lib 0 l w = (l, w, [])"
| "windows_accepts lib (Suc n) l w =
     (case windows_accept lib l w of (l, w, r) \<Rightarrow>
        (case windows_accepts lib n l w of (l, w, rs) \<Rightarrow> (l, w, r # rs)))"

lemma pipe_created:
  assumes "pipe_rules lib maximum" and "pw_create lib opts name w = (w', Inr p)"
  shows "maximum w' name = Some (po_max_instances opts)"
  using assms unfolding pipe_rules_def by (cases "maximum w name") fastforce+

lemma pipe_refused:
  assumes "pipe_rules lib maximum" and "maximum w name = Some n" and "n \<noteq> po_max_instances opts"
  obtains w' e where "pw_create lib opts name w = (w', Inl e)" "maximum w' = maximum w"
proof (cases "pw_create lib opts name w")
  case (Pair w' r)
  show thesis
  proof (cases r)
    case (Inl e)
    have "\<forall>opts name w w' e. pw_create lib opts name w = (w', Inl e) \<longrightarrow> maximum w' = maximum w"
      using assms(1) by (simp add: pipe_rules_def)
    with Pair Inl that show thesis by metis
  next
    case (Inr p)
    with Pair assms show thesis by (fastforce simp: pipe_rules_def)
  qed
qed

lemma windows_accept_refused:
  assumes "pipe_rules lib maximum" and "maximum w (pl_pipe_name l) = Some 254"
    and "windows_accept lib l w = (l', w', r)"
  shows "l' = l \<and> maximum w' = maximum w \<and> (\<exists>e. r = Err (T_ConnectionFailure e))"
proof -
  have "254 \<noteq> po_max_instances (pipe_server_options False 1 (pl_config l))"
    by (simp add: pipe_server_options_def)
  from pipe_refused [OF assms(1,2) this] obtain w1 e where
    "pw_create lib (pipe_server_options False 1 (pl_config l)) (pl_pipe_name l) w = (w1, Inl e)"
    "maximum w1 = maximum w" .
  with assms(3) show ?thesis
    by (auto simp: windows_accept_def)
qed

lemma windows_accepts_refused:
  assumes "pipe_rules lib maximum" and "maximum w (pl_pipe_name l) = Some 254"
    and "windows_accepts lib n l w = (l', w', rs)"
  shows "l' = l \<and> length rs = n \<and> (\<forall>r \<in> set rs. \<exists>e. r = Err (T_ConnectionFailure e))"
  using assms(2,3)
proof (induction n arbitrary: w rs)
  case (Suc n)
  obtain l1 w1 r where first: "windows_accept lib l w = (l1, w1, r)"
    by (cases "windows_accept lib l w")
  note refused = windows_accept_refused [OF assms(1) Suc.prems(1) first]
  obtain l2 w2 rs2 where rest: "windows_accepts lib n l1 w1 = (l2, w2, rs2)"
    by (cases "windows_accepts lib n l1 w1")
  with Suc.IH [of w1 rs2] Suc.prems refused first show ?case
    by auto
qed simp

section \<open>Properties\<close>

text \<open>
  C34. A Windows listener accepts nobody, under the rule of the system that all instances of
  a pipe specify the same maximal number: \<open>listen\<close> creates the first instance for 254, but
  every \<open>accept\<close> asks for a further one with the number 1, so that each, however often it is
  called, fails to create it, and the listener goes on with the instance it had.
\<close>

theorem windows_listener_refused:
  assumes "pipe_rules lib maximum" and "windows_listen lib p config w = (w1, Ok l)"
    and "windows_accepts lib n l w1 = (l', w2, rs)"
  shows "l' = l \<and> pl_pipe_name l = format_pipe_name p \<and> length rs = n \<and>
    (\<forall>r \<in> set rs. \<exists>e. r = Err (T_ConnectionFailure e))"
proof -
  have name: "pl_pipe_name l = format_pipe_name p"
    and "pw_create lib (pipe_server_options True 254 config) (format_pipe_name p) w = (w1, Inr (pl_server l))"
    using assms(2) by (auto simp: windows_listen_def Let_def outcome of_io_def split: prod.splits sum.splits)
  from pipe_created [OF assms(1) this(2)] have "maximum w1 (pl_pipe_name l) = Some 254"
    by (simp add: name pipe_server_options_def)
  from windows_accepts_refused [OF assms(1) this assms(3)] name show ?thesis
    by blast
qed

type_synonym demo_pipes = "nat \<times> (string \<Rightarrow> nat option)"

definition demo_pipe_lib :: "(demo_pipes, nat, nat) pipe_lib" where
  "demo_pipe_lib =
     \<lparr>pw_url_parse = demo_ipc_parse, pw_now = 0, pw_unc_file_name = (\<lambda>p. None),
      pw_open = (\<lambda>name w. case snd w name of None \<Rightarrow> (w, Inl demo_fs_error) | Some _ \<Rightarrow> (w, Inr 0)),
      pw_create = (\<lambda>opts name w. case snd w name of
          None \<Rightarrow> ((fst w + 1, (snd w)(name \<mapsto> po_max_instances opts)), Inr (fst w))
        | Some n \<Rightarrow>
            if \<not> po_first_pipe_instance opts \<and> po_max_instances opts = n
            then ((fst w + 1, snd w), Inr (fst w)) else (w, Inl demo_fs_error)),
      pw_connect = (\<lambda>p w. (w, Inr ()))\<rparr>"

lemma demo_pipe_rules: "pipe_rules demo_pipe_lib snd"
  unfolding pipe_rules_def by (auto simp: demo_pipe_lib_def split: option.splits if_splits)

theorem windows_listener_refused_witness:
  "case windows_listen demo_pipe_lib ''app'' ipc_config_default (7, Map.empty) of
     (w, r) \<Rightarrow> r = Ok \<lparr>pl_server = 7, pl_pipe_name = format_pipe_name ''app'', pl_config = ipc_config_default\<rparr> \<and>
       (case r of
          Ok l \<Rightarrow> (case windows_accepts demo_pipe_lib 2 l w of (l', w', rs) \<Rightarrow> l' = l \<and> length rs = 2 \<and>
            filter is_ok rs = [])
        | _ \<Rightarrow> False)"
proof -
  let ?name = "format_pipe_name ''app''"
  let ?l = "\<lparr>pl_server = 7, pl_pipe_name = ?name, pl_config = ipc_config_default\<rparr>"
  have listen: "windows_listen demo_pipe_lib ''app'' ipc_config_default (7, Map.empty) =
      ((8, Map.empty(?name \<mapsto> 254)), Ok ?l)"
    by (simp add: windows_listen_def Let_def demo_pipe_lib_def pipe_server_options_def of_io_def)
  obtain l' w' rs where accepts: "windows_accepts demo_pipe_lib 2 ?l (8, Map.empty(?name \<mapsto> 254)) = (l', w', rs)"
    by (cases "windows_accepts demo_pipe_lib 2 ?l (8, Map.empty(?name \<mapsto> 254))")
  from windows_listener_refused [OF demo_pipe_rules listen accepts]
  have "l' = ?l" "length rs = 2" "filter is_ok rs = []"
    by (auto simp: filter_empty_conv)
  then show ?thesis
    unfolding listen prod.case res.case accepts by simp
qed

end
