(* ===== verification/Message_Typing.thy ===== *)
theory Message_Typing
  imports Codecs
begin

text \<open>
  The type invariant of \<open>Message\<close>, whose fields are private but for \<open>base_header\<close>, which no
  code of the repository assigns: every message the protocol
  crate hands out, from whichever of its constructors, parsers and decoders, and after any
  use of its methods, is laid out as its base header says and caches only what parsing
  gives.
\<close>

section \<open>What hands out messages\<close>

text \<open>
  The premises on lengths state the language's bound on the buffers that are parsed.
\<close>

inductive produced :: "'v deps \<Rightarrow> ('v, 'd) message \<Rightarrow> bool" for d where
  by_from_bytes: "from_bytes d data = Ok m \<Longrightarrow> rust_sized data \<Longrightarrow> produced d m"
| by_into_message: "into_message d rm = Ok m \<Longrightarrow> encodable d rm \<Longrightarrow> produced d m"
| by_typed: "message_from_typed d (ser :: 'd \<Rightarrow> string + bytes) tm = Ok m \<Longrightarrow> ser (tm_payload tm) = Inr pb \<Longrightarrow>
    encodable d \<lparr>rm_message_type = bh_message_type (tm_base_header tm),
      rm_client_id = bh_client_id (tm_base_header tm), rm_header = tm_header tm, rm_payload_data = pb\<rparr> \<Longrightarrow>
    produced d m"
| by_try_parse: "try_parse d p = (p', Ok (Some m)) \<Longrightarrow> rust_sized (p_buffer p) \<Longrightarrow> produced d m"
| by_parse_all: "parse_all d p = (p', Ok ms) \<Longrightarrow> rust_sized (p_buffer p) \<Longrightarrow> m \<in> set ms \<Longrightarrow> produced d m"
| by_codec: "codec_decode d c src = (c', Ok (Some m)) \<Longrightarrow> rust_sized (p_buffer (c_parser c) @ src) \<Longrightarrow>
    produced d m"
| by_decoder: "decoder_decode d r src = (r', Ok (Some m)) \<Longrightarrow> rust_sized (p_buffer (d_parser r) @ src) \<Longrightarrow>
    produced d m"
| by_access: "produced d m \<Longrightarrow> produced d (access d a m)"
| by_response: "produced d m \<Longrightarrow> produced d (fst (create_response d m sender status payload))"
| by_conversion: "produced d m \<Longrightarrow> 
    produced d (fst (from_message d (de :: bytes \<Rightarrow> string + 'd) m))"

section \<open>The invariant\<close>

definition message_ok :: "'v deps \<Rightarrow> ('v, 'd) message \<Rightarrow> bool" where
  "message_ok d m \<longleftrightarrow> framed m \<and> caches_coherent d m"

lemma message_ok_from_bytes:
  assumes "nom_laws d" and "rust_sized data" and "from_bytes d data = Ok m"
  shows "message_ok d m"
  using assms(3) fresh_coherent unfolding message_ok_def from_bytes_iff [OF assms(1,2)] by metis

lemma message_ok_into_message:
  assumes "nom_laws d" and "encodable d rm" and "into_message d rm = Ok m"
  shows "message_ok d m"
proof -
  obtain hb where hb: "length hb \<le> 65536" "wire_size rm hb \<le> 2 ^ 30"
    and bs: "to_bytes d rm = Ok (base_header_bytes (wire_header rm hb) @ hb @ rm_payload_data rm)"
    by (rule into_message_OkD [OF assms])
  have "rust_sized (base_header_bytes (wire_header rm hb) @ hb @ rm_payload_data rm)"
    using wire_message(2) [OF hb] by simp
  then show ?thesis
    using assms(1,3) bs by (intro message_ok_from_bytes) (simp_all add: into_message_def)
qed

lemma message_ok_try_parse:
  assumes "nom_laws d" and "rust_sized (p_buffer p)" and "try_parse d p = (p', Ok (Some m))"
  shows "message_ok d m"
  using try_parse_SomeD(1,2) [OF assms] fresh_coherent unfolding message_ok_def by metis

lemma message_ok_parse_all:
  fixes d :: "'v deps" and ms :: "('v, 'd) message list"
  assumes "nom_laws d"
  shows "parse_all_loop d p ms = (p', Ok ms') \<Longrightarrow> rust_sized (p_buffer p) \<Longrightarrow>
    \<forall>m \<in> set ms. message_ok d m \<Longrightarrow> \<forall>m \<in> set ms'. message_ok d m"
proof (induction "length (p_buffer p)" arbitrary: p ms rule: less_induct)
  case less
  obtain p1 and r :: "('v, 'd) message option protocol_result" where step: "try_parse d p = (p1, r)"
    by fastforce
  note loop = less.prems(1) [unfolded parse_all_loop.simps [of d p ms] step prod.case]
  show ?case
  proof (cases "\<exists>m. r = Ok (Some m)")
    case True
    then obtain m where r: "r = Ok (Some m)"
      by blast
    have shorter: "length (p_buffer p1) < length (p_buffer p)"
      using try_parse_consumes [OF step [unfolded r]] by simp
    moreover have "rust_sized (p_buffer p1)"
      using shorter less.prems(2) by (simp add: rust_sized_def)
    moreover have "message_ok d m"
      by (rule message_ok_try_parse [OF assms less.prems(2) step [unfolded r]])
    ultimately show ?thesis
      using less.hyps [of p1 "ms @ [m]"] loop less.prems(3) by (simp add: r)
  next
    case False
    with loop less.prems(3) show ?thesis
      by (auto split: res.splits option.splits)
  qed
qed

lemma message_ok_decode:
  assumes "nom_laws d" and "rust_sized (p_buffer p @ src)"
    and "parser_decode d n p src = ((p', src'), Ok (Some m))"
  shows "message_ok d m"
proof (cases "src = []")
  case True
  with assms show ?thesis
    by (auto simp: parser_decode_def Let_def split: if_splits prod.splits intro: message_ok_try_parse)
next
  case False
  then obtain q where q: "push_data p src = (q, Ok ())" and m: "\<exists>p'. try_parse d q = (p', Ok (Some m))"
    using assms(3) by (auto simp: parser_decode_def Let_def split: if_splits prod.splits res.splits)
  have "p_buffer q = p_buffer p @ src"
    using q by (auto simp: push_data_def split: if_splits)
  with m assms(2) show ?thesis
    using message_ok_try_parse [OF assms(1), of q] by auto
qed

lemma message_ok_access: "message_ok d m \<Longrightarrow> message_ok d (access d a m)"
  using access_step [of d m a] by (auto simp: message_ok_def framed_def)

lemma response_accesses: "fst (create_response d m sender status payload) \<in> {m, access d GetHeader m}"
  by (simp add: create_response_def split_beta Let_def)

lemma conversion_accesses: "fst (from_message d de m) = access d GetHeader m"
  by (simp add: from_message_def split_beta Let_def)

lemma produced_ok:
  assumes "nom_laws d"
  shows "produced d m \<Longrightarrow> message_ok d m"
proof (induction rule: produced.induct)
  case (by_typed ser tm m pb)
  then have "into_message d \<lparr>rm_message_type = bh_message_type (tm_base_header tm),
      rm_client_id = bh_client_id (tm_base_header tm), rm_header = tm_header tm, rm_payload_data = pb\<rparr> = Ok m"
    by (auto simp: message_from_typed_def raw_message_new_def expect_res_def outcome split: res.splits)
  then show ?case
    by (rule message_ok_into_message [OF assms by_typed(3)])
next
  case (by_parse_all p p' ms m)
  then show ?case
    using message_ok_parse_all [OF assms, of p "[]"] by (auto simp: parse_all_def)
next
  case (by_codec c src c' m)
  then show ?case
    by (auto simp: codec_decode_def split: prod.splits intro: message_ok_decode [OF assms])
next
  case (by_decoder c src c' m)
  then show ?case
    by (auto simp: decoder_decode_def split: prod.splits intro: message_ok_decode [OF assms])
next
  case (by_response m sender status payload)
  then show ?case
    using response_accesses [of d m sender status payload] message_ok_access [of d m GetHeader] by auto
qed (auto simp: conversion_accesses simp del: access.simps
    intro: message_ok_from_bytes message_ok_into_message message_ok_try_parse message_ok_access assms)

section \<open>Properties\<close>

text \<open>
  C5. The type invariant of \<open>Message\<close>: every message that the crate hands out, however it
  was made, received or converted and whatever was called on it since, is made of its
  serialised base header and the rest its lengths announce, caches nothing but what parsing
  its bytes gives, and is given back, with empty caches, by \<open>from_bytes\<close> on its raw bytes;
  its sections can be read, with the announced lengths, unless these wrap.
\<close>

theorem message_invariant:
  fixes d :: "'v deps" and m :: "('v, 'd) message"
  assumes "nom_laws d" and "produced d m"
  shows "framed m \<and> caches_coherent d m \<and>
    from_bytes d (m_raw_bytes m) = Ok (fresh_message (m_base_header m) (m_raw_bytes m) :: ('v, 'd) message) \<and>
    (no_wrap (m_base_header m) \<longrightarrow>
       (\<exists>hb pb. m_raw_bytes m = base_header_bytes (m_base_header m) @ hb @ pb \<and>
          raw_header_bytes m = Ok hb \<and> length hb = unat (m_header_length m) \<and>
          raw_payload_bytes m = Ok pb \<and> length pb = unat (m_payload_length m)))"
proof -
  have ok: "framed m" "caches_coherent d m"
    using produced_ok [OF assms] by (simp_all add: message_ok_def)
  have sized: "rust_sized (m_raw_data m)" and wf: "wf_base_header (m_base_header m)"
    using ok(1) by (simp_all add: framed_def)
  have "framed (fresh_message (m_base_header m) (m_raw_data m) :: ('v, 'd) message)"
    using ok(1) by (simp add: framed_def)
  then have "from_bytes d (m_raw_data m) = Ok (fresh_message (m_base_header m) (m_raw_data m) :: ('v, 'd) message)"
    by (simp add: from_bytes_iff [OF assms(1) sized])
  moreover have "\<exists>hb pb. m_raw_bytes m = base_header_bytes (m_base_header m) @ hb @ pb \<and>
      raw_header_bytes m = Ok hb \<and> length hb = unat (m_header_length m) \<and>
      raw_payload_bytes m = Ok pb \<and> length pb = unat (m_payload_length m)" if nw: "no_wrap (m_base_header m)"
  proof -
    obtain hb pb where s: "m_raw_data m = base_header_bytes (m_base_header m) @ hb @ pb"
        "length hb = unat (bh_header_length (m_base_header m))"
        "length pb = unat (bh_payload_length (m_base_header m))"
      by (rule framed_sections [OF ok(1) nw])
    from raw_sections [OF s(1) wf s(2,3) nw] s show ?thesis
      by (simp add: m_raw_bytes_def m_header_length_def m_payload_length_def)
  qed
  ultimately show ?thesis
    using ok by (simp add: m_raw_bytes_def)
qed

text \<open>A message made from a raw message, then answered and read.\<close>

theorem message_invariant_witness:
  "\<exists>m :: (nat, nat) message. into_message demo_deps demo_raw = Ok m \<and>
     caches_coherent demo_deps (access demo_deps GetHeader (fst (create_response demo_deps m 7 None (Inr []))))"
proof -
  have size: "length [1 :: u8] \<le> 65536" "wire_size demo_raw [1] \<le> 2 ^ 30"
    by (simp_all add: wire_size_def)
  obtain m :: "(nat, nat) message" where m: "into_message demo_deps demo_raw = Ok m"
    using wire_message(6) [OF size nom_laws_demo] to_bytes_eq [OF demo_raw_header]
    by (auto simp: into_message_def rust_sized_def wire_size_def)
  have "produced demo_deps (access demo_deps GetHeader (fst (create_response demo_deps m 7 None (Inr []))))"
    by (intro produced.by_access produced.by_response produced.by_into_message [OF m demo_raw_encodable])
  from message_invariant [OF nom_laws_demo this] m show ?thesis
    by blast
qed

end
