(* ===== verification/Hostile_Input.thy ===== *)
theory Hostile_Input
  imports Message_Typing Message_Builder
begin

text \<open>
  What bytes from an untrusted peer can do to a reader. Whatever arrives, in whatever
  pieces, a codec or a decoder comes back without a panic, stays within its limits, hands out
  only well-typed messages and loses no byte but those of a frame whose lengths wrap to less
  than a base header; and what a message whose lengths wrap then does to the code that reads it.
\<close>

section \<open>A reader that keeps what it was handed\<close>

text \<open>
  \<open>drain\<close> and \<open>feed\<close> again, for a reader that has the messages from before an error: the
  state of the decoder, the messages, how it ended, and the pieces that were not read any more.
\<close>

partial_function (option) drain_log ::
  "('s, 'm) decode_fun \<Rightarrow> 's \<Rightarrow> bytes \<Rightarrow> 'm list \<Rightarrow> (('s \<times> bytes) \<times> 'm list \<times> unit protocol_result) option"
where
  "drain_log dec s src ms =
     (case dec s src of
        (q, Ok (Some m)) \<Rightarrow> drain_log dec (fst q) (snd q) (ms @ [m])
      | (q, Ok None) \<Rightarrow> Some (q, ms, Ok ())
      | (q, Err e) \<Rightarrow> Some (q, ms, Err e)
      | (q, Panic) \<Rightarrow> Some (q, ms, Panic))"

fun feed_log ::
  "('s, 'm) decode_fun \<Rightarrow> 's \<Rightarrow> bytes \<Rightarrow> bytes list \<Rightarrow> 'm list \<Rightarrow>
   (('s \<times> bytes) \<times> 'm list \<times> unit protocol_result \<times> bytes list) option" where
  "feed_log dec s src [] ms = Some ((s, src), ms, Ok (), [])"
| "feed_log dec s src (chunk # chunks) ms =
     (case drain_log dec s (src @ chunk) ms of
        Some (q, ms', Ok _) \<Rightarrow> feed_log dec (fst q) (snd q) chunks ms'
      | Some (q, ms', r) \<Rightarrow> Some (q, ms', r, chunks)
      | None \<Rightarrow> None)"

text \<open>A reader that drops the messages when an error comes is this one without them.\<close>

definition dropping :: "'m list \<Rightarrow> unit protocol_result \<Rightarrow> 'm list protocol_result" where
  "dropping ms r = res_bind r (\<lambda>_. Ok ms)"

lemma drain_log_drain:
  "drain_log dec s src ms = Some z \<Longrightarrow> drain dec s src ms = Some (fst z, dropping (fst (snd z)) (snd (snd z)))"
proof (induction rule: drain_log.raw_induct [rotated 1, consumes 1])
  case (1 f dec s src ms z)
  then show ?case
    by (cases z) (auto simp: drain.simps [of dec s] dropping_def split: prod.splits res.splits option.splits)
qed

lemma feed_log_feed:
  "feed_log dec s src chunks ms = Some (q, ms', r, rest) \<Longrightarrow> feed dec s src chunks ms = Some (q, dropping ms' r)"
proof (induction chunks arbitrary: s src ms)
  case (Cons c chunks)
  then obtain z where run: "drain_log dec s (src @ c) ms = Some z"
    by (auto split: option.splits)
  from drain_log_drain [OF run] Cons run show ?case
    by (cases z) (auto simp: dropping_def split: res.splits)
qed (auto simp: dropping_def)

section \<open>The interface: a decoder that checks what it takes\<close>

text \<open>
  \<open>pending\<close> are the bytes the decoder holds, \<open>inv\<close> its invariant, \<open>raw\<close> the bytes of a
  message and \<open>good\<close> what is promised of one; \<open>spills lost e\<close> says that an error \<open>e\<close> may have
  cost the bytes \<open>lost\<close>.
\<close>

locale checked_decoder = consuming_decoder dec "\<lambda>s. length (pending s)" least
  for dec :: "('s, 'm) decode_fun" and pending :: "'s \<Rightarrow> bytes" and least :: nat +
  fixes inv :: "'s \<Rightarrow> bool" and good :: "'m \<Rightarrow> bool" and raw :: "'m \<Rightarrow> bytes"
    and spills :: "bytes \<Rightarrow> protocol_error \<Rightarrow> bool"
  assumes stays: "dec s src = (q, r) \<Longrightarrow> inv s \<Longrightarrow> rust_sized src \<Longrightarrow> inv (fst q) \<and> r \<noteq> Panic"
    and yields: "dec s src = (q, Ok (Some m)) \<Longrightarrow> inv s \<Longrightarrow> rust_sized src \<Longrightarrow>
      good m \<and> snd q = [] \<and> pending s @ src = raw m @ pending (fst q)"
    and waits: "dec s src = (q, Ok None) \<Longrightarrow> inv s \<Longrightarrow> rust_sized src \<Longrightarrow>
      snd q = [] \<and> pending s @ src = pending (fst q)"
    and fails: "dec s src = (q, Err e) \<Longrightarrow> inv s \<Longrightarrow> rust_sized src \<Longrightarrow>
      \<exists>lost. pending s @ src = lost @ pending (fst q) @ snd q \<and> (lost \<noteq> [] \<longrightarrow> spills lost e)"
begin

text \<open>
  What became of the bytes \<open>input\<close>: those of the messages handed out, in order, then what an
  error has cost, then what is held and what is left in the buffer of the read.
\<close>

definition accounted :: "bytes \<Rightarrow> 'm list \<Rightarrow> 's \<times> bytes \<Rightarrow> unit protocol_result \<Rightarrow> bool" where
  "accounted input new q r \<longleftrightarrow>
     inv (fst q) \<and> r \<noteq> Panic \<and> (\<forall>m \<in> set new. good m) \<and> (r = Ok () \<longrightarrow> snd q = []) \<and>
     (\<exists>lost. input = concat (map raw new) @ lost @ pending (fst q) @ snd q \<and>
        (lost \<noteq> [] \<longrightarrow> (\<exists>e. r = Err e \<and> spills lost e)))"

lemma accounted_more:
  assumes "good m" and "accounted input new q r"
  shows "accounted (raw m @ input) (m # new) q r"
  using assms by (auto simp: accounted_def)

lemma accounted_append:
  assumes "accounted a new1 q1 (Ok ())" and "accounted (pending (fst q1) @ b) new2 q r"
  shows "accounted (a @ b) (new1 @ new2) q r"
  using assms by (auto simp: accounted_def)

lemma accounted_unread:
  assumes "accounted a new q r"
  shows "inv (fst q) \<and> r \<noteq> Panic \<and> (\<forall>m \<in> set new. good m) \<and>
    (\<exists>lost. a @ b = concat (map raw new) @ lost @ pending (fst q) @ snd q @ b \<and>
       (lost \<noteq> [] \<longrightarrow> (\<exists>e. r = Err e \<and> spills lost e)))"
  using assms by (auto simp: accounted_def)

lemma drain_checked:
  assumes "inv s" and "rust_sized src"
  shows "\<exists>q new r. drain_log dec s src ms = Some (q, ms @ new, r) \<and> accounted (pending s @ src) new q r"
  using assms
proof (induction "length (pending s) + length src" arbitrary: s src ms rule: less_induct)
  case less
  obtain q1 r1 where step: "dec s src = (q1, r1)"
    by fastforce
  note inv1 = stays [OF step less.prems]
  consider (message) m where "r1 = Ok (Some m)" | (waiting) "r1 = Ok None" | (error) e where "r1 = Err e"
  proof (cases r1)
    case (Ok x)
    then show thesis using that(1,2) by (cases x) blast+
  qed (use that(3) inv1 in blast)+
  then show ?case
  proof cases
    case message
    have y: "good m" "snd q1 = []" "pending s @ src = raw m @ pending (fst q1)"
      using yields [OF step [unfolded message] less.prems] by simp_all
    have "length (pending (fst q1)) + length (snd q1) < length (pending s) + length src"
      using consumes [OF step [unfolded message]] least_pos by linarith
    from less.hyps [OF this _ _, of "ms @ [m]"] obtain q new r where
      "drain_log dec (fst q1) (snd q1) (ms @ [m]) = Some (q, (ms @ [m]) @ new, r)"
      "accounted (pending (fst q1) @ snd q1) new q r"
      using inv1 y(2) by (auto simp: rust_sized_def)
    with accounted_more [OF y(1)] y(2,3) show ?thesis
      by (intro exI [of _ q] exI [of _ "m # new"] exI [of _ r])
        (simp add: drain_log.simps [of dec s] step message)
  next
    case waiting
    with waits [OF step [unfolded waiting] less.prems] inv1 show ?thesis
      by (intro exI [of _ q1] exI [of _ "[]"] exI [of _ "Ok ()"])
        (simp add: drain_log.simps [of dec s] step accounted_def)
  next
    case error
    with fails [OF step [unfolded error] less.prems] inv1 show ?thesis
      by (intro exI [of _ q1] exI [of _ "[]"] exI [of _ "Err e"])
        (simp add: drain_log.simps [of dec s] step accounted_def)
  qed
qed

text \<open>A reader on any input, from any state that satisfies the invariant.\<close>

lemma feed_checked:
  assumes "inv s" and "\<forall>c \<in> set chunks. rust_sized c"
  shows "\<exists>q new r rest. feed_log dec s [] chunks ms = Some (q, ms @ new, r, rest) \<and>
    inv (fst q) \<and> r \<noteq> Panic \<and> (\<forall>m \<in> set new. good m) \<and> (r = Ok () \<longrightarrow> snd q = [] \<and> rest = []) \<and>
    (\<exists>lost. pending s @ concat chunks = concat (map raw new) @ lost @ pending (fst q) @ snd q @ concat rest \<and>
       (lost \<noteq> [] \<longrightarrow> (\<exists>e. r = Err e \<and> spills lost e)))"
  using assms
proof (induction chunks arbitrary: s ms)
  case (Cons c chunks)
  obtain q1 new1 r1 where run: "drain_log dec s c ms = Some (q1, ms @ new1, r1)"
    and acc: "accounted (pending s @ c) new1 q1 r1"
    using drain_checked [OF Cons.prems(1), of c ms] Cons.prems(2) by auto
  show ?case
  proof (cases r1)
    case (Ok u)
    with acc have inv1: "inv (fst q1)" and src1: "snd q1 = []" and acc1: "accounted (pending s @ c) new1 q1 (Ok ())"
      by (simp_all add: accounted_def)
    obtain q new r rest where IH: "feed_log dec (fst q1) [] chunks (ms @ new1) = Some (q, (ms @ new1) @ new, r, rest)"
      "inv (fst q)" "r \<noteq> Panic" "\<forall>m \<in> set new. good m" "r = Ok () \<longrightarrow> snd q = [] \<and> rest = []"
      and lost: "\<exists>lost. pending (fst q1) @ concat chunks =
          concat (map raw new) @ lost @ pending (fst q) @ snd q @ concat rest \<and>
        (lost \<noteq> [] \<longrightarrow> (\<exists>e. r = Err e \<and> spills lost e))"
      using Cons.IH [OF inv1, of "ms @ new1"] Cons.prems(2) by auto
    from lost obtain lost where lost: "pending (fst q1) @ concat chunks =
          concat (map raw new) @ lost @ pending (fst q) @ snd q @ concat rest"
        "lost \<noteq> [] \<longrightarrow> (\<exists>e. r = Err e \<and> spills lost e)"
      by (elim exE conjE)
    have read: "feed_log dec s [] (c # chunks) ms = Some (q, ms @ (new1 @ new), r, rest)"
      by (simp add: run Ok src1 IH(1) [simplified])
    have first: "pending s @ c = concat (map raw new1) @ pending (fst q1)" "\<forall>m \<in> set new1. good m"
      using acc1 by (auto simp: accounted_def)
    have "pending s @ concat (c # chunks) = (pending s @ c) @ concat chunks"
      by simp
    also have "\<dots> = concat (map raw (new1 @ new)) @ lost @ pending (fst q) @ snd q @ concat rest"
      unfolding first(1) by (simp add: lost(1))
    finally have "pending s @ concat (c # chunks) =
        concat (map raw (new1 @ new)) @ lost @ pending (fst q) @ snd q @ concat rest" .
    moreover have "\<forall>m \<in> set (new1 @ new). good m"
      using first(2) IH(4) by auto
    ultimately show ?thesis
      using read IH(2,3,5) lost(2) by blast
  next
    case (Err e)
    with accounted_unread [OF acc, of "concat chunks"] run show ?thesis
      by (intro exI [of _ q1] exI [of _ new1] exI [of _ r1] exI [of _ chunks]) simp
  qed (use acc in \<open>simp add: accounted_def\<close>)
qed simp

end

section \<open>The decoders\<close>

text \<open>
  The one loss: a frame whose lengths wrap to less than the size of a base header is taken off
  the buffer before it is refused.
\<close>

definition short_frame_lost :: "bytes \<Rightarrow> protocol_error \<Rightarrow> bool" where
  "short_frame_lost lost e \<longleftrightarrow> length lost < 34 \<and> e = IncompleteData 34 (usize_len lost)"

text \<open>What a decoder with limits \<open>l\<close> promises of a message it hands out.\<close>

definition admitted :: "'v deps \<Rightarrow> limits \<Rightarrow> ('v, 'd) message \<Rightarrow> bool" where
  "admitted d l m \<longleftrightarrow>
     message_ok d m \<and> bh_header_length (m_base_header m) \<le> ucast (snd l) \<and>
     length (m_raw_bytes m) \<le> unat (fst l)"

definition keeps_limits :: "limits \<Rightarrow> message_parser \<Rightarrow> bool" where
  "keeps_limits l p \<longleftrightarrow> within_limits p \<and> p_limits p = l"

lemma try_parse_keeps:
  assumes "keeps_limits l p" and "try_parse d p = (p', r)"
  shows "keeps_limits l p'"
proof -
  have "length (p_buffer p') \<le> length (p_buffer p)"
    using assms(2) by (auto simp: try_parse_def Let_def split: res.splits if_splits)
  moreover have "p_limits p' = p_limits p"
    using assms(2) try_parse_limits by (metis fst_conv)
  ultimately show ?thesis
    using assms(1) by (auto simp: keeps_limits_def within_limits_def p_limits_def)
qed

lemma push_data_keeps:
  assumes "keeps_limits l p" and "rust_sized src" and "push_data p src = (p', r)"
  shows "keeps_limits l p' \<and> r \<noteq> Panic \<and> (r = Ok () \<longrightarrow> p_buffer p' = p_buffer p @ src)"
proof (cases r)
  case (Ok u)
  with assms show ?thesis
    using push_data_OkD [of p src p'] by (auto simp: keeps_limits_def p_limits_def)
qed (use assms push_data_ErrD [of p src p'] in \<open>auto simp: push_data_def split: if_splits\<close>)

lemma try_parse_admitted:
  assumes "nom_laws d" and "keeps_limits l p" and "try_parse d p = (p', Ok (Some m))"
  shows "admitted d l m \<and> p_buffer p = m_raw_bytes m @ p_buffer p'"
proof -
  have sized: "rust_sized (p_buffer p)"
    using assms(2) by (auto simp: keeps_limits_def)
  note s = try_parse_SomeD [OF assms(1) sized assms(3)]
  have "length (m_raw_data m) = unat (usize_len (m_raw_data m))"
    using s(1) by (intro unat_usize_len [symmetric]) (simp add: framed_def rust_sized_def)
  also have "\<dots> \<le> unat (p_max_message_size p)"
    using s(1,6) by (simp add: framed_def word_le_nat_alt)
  finally show ?thesis
    using assms(2) s(3,5) message_ok_try_parse [OF assms(1) sized assms(3)]
    by (auto simp: admitted_def keeps_limits_def p_limits_def m_raw_bytes_def)
qed

lemma parser_decode_checked:
  fixes d :: "'v deps" and r :: "('v, 'd) message option protocol_result"
  assumes "nom_laws d" and "keeps_limits l p" and "rust_sized src"
    and "parser_decode d n p src = (q, r)"
  shows "keeps_limits l (fst q) \<and> r \<noteq> Panic \<and>
    (r = Ok None \<longrightarrow> snd q = [] \<and> p_buffer p @ src = p_buffer (fst q)) \<and>
    (\<forall>m. r = Ok (Some m) \<longrightarrow>
       admitted d l m \<and> snd q = [] \<and> p_buffer p @ src = m_raw_bytes m @ p_buffer (fst q)) \<and>
    (\<forall>e. r = Err e \<longrightarrow> (\<exists>lost. p_buffer p @ src = lost @ p_buffer (fst q) @ snd q \<and>
       (lost \<noteq> [] \<longrightarrow> short_frame_lost lost e)))"
proof -
  have parsed: "keeps_limits l p' \<and> r' \<noteq> Panic \<and> (r' = Ok None \<longrightarrow> p_buffer p0 = p_buffer p') \<and>
      (\<forall>m. r' = Ok (Some m) \<longrightarrow> admitted d l m \<and> p_buffer p0 = m_raw_bytes m @ p_buffer p') \<and>
      (\<forall>e. r' = Err e \<longrightarrow> (\<exists>lost. p_buffer p0 = lost @ p_buffer p' \<and> (lost \<noteq> [] \<longrightarrow> short_frame_lost lost e)))"
    if "keeps_limits l p0" and "try_parse d p0 = (p', r')"
    for p0 p' and r' :: "('v, 'd) message option protocol_result"
  proof -
    have sized: "rust_sized (p_buffer p0)"
      using that(1) by (auto simp: keeps_limits_def)
    show ?thesis
      using that try_parse_keeps [OF that] try_parse_admitted [OF assms(1) that(1)]
        try_parse_spills [OF assms(1) sized, where p' = p' and 'd = 'd]
      by (auto simp: short_frame_lost_def dest: try_parse_NoneD)
  qed
  consider (refused) e where "q = (p, src)" "r = Err e"
    | (idle) p' where "src = []" "try_parse d p = (p', r)" "q = (p', [])"
    | (pushed) p1 p' where "push_data p src = (p1, Ok ())" "try_parse d p1 = (p', r)" "q = (p', [])"
    | (full) p1 r1 where "push_data p src = (p1, r1)" "\<forall>x. r1 \<noteq> Ok x" "q = (p1, src)" "\<forall>x. r \<noteq> Ok x"
        "r = Panic \<longrightarrow> r1 = Panic"
    using assms(4) by (auto simp: parser_decode_def Let_def split: if_splits prod.splits res.splits)
  then show ?thesis
  proof cases
    case idle
    with parsed [OF assms(2) idle(2)] show ?thesis by simp
  next
    case pushed
    with push_data_keeps [OF assms(2,3) pushed(1)] show ?thesis
      using parsed [OF _ pushed(2)] by simp
  next
    case full
    then have "p1 = p"
      by (auto simp: push_data_def split: if_splits)
    with full push_data_keeps [OF assms(2,3) full(1)] show ?thesis by auto
  qed (use assms(2) in simp)
qed

interpretation codec_check: checked_decoder
  "codec_decode d :: (message_codec, ('v, 'd) message) decode_fun" "\<lambda>c. p_buffer (c_parser c)" 34
  "\<lambda>c. nom_laws d \<and> keeps_limits l (c_parser c)" "admitted d l" m_raw_bytes short_frame_lost
  for d :: "'v deps" and l :: limits
  by unfold_locales
    (auto simp: codec_decode_def split: prod.splits dest: parser_decode_checked [rotated 3])

interpretation decoder_check: checked_decoder
  "decoder_decode d :: (message_decoder, ('v, 'd) message) decode_fun" "\<lambda>c. p_buffer (d_parser c)" 34
  "\<lambda>c. nom_laws d \<and> keeps_limits l (d_parser c)" "admitted d l" m_raw_bytes short_frame_lost
  for d :: "'v deps" and l :: limits
  by unfold_locales
    (auto simp: decoder_decode_def split: prod.splits dest: parser_decode_checked [rotated 3])

section \<open>Properties\<close>

text \<open>
  What a reader makes of \<open>chunks\<close>: it comes back, without a panic and with no more than its
  frame limit in its buffer; all messages it has handed out, also those before an error, are
  well typed and within the limits; and every byte that arrived is accounted for.
\<close>

definition reads_safely ::
  "'v deps \<Rightarrow> limits \<Rightarrow> ('s \<Rightarrow> bytes) \<Rightarrow> bytes list \<Rightarrow>
   (('s \<times> bytes) \<times> ('v, 'd) message list \<times> unit protocol_result \<times> bytes list) option \<Rightarrow> bool" where
  "reads_safely d l held chunks outcome \<longleftrightarrow>
     (\<exists>s src ms r rest. outcome = Some ((s, src), ms, r, rest) \<and> r \<noteq> Panic \<and>
        length (held s) \<le> unat (fst l) \<and> (\<forall>m \<in> set ms. admitted d l m) \<and>
        (r = Ok () \<longrightarrow> src = [] \<and> rest = []) \<and>
        (\<exists>lost. concat chunks = concat (map m_raw_bytes ms) @ lost @ held s @ src @ concat rest \<and>
           (lost \<noteq> [] \<longrightarrow> (\<exists>e. r = Err e \<and> short_frame_lost lost e))))"

text \<open>
  C3. No input breaks a reader: a codec or a decoder with any sane limits that is fed arbitrary
  bytes in arbitrary pieces comes back, never panics and never holds more than its frame limit.
  Whether it ends with an error or not, every message it has handed out is well typed and within
  the limits, and what arrived is exactly the raw bytes of these messages followed by what is
  held and what was not read; only a frame whose lengths wrap to fewer than 34 bytes is lost, and
  then the reader reports just that.
\<close>

theorem hostile_bytes:
  fixes d :: "'v deps"
  assumes "nom_laws d" and "limits_sane (mfs, mhs)" and "\<forall>c \<in> set chunks. rust_sized c"
  shows "reads_safely d (mfs, mhs) (\<lambda>c. p_buffer (c_parser c)) chunks
      (feed_log (codec_decode d) (codec_with_limits mfs mhs) [] chunks ([] :: ('v, 'd) message list)) \<and>
    reads_safely d (mfs, mhs) (\<lambda>c. p_buffer (d_parser c)) chunks
      (feed_log (decoder_decode d) (decoder_with_limits mfs mhs) [] chunks ([] :: ('v, 'd) message list))"
proof
  have new: "keeps_limits (mfs, mhs) (c_parser (codec_with_limits mfs mhs))"
      "keeps_limits (mfs, mhs) (d_parser (decoder_with_limits mfs mhs))"
    using assms(2) by (simp_all add: keeps_limits_def within_limits_def p_limits_def codec_with_limits_def
        decoder_with_limits_def parser_with_limits_def)
  have empty: "p_buffer (c_parser (codec_with_limits mfs mhs)) = []" "p_buffer (d_parser (decoder_with_limits mfs mhs)) = []"
    by (simp_all add: codec_with_limits_def decoder_with_limits_def parser_with_limits_def)
  have short: "length (p_buffer p) \<le> unat mfs" if "keeps_limits (mfs, mhs) p" for p
    using that by (auto simp: keeps_limits_def within_limits_def p_limits_def)
  show "reads_safely d (mfs, mhs) (\<lambda>c. p_buffer (c_parser c)) chunks
      (feed_log (codec_decode d) (codec_with_limits mfs mhs) [] chunks ([] :: ('v, 'd) message list))"
    using codec_check.feed_checked [of d "(mfs, mhs)" "codec_with_limits mfs mhs" chunks "[] :: ('v, 'd) message list"]
      new(1) assms(1,3) short
    by (fastforce simp: reads_safely_def empty)
  show "reads_safely d (mfs, mhs) (\<lambda>c. p_buffer (d_parser c)) chunks
      (feed_log (decoder_decode d) (decoder_with_limits mfs mhs) [] chunks ([] :: ('v, 'd) message list))"
    using decoder_check.feed_checked [of d "(mfs, mhs)" "decoder_with_limits mfs mhs" chunks "[] :: ('v, 'd) message list"]
      new(2) assms(1,3) short
    by (fastforce simp: reads_safely_def empty)
qed

text \<open>Noise, longer than a base header and in two pieces.\<close>

theorem hostile_bytes_witness:
  "reads_safely demo_deps (70, 10) (\<lambda>c. p_buffer (c_parser c)) [replicate 40 9, [3]]
     (feed_log (codec_decode demo_deps) (codec_with_limits 70 10) [] [replicate 40 9, [3]] ([] :: (nat, nat) message list)) \<and>
   reads_safely demo_deps (70, 10) (\<lambda>c. p_buffer (d_parser c)) [replicate 40 9, [3]]
     (feed_log (decoder_decode demo_deps) (decoder_with_limits 70 10) [] [replicate 40 9, [3]] ([] :: (nat, nat) message list))"
  by (rule hostile_bytes [OF nom_laws_demo]) (simp_all add: rust_sized_def limits_sane_def)

text \<open>
  C37. Handing a message out is not the end of it: a frame of 34 bytes, of any type, whose
  announced lengths wrap the 64-bit size passes the codec and its limits as a message. Then
  the first access to its header or payload panics, and so does everything that reads them:
  parsing it in full, forwarding it, and, when it is a request, answering it.
\<close>

theorem wrapping_frame_aborts:
  fixes d :: "'v deps"
  assumes "nom_laws d"
  shows "\<exists>m :: ('v, 'd) message.
    codec_decode d codec_new (base_header_bytes (wrapping_header t)) = ((codec_new, []), Ok (Some m)) \<and>
    snd (m_header d m) = Panic \<and> snd (m_payload d m) = Panic \<and>
    snd (from_message d (de :: bytes \<Rightarrow> string + 'p) m) = Panic \<and>
    snd (mb_forward_to d b m client_name path client_id) = Panic \<and>
    (t = Request \<longrightarrow> snd (create_response d m sender status payload) = Panic)"
proof -
  let ?bs = "base_header_bytes (wrapping_header t)"
  define m :: "('v, 'd) message" where "m = fresh_message (wrapping_header t) ?bs"
  have "parse_base_header d ?bs = Ok (wrapping_header t)"
    by (simp add: parse_base_header_iff [OF assms])
  moreover have "usize_len ?bs = 34"
    by (simp add: usize_len_def)
  ultimately have "try_parse d (parser_state default_limits ?bs) = (parser_state default_limits [], Ok (Some m))"
    using wrapping_frame_accepted [OF assms, where 'd = 'd]
    by (simp add: try_parse_def m_def parser_state_def parser_with_limits_def default_limits_def
        DEFAULT_MAX_MESSAGE_SIZE_def DEFAULT_MAX_HEADER_SIZE_def BASE_HEADER_SIZE_def)
  then have decoded: "codec_decode d codec_new ?bs = ((codec_new, []), Ok (Some m))"
    using parser_decode_push [of default_limits "[]" ?bs d, where 'b = 'd]
    by (simp add: codec_new_state codec_state_parser codec_parts_decode limits_sane_def default_limits_def
        DEFAULT_MAX_MESSAGE_SIZE_def)
  have "snd (mb_forward_to d b m client_name path client_id) = Panic"
    using wrapping_frame_panics(1) [OF m_def] by (simp add: mb_forward_to_def split_beta Let_def)
  with decoded wrapping_frame_panics [OF m_def] show ?thesis
    by blast
qed

text \<open>A request that its receiver cannot answer.\<close>

theorem wrapping_frame_aborts_witness:
  "\<exists>m :: (nat, nat) message.
    codec_decode demo_deps codec_new (base_header_bytes (wrapping_header Request)) = ((codec_new, []), Ok (Some m)) \<and>
    snd (create_response demo_deps m 7 (Some STATUS_OK) (Inr [])) = Panic"
  using wrapping_frame_aborts [OF nom_laws_demo, where t = Request and 'd = nat] by blast

end
