(* ===== verification/Recently_Used.thy ===== *)
theory Recently_Used
  imports Transport_Manager
begin

text \<open>
  What the statistics of the manager remember. The specification is a log of all uses of
  all URLs; the cache of the code, which is updated in place, is shown to hold the most
  recently used URLs of that log, in the order of their last use.
\<close>

section \<open>Logs and their latest entries\<close>

lemma without_take:
  assumes "distinct (map fst xs)"
  shows "without k (take (Suc n) xs) =
    (if k \<in> fst ` set (take (Suc n) xs) then take n (without k xs) else take (Suc n) xs)"
  using assms
proof (induction xs arbitrary: n)
  case (Cons x xs)
  have absent: "without k ys = ys" if "k \<notin> fst ` set ys" for ys :: "(string \<times> 'a) list"
    using that by (auto simp: without_def filter_id_conv)
  show ?case
  proof (cases "fst x = k")
    case True
    with Cons.prems have "k \<notin> fst ` set xs" and "k \<notin> fst ` set (take n xs)"
      by (auto dest: in_set_takeD)
    with True absent show ?thesis
      by (simp add: without_def)
  next
    case False
    with Cons show ?thesis
      by (cases n) (auto simp: without_def)
  qed
qed (simp add: without_def)

lemma take_without_absent: "k \<notin> fst ` set (take n xs) \<Longrightarrow> take n (without k xs) = take n xs"
proof (induction xs arbitrary: n)
  case (Cons x xs)
  then show ?case
    by (cases n) (auto simp: without_def)
qed (simp add: without_def)

text \<open>Newer entries first; and filters that keep an entry with everything newer.\<close>

definition newest_first :: "(string \<times> instant) list \<Rightarrow> bool" where
  "newest_first = sorted_wrt (\<lambda>a b. snd b \<le> snd a)"

lemma newest_first_without: "newest_first xs \<Longrightarrow> newest_first (without k xs)"
  by (simp add: newest_first_def without_def sorted_wrt_filter)

lemma set_latest: "set (latest xs) \<subseteq> set xs"
  by (induction xs rule: latest.induct) (auto simp: set_without)

lemma newest_first_latest: "newest_first xs \<Longrightarrow> newest_first (latest xs)"
proof (induction xs rule: latest.induct)
  case (2 k v xs)
  then have "newest_first (without k (latest xs))"
    by (intro newest_first_without) (simp add: newest_first_def)
  with 2 show ?case
    by (auto simp: newest_first_def set_without dest!: set_latest [THEN subsetD])
qed simp

definition unexpired :: "duration \<Rightarrow> instant \<Rightarrow> string \<times> instant \<Rightarrow> bool" where
  "unexpired ttl now e \<longleftrightarrow> now - snd e < ttl"

lemma unexpired_newer: "unexpired ttl now a \<Longrightarrow> snd a \<le> snd b \<Longrightarrow> unexpired ttl now b"
  by (simp add: unexpired_def)

lemma filter_take_newest:
  "newest_first xs \<Longrightarrow> filter (unexpired ttl now) (take n xs) = take n (filter (unexpired ttl now) xs)"
proof (induction xs arbitrary: n)
  case (Cons x xs)
  then have older: "\<forall>y \<in> set xs. snd y \<le> snd x" and rest: "newest_first xs"
    by (simp_all add: newest_first_def)
  show ?case
  proof (cases "unexpired ttl now x")
    case True
    with Cons.IH [OF rest] show ?thesis
      by (cases n) simp_all
  next
    case False
    then have "\<forall>y \<in> set xs. \<not> unexpired ttl now y"
      using older unexpired_newer by blast
    with False show ?thesis
      by (cases n) (auto simp: filter_empty_conv dest: in_set_takeD)
  qed
qed simp

lemma filter_latest:
  "newest_first xs \<Longrightarrow> filter (unexpired ttl now) (latest xs) = latest (filter (unexpired ttl now) xs)"
proof (induction xs rule: latest.induct)
  case (2 k v xs)
  then have older: "\<forall>y \<in> set xs. snd y \<le> v" and rest: "newest_first xs"
    by (simp_all add: newest_first_def)
  show ?case
  proof (cases "unexpired ttl now (k, v)")
    case True
    have "filter (unexpired ttl now) (without k (latest xs)) =
        without k (filter (unexpired ttl now) (latest xs))"
      by (simp add: without_def conj_commute)
    with True 2(1) [OF rest] show ?thesis by simp
  next
    case False
    then have "\<forall>y \<in> set xs. \<not> unexpired ttl now y"
      using older unexpired_newer [where b = "(k, v)"] by auto
    with False set_latest [of xs] show ?thesis
      by (auto simp: filter_empty_conv set_without)
  qed
qed simp

section \<open>The specification\<close>

text \<open>
  What callers do with the statistics; a connection that is made is an \<open>Attempt\<close> and then a
  \<open>Success\<close>, a failed one an \<open>Attempt\<close> only. The log gets every use; clearing forgets it, and
  cleaning up forgets what is too old. A success is a use only of a URL that is tracked.
\<close>

datatype stats_event = Attempt string | Success string | CleanUp | Clear

fun log_event :: "nat \<Rightarrow> duration \<Rightarrow> stats_event \<times> instant \<Rightarrow> (string \<times> instant) list \<Rightarrow> (string \<times> instant) list"
where
  "log_event n ttl (Attempt u, now) h = (u, now) # h"
| "log_event n ttl (Success u, now) h =
     (if u \<in> fst ` set (take n (latest h)) then (u, now) # h else h)"
| "log_event n ttl (CleanUp, now) h = filter (unexpired ttl now) h"
| "log_event n ttl (Clear, now) h = []"

text \<open>The operations of the manager, and what its cache says of the uses.\<close>

fun run_event ::
  "('m, 't, 'c) manager_lib \<Rightarrow> stats_event \<times> instant \<Rightarrow> ('m, 'c) transport_manager \<Rightarrow> ('m, 'c) transport_manager"
where
  "run_event lib (Attempt u, now) m = track_connection_attempt lib now u m"
| "run_event lib (Success u, now) m = track_successful_connection lib now u m"
| "run_event lib (CleanUp, now) m = cleanup_expired_entries lib now m"
| "run_event lib (Clear, now) m = manager_clear_cache lib m"

definition cache_uses :: "('m, 't, 'c) manager_lib \<Rightarrow> ('m, 'c) transport_manager \<Rightarrow> (string \<times> instant) list" where
  "cache_uses lib m = map (\<lambda>e. (fst e, ce_last_used (snd e))) (ml_iter lib (tm_connection_stats m))"

lemma connect_events:
  assumes "manager_connect lib now1 now2 u m w = (m', w', r)"
  shows "m' = fold (run_event lib) ((Attempt u, now1) # (if is_ok r then [(Success u, now2)] else [])) m"
  using assms by (auto simp: manager_connect_def Let_def split: option.splits prod.splits res.splits)

section \<open>The refinement\<close>

text \<open>The simulation relation, with the clock.\<close>

definition remembers ::
  "('m, 't, 'c) manager_lib \<Rightarrow> nat \<Rightarrow> duration \<Rightarrow> instant \<Rightarrow> (string \<times> instant) list \<Rightarrow> ('m, 'c) transport_manager \<Rightarrow> bool"
where
  "remembers lib n ttl clock h m \<longleftrightarrow>
     cache_uses lib m = take n (latest h) \<and> unat (ml_cap lib (tm_connection_stats m)) = n \<and>
     tm_cache_ttl m = ttl \<and> newest_first h \<and> (\<forall>e \<in> set h. snd e \<le> clock)"

lemma keys_cache_uses: "fst ` set (cache_uses lib m) = fst ` set (ml_iter lib (tm_connection_stats m))"
  by (force simp: cache_uses_def)

lemma map_without:
  "map (\<lambda>e. (fst e, f (snd e))) (without k xs) = without k (map (\<lambda>e. (fst e, f (snd e))) xs)"
  by (simp add: without_def filter_map comp_def)

lemma distinct_take_latest: "distinct (map fst (take n (latest h)))"
  using distinct_latest [of h] by (simp add: take_map [symmetric] distinct_take)

text \<open>Using a tracked URL moves its entry to the front.\<close>

lemma touch_remembers:
  assumes "remembers lib (Suc n) ttl clock h m" and "u \<in> fst ` set (cache_uses lib m)"
    and "ml_iter lib c = (u, e) # without u (ml_iter lib (tm_connection_stats m))"
    and "ml_cap lib c = ml_cap lib (tm_connection_stats m)" and "ce_last_used e = now" and "clock \<le> now"
  shows "remembers lib (Suc n) ttl now ((u, now) # h) (m\<lparr>tm_connection_stats := c\<rparr>)"
proof -
  have "cache_uses lib (m\<lparr>tm_connection_stats := c\<rparr>) = (u, now) # without u (cache_uses lib m)"
    using assms(3,5) map_without [of ce_last_used u] by (simp add: cache_uses_def)
  also have "without u (cache_uses lib m) = take n (without u (latest h))"
    using assms(1,2) without_take [OF distinct_latest [of h], of u n] by (simp add: remembers_def)
  finally show ?thesis
    using assms(1,4,6) by (fastforce simp: remembers_def newest_first_def)
qed

lemma attempt_remembers:
  assumes "manager_laws lib" and "remembers lib (Suc n) ttl clock h m" and "clock \<le> now"
  shows "remembers lib (Suc n) ttl now ((u, now) # h) (track_connection_attempt lib now u m)"
proof (cases "map_of (ml_iter lib (tm_connection_stats m)) u")
  case (Some e)
  then have u: "u \<in> fst ` set (cache_uses lib m)"
    by (simp add: keys_cache_uses) (metis domI dom_map_of_conv_image_fst)
  show ?thesis
    by (rule lru_get_mut_Some [OF assms(1) Some, of "\<lambda>e. e\<lparr>ce_last_used := now\<rparr>"])
      (use touch_remembers [OF assms(2) u] assms(3) in \<open>simp add: track_connection_attempt_def\<close>)
next
  case None
  let ?c = "tm_connection_stats m" and ?e = "\<lparr>ce_last_used = now, ce_connection_count = 0\<rparr>"
  let ?xs = "take (Suc n) (latest h)"
  have uses: "cache_uses lib m = ?xs" and cap: "unat (ml_cap lib ?c) = Suc n"
    using assms(2) by (simp_all add: remembers_def)
  have u: "u \<notin> fst ` set ?xs"
    using None keys_cache_uses [of lib m] by (simp add: map_of_absent uses)
  have len: "length (ml_iter lib ?c) = length ?xs"
    using uses by (metis cache_uses_def length_map)
  have "cache_uses lib (track_connection_attempt lib now u m) =
      (u, now) # (if length ?xs < Suc n then ?xs else butlast ?xs)"
    using None uses
    by (simp add: track_connection_attempt_def lru_get_mut_None [OF assms(1)] lru_put [OF assms(1)]
        map_of_absent cache_uses_def len cap map_butlast)
  also have "(if length ?xs < Suc n then ?xs else butlast ?xs) = take n ?xs"
    by (simp add: butlast_conv_take min_def)
  also have "\<dots> = take n (take (Suc n) (without u (latest h)))"
    by (simp only: take_without_absent [OF u])
  finally have "cache_uses lib (track_connection_attempt lib now u m) = take (Suc n) (latest ((u, now) # h))"
    by (simp add: min_def)
  moreover have "ml_cap lib (tm_connection_stats (track_connection_attempt lib now u m)) = ml_cap lib ?c"
    using None by (simp add: track_connection_attempt_def lru_get_mut_None [OF assms(1)] lru_put [OF assms(1)])
  ultimately show ?thesis
    using assms(2,3) by (fastforce simp: remembers_def newest_first_def track_connection_attempt_def)
qed

lemma success_remembers:
  assumes "manager_laws lib" and "remembers lib (Suc n) ttl clock h m" and "clock \<le> now"
  shows "remembers lib (Suc n) ttl now (log_event (Suc n) ttl (Success u, now) h)
    (track_successful_connection lib now u m)"
proof (cases "map_of (ml_iter lib (tm_connection_stats m)) u")
  case (Some e)
  let ?f = "\<lambda>e. e\<lparr>ce_connection_count := ce_connection_count e + 1, ce_last_used := now\<rparr>"
  from Some have u: "u \<in> fst ` set (cache_uses lib m)"
    by (simp add: keys_cache_uses) (metis domI dom_map_of_conv_image_fst)
  have "u \<in> fst ` set (take (Suc n) (latest h))"
    using u assms(2) by (simp add: remembers_def)
  then show ?thesis
    by (rule_tac lru_get_mut_Some [OF assms(1) Some, of ?f])
      (use touch_remembers [OF assms(2) u, where e = "?f e"] assms(3) in
        \<open>simp add: track_successful_connection_def\<close>)
next
  case None
  then have "u \<notin> fst ` set (take (Suc n) (latest h))"
    using assms(2) keys_cache_uses [of lib m] by (simp add: map_of_absent remembers_def)
  with None assms(2,3) show ?thesis
    by (fastforce simp: track_successful_connection_def lru_get_mut_None [OF assms(1)] remembers_def cache_uses_def)
qed

lemma clean_remembers:
  assumes "manager_laws lib" and "remembers lib n ttl clock h m" and "clock \<le> now"
  shows "remembers lib n ttl now (filter (unexpired ttl now) h) (cleanup_expired_entries lib now m)"
proof -
  let ?m' = "cleanup_expired_entries lib now m"
  have uses: "cache_uses lib m = take n (latest h)" and nf: "newest_first h" and ttl: "tm_cache_ttl m = ttl"
    using assms(2) by (simp_all add: remembers_def)
  have "map fst (ml_iter lib (tm_connection_stats m)) = map fst (cache_uses lib m)"
    by (simp add: cache_uses_def comp_def)
  then have "distinct (map fst (ml_iter lib (tm_connection_stats m)))"
    using distinct_take_latest [of n h] uses by simp
  from cleanup_exact [OF assms(1) this, of now]
  have "cache_uses lib ?m' = filter (unexpired ttl now) (cache_uses lib m)"
    by (simp add: cache_uses_def filter_map comp_def is_active_def unexpired_def ttl)
  also have "\<dots> = take n (latest (filter (unexpired ttl now) h))"
    by (simp add: uses filter_take_newest [OF newest_first_latest [OF nf]] filter_latest [OF nf])
  finally have "cache_uses lib ?m' = take n (latest (filter (unexpired ttl now) h))" .
  moreover have "ml_cap lib (tm_connection_stats ?m') = ml_cap lib (tm_connection_stats m)"
    using lru_pops [OF assms(1)] by (simp add: cleanup_expired_entries_def Let_def)
  moreover have "newest_first (filter (unexpired ttl now) h)"
    using nf by (simp add: newest_first_def sorted_wrt_filter)
  ultimately show ?thesis
    using assms(2,3) by (fastforce simp: remembers_def cleanup_expired_entries_def Let_def)
qed

lemma event_remembers:
  assumes "manager_laws lib" and "remembers lib (Suc n) ttl clock h m" and "clock \<le> now"
  shows "remembers lib (Suc n) ttl now (log_event (Suc n) ttl (ev, now) h) (run_event lib (ev, now) m)"
proof (cases ev)
  case Clear
  with assms show ?thesis
    by (simp add: remembers_def manager_clear_cache_def cache_uses_def lru_simps [OF assms(1)] newest_first_def)
qed (use assms attempt_remembers success_remembers clean_remembers in
    \<open>simp_all del: log_event.simps(2)\<close>)

lemma events_remember:
  assumes "manager_laws lib"
  shows "sorted_wrt (\<le>) (clock # map snd evs) \<Longrightarrow> remembers lib (Suc n) ttl clock h m \<Longrightarrow>
    \<exists>clock'. remembers lib (Suc n) ttl clock' (fold (log_event (Suc n) ttl) evs h) (fold (run_event lib) evs m)"
proof (induction evs arbitrary: clock h m)
  case (Cons e evs)
  obtain ev now where e: "e = (ev, now)"
    by fastforce
  show ?case
    using Cons.IH [OF _ event_remembers [OF assms Cons.prems(2)], of now ev] Cons.prems(1)
    by (simp add: e)
qed auto

section \<open>Property\<close>

text \<open>
  C18. The statistics are a log with bounded memory: after any sequence of attempts,
  successes, clean-ups and clearings, at instants that do not go back, the tracked URLs are
  the most recently used ones, as many as the cache was made for, each with the instant of
  its last use and the latest first; what was evicted, cleaned up or cleared is what the log
  of all uses puts after them, has let expire or was forgotten with it.
\<close>

theorem statistics_recency:
  assumes "manager_laws lib" and "sorted (map snd evs)"
  shows "cache_uses lib (fold (run_event lib) evs (manager_with_cache_config lib ops cap ttl)) =
    take (max (unat cap) 1) (latest (fold (log_event (max (unat cap) 1) ttl) evs []))"
proof -
  let ?m = "manager_with_cache_config lib ops cap ttl"
  obtain n where n: "max (unat cap) 1 = Suc n"
    by (metis max.cobounded2 One_nat_def Suc_le_D)
  then have "unat (max cap 1) = Suc n"
    by (simp only: unat_max_1)
  moreover have "tm_connection_stats ?m = ml_lru_new lib (max cap 1)" and "tm_cache_ttl ?m = ttl"
    by (simp_all add: manager_with_cache_config_def register_default_transports_def
        register_transport_def Let_def)
  ultimately have "remembers lib (Suc n) ttl 0 [] ?m"
    by (simp add: remembers_def cache_uses_def lru_simps [OF assms(1)] newest_first_def)
  with events_remember [OF assms(1), of 0 evs] assms(2) show ?thesis
    unfolding n by (fastforce simp: remembers_def)
qed

text \<open>Of three URLs, a cache of two forgets the one that was not used again.\<close>

theorem statistics_recency_witness:
  "map fst (cache_uses demo_manager_lib (fold (run_event demo_manager_lib)
     [(Attempt ''a'', 3), (Attempt ''b'', 4), (Success ''a'', 5), (Attempt ''c'', 6), (CleanUp, 7)]
     (manager_with_cache_config demo_manager_lib demo_ops 2 9))) = [''c'', ''a'']"
proof -
  let ?evs = "[(Attempt ''a'', 3 :: instant), (Attempt ''b'', 4), (Success ''a'', 5), (Attempt ''c'', 6), (CleanUp, 7)]"
  have "sorted (map snd ?evs)" by simp
  moreover have "max (unat (2 :: usize)) 1 = 2"
    by simp
  moreover have "map fst (take 2 (latest (fold (log_event 2 9) ?evs []))) = [''c'', ''a'']"
    by (simp add: without_def unexpired_def)
  ultimately show ?thesis
    by (simp only: statistics_recency [OF demo_manager_laws])
qed

end
