(* ===== verification/Websocket_Session.thy ===== *)
theory Websocket_Session
  imports Websocket_Transport Codecs
begin

text \<open>
  A session over WebSocket: what a codec writes goes out with \<open>poll_write\<close>, one WebSocket
  message for each write, comes in with \<open>poll_read\<close>, and goes through the decoder. The
  connection itself is a parameter, of which only its order of messages is used.
\<close>

section \<open>The connection\<close>

text \<open>
  \<open>outbox\<close> is what an endpoint was given to send, \<open>inbox\<close> what it has yet to hand out.
\<close>

definition ws_conn_laws ::
  "('s, 'l, 't) ws_lib \<Rightarrow> ('s \<Rightarrow> ws_message list) \<Rightarrow> ('s \<Rightarrow> ws_message list) \<Rightarrow> bool" where
  "ws_conn_laws lib outbox inbox \<longleftrightarrow>
     (\<forall>s s' r. wl_ready lib s = (s', Ready (Inr r)) \<longrightarrow> outbox s' = outbox s) \<and>
     (\<forall>m s s' r. wl_start_send lib m s = (s', Inr r) \<longrightarrow> outbox s' = outbox s @ [m]) \<and>
     (\<forall>s m ms. inbox s = m # ms \<longrightarrow> (\<exists>s'. wl_next lib s = (s', Ready (Some (Inr m))) \<and> inbox s' = ms))"

text \<open>Writes of whole buffers, as long as they are accepted.\<close>

fun ws_writes :: "('s, 'l, 't) ws_lib \<Rightarrow> 's ws_stream \<Rightarrow> bytes list \<Rightarrow> 's ws_stream \<times> bool" where
  "ws_writes lib s [] = (s, True)"
| "ws_writes lib s (w # ws) =
     (case ws_poll_write lib s w of
        (s', Ready (Ok n)) \<Rightarrow> ws_writes lib s' ws
      | (s', _) \<Rightarrow> (s', False))"

text \<open>Reads into fresh buffers with the given room each.\<close>

fun ws_reads ::
  "('s, 'l, 't) ws_lib \<Rightarrow> 's ws_stream \<Rightarrow> nat list \<Rightarrow> 's ws_stream \<times> (bytes list, io_error) res" where
  "ws_reads lib s [] = (s, Ok [])"
| "ws_reads lib s (n # ns) =
     (case ws_poll_read lib s \<lparr>rb_filled = [], rb_remaining = n\<rparr> of
        (s', Pending) \<Rightarrow> (s', Ok [])
      | (s', Ready r) \<Rightarrow>
          (case r of
             Ok buf \<Rightarrow>
               (case ws_reads lib s' ns of
                  (s'', rest) \<Rightarrow> (s'', res_bind rest (\<lambda>bss. Ok (rb_filled buf # bss))))
           | Err e \<Rightarrow> (s', Err e)
           | Panic \<Rightarrow> (s', Panic)))"

lemma ws_write_sent:
  assumes "ws_conn_laws lib outbox inbox" and "ws_poll_write lib s w = (s', Ready (Ok n))"
  shows "outbox (wst_stream s') = outbox (wst_stream s) @ [WsBinary w]"
proof -
  obtain s1 s2 a b where "wl_ready lib (wst_stream s) = (s1, Ready (Inr a))"
    and "wl_start_send lib (WsBinary w) s1 = (s2, Inr b)" and "wst_stream s' = s2"
    using assms(2) by (auto simp: ws_poll_write_def split: prod.splits wait.splits sum.splits)
  with assms(1) show ?thesis
    unfolding ws_conn_laws_def by metis
qed

lemma ws_writes_sent:
  assumes "ws_conn_laws lib outbox inbox"
  shows "ws_writes lib s ws = (s', True) \<Longrightarrow>
    outbox (wst_stream s') = outbox (wst_stream s) @ map WsBinary ws"
proof (induction ws arbitrary: s)
  case (Cons w ws)
  then obtain s1 n where "ws_poll_write lib s w = (s1, Ready (Ok n))" and "ws_writes lib s1 ws = (s', True)"
    by (auto split: prod.splits wait.splits res.splits)
  with Cons.IH ws_write_sent [OF assms] show ?case by simp
qed simp

lemma ws_reads_outcome:
  assumes "ws_conn_laws lib outbox inbox"
  shows "inbox (wst_stream s) = map WsBinary ws \<Longrightarrow> length rooms = length ws \<Longrightarrow>
    snd (ws_reads lib s rooms) = (if list_all2 (\<lambda>w n. length w \<le> n) ws rooms then Ok ws else Panic)"
proof (induction ws arbitrary: s rooms)
  case (Cons w ws)
  then obtain n ns where rooms: "rooms = n # ns" and ns: "length ns = length ws"
    by (cases rooms) auto
  obtain s1 where next_item: "wl_next lib (wst_stream s) = (s1, Ready (Some (Inr (WsBinary w))))"
    and inbox: "inbox s1 = map WsBinary ws"
    using assms Cons.prems(1) unfolding ws_conn_laws_def by (metis list.simps(9))
  have "snd (ws_reads lib (s\<lparr>wst_stream := s1\<rparr>) ns) =
      (if list_all2 (\<lambda>w n. length w \<le> n) ws ns then Ok ws else Panic)"
    using Cons.IH [of "s\<lparr>wst_stream := s1\<rparr>" ns] inbox ns by simp
  then show ?case
    using next_item by (simp add: rooms ws_poll_read_def put_slice_def split_beta)
qed simp

section \<open>Properties\<close>

text \<open>
  C8. A session over WebSocket. Messages that a codec encodes, handed to \<open>poll_write\<close> in any
  pieces, arrive as one WebSocket message for each piece; when every read leaves room for
  the piece it gets, the decoder yields the messages that were sent, in their number and
  order and with nothing left over; as soon as one read leaves less room, the reading
  process aborts.
\<close>

theorem ws_session:
  fixes d :: "'v deps"
  assumes "ws_conn_laws lib outbox inbox" and "nom_laws d" and "\<forall>rm \<in> set rms. encodable d rm"
    and "encode_all (codec_encode_raw d codec) rms [] = (bs, Ok ())" and "concat ws = bs"
    and "\<forall>w \<in> set ws. length w + 34 \<le> 2 ^ 30"
    and "\<forall>rm \<in> set rms. \<forall>b. to_bytes d rm = Ok b \<longrightarrow> (\<forall>w \<in> set ws. length b + length w \<le> 2 ^ 30)"
    and "ws_writes lib s ws = (s', True)" and "outbox (wst_stream s) = []"
    and "inbox (wst_stream r) = outbox (wst_stream s')" and "length rooms = length ws"
  shows "if list_all2 (\<lambda>w n. length w \<le> n) ws rooms
    then \<exists>reads. \<exists>ms :: ('v, 'd) message list. snd (ws_reads lib r rooms) = Ok reads \<and>
      feed (decoder_decode d) decoder [] reads [] = Some ((decoder, []), Ok ms) \<and>
      list_all2 (\<lambda>rm m. into_message d rm = Ok m) rms ms
    else snd (ws_reads lib r rooms) = Panic"
proof -
  have "inbox (wst_stream r) = map WsBinary ws"
    using ws_writes_sent [OF assms(1,8)] assms(9,10) by simp
  note reads = ws_reads_outcome [OF assms(1) this assms(11)]
  show ?thesis
    using codec_delivers [OF assms(2-7)] by (auto simp: reads)
qed

lemma demo_conn_laws: "ws_conn_laws demo_ws_lib (\<lambda>s. s) (\<lambda>s. s)"
  by (auto simp: ws_conn_laws_def demo_ws_lib_def)

theorem ws_session_witness:
  "\<exists>ms :: (nat, nat) message list.
     feed (decoder_decode demo_deps) decoder [] [take 20 (frame_bytes demo_frame), drop 20 (frame_bytes demo_frame)] [] =
       Some ((decoder, []), Ok ms) \<and> length ms = 1"
proof -
  let ?ws = "[take 20 (frame_bytes demo_frame), drop 20 (frame_bytes demo_frame)]"
  let ?s = "demo_ws_stream []" and ?r = "demo_ws_stream (map WsBinary ?ws)"
  note sent = demo_raw_to_bytes
  moreover have "usize_len (frame_bytes demo_frame) \<le> c_max_frame_size codec"
    by (simp add: usize_len_def codec_def codec_new_def DEFAULT_MAX_MESSAGE_SIZE_def)
  ultimately have written: "encode_all (codec_encode_raw demo_deps codec) [demo_raw] [] = (concat ?ws, Ok ())"
    by (simp add: codec_raw.accepts)
  have out: "ws_writes demo_ws_lib ?s ?ws = (?r, True)"
    by (simp add: demo_ws_lib_def demo_ws_stream_def ws_stream_new_def ws_poll_write_def)
  have boxes: "wst_stream ?s = []" "wst_stream ?r = map WsBinary ?ws"
    by (simp_all add: demo_ws_stream_def ws_stream_new_def)
  have reads: "snd (ws_reads demo_ws_lib ?r [20, 40]) = Ok ?ws"
    using ws_reads_outcome [OF demo_conn_laws boxes(2), of "[20, 40]"] by simp
  from ws_session [OF demo_conn_laws nom_laws_demo _ written refl _ _ out boxes(1) refl, of "[20, 40]", where 'd = nat]
  obtain ms :: "(nat, nat) message list" where
    "feed (decoder_decode demo_deps) decoder [] ?ws [] = Some ((decoder, []), Ok ms)"
    "list_all2 (\<lambda>rm m. into_message demo_deps rm = Ok m) [demo_raw] ms"
    using demo_raw_encodable sent reads by auto
  then show ?thesis
    by (auto dest: list_all2_lengthD)
qed

end
