(* ===== verification/Protocol_Tests.thy ===== *)
theory Protocol_Tests
  imports Codecs Message_Builder "HOL-Library.Monad_Syntax"
begin

text \<open>
  The unit tests of the protocol crate (the modules \<open>tests\<close> of \<open>message.rs\<close>, \<open>builder.rs\<close>,
  \<open>codec.rs\<close> and \<open>parser.rs\<close>), run on the model. A test is a computation that returns or
  panics; it passes if it returns. The tests take the MessagePack functions as a parameter,
  so that a test that passes here passes for every library that handles its inputs.
\<close>

section \<open>Running a test\<close>

type_synonym test = "unit option"

abbreviation passes :: "test \<Rightarrow> bool" where
  "passes t \<equiv> t = Some ()"

text \<open>\<open>Result::unwrap\<close>, \<open>assert!\<close> and an index: \<open>None\<close> is the panic that fails the test.\<close>

primrec unwrap :: "('a, 'e) res \<Rightarrow> 'a option" where
  "unwrap (Ok x) = Some x"
| "unwrap (Err e) = None"
| "unwrap Panic = None"

definition unwrap_state :: "'s \<times> ('a, 'e) res \<Rightarrow> ('s \<times> 'a) option" where
  "unwrap_state p = map_option (Pair (fst p)) (unwrap (snd p))"

definition assert_that :: "bool \<Rightarrow> test" where
  "assert_that b = (if b then Some () else None)"

definition index_at :: "'a list \<Rightarrow> nat \<Rightarrow> 'a option" where
  "index_at xs i = (if i < length xs then Some (xs ! i) else None)"

lemma test_steps [simp]:
  "unwrap_state (s, r) = map_option (Pair s) (unwrap r)"
  "assert_that True = Some ()" "assert_that False = None"
  by (simp_all add: unwrap_state_def assert_that_def)

lemma assert_bind [simp]: "assert_that b \<bind> f = Some x \<longleftrightarrow> b \<and> f () = Some x"
  by (cases b) simp_all

lemma assert_passes [simp]: "assert_that b = Some u \<longleftrightarrow> b"
  by (cases b) simp_all

section \<open>\<open>message.rs\<close>\<close>

text \<open>\<open>payload\<close> is the outcome of serialising the JSON value of the test, here and below.\<close>

definition test_message_lazy_parsing :: "'v deps \<Rightarrow> 'd itself \<Rightarrow> string + bytes \<Rightarrow> test" where
  "test_message_lazy_parsing d ty payload = do {
     raw \<leftarrow> unwrap (raw_message_new Publish 1000 (header_with_topic header_new ''test'') payload);
     (message :: ('v, 'd) message) \<leftarrow> unwrap (into_message d raw);
     assert_that (m_message_type message = Publish);
     assert_that (m_client_id message = 1000);
     assert_that (\<not> is_header_cached message);
     assert_that (\<not> is_payload_cached message);
     (message, header) \<leftarrow> unwrap_state (m_header d message);
     assert_that (h_topic header = Some ''test'');
     assert_that (is_header_cached message);
     (message, payload) \<leftarrow> unwrap_state (m_payload d message);
     assert_that (is_payload_cached message)
   }"

section \<open>\<open>builder.rs\<close>\<close>

definition test_join_message_builder :: "'v deps \<Rightarrow> test" where
  "test_join_message_builder d = do {
     message \<leftarrow> unwrap (build d (mb_auth_token (mb_join CLIENT_ID_UNASSIGNED ''test-client'') ''test-token''));
     assert_that (rm_message_type message = Join);
     assert_that (rm_client_id message = CLIENT_ID_UNASSIGNED);
     assert_that (h_auth (rm_header message) \<noteq> None);
     assert_that (h_client_name (rm_header message) = Some ''test-client'')
   }"

definition test_response_message_builder :: "'v deps \<Rightarrow> test" where
  "test_response_message_builder d = do {
     message \<leftarrow> unwrap (build d
       (mb_with_status (mb_response 2000 ''requester-service'' ''test-id'' ''/api/test'' 1000) STATUS_OK));
     assert_that (rm_message_type message = Response);
     assert_that (rm_client_id message = 2000);
     routing \<leftarrow> h_routing (rm_header message);
     assert_that (length routing = 1);
     route \<leftarrow> index_at routing 0;
     assert_that (r_client_name route = ''requester-service'');
     assert_that (r_client_id route = Some 1000);
     assert_that (r_path route = ''/api/test'');
     reqrep \<leftarrow> h_reqrep (rm_header message);
     assert_that (rr_type reqrep = Correlation);
     assert_that (rr_id reqrep = ''test-id'');
     assert_that (h_status (rm_header message) = Some STATUS_OK)
   }"

definition test_publish_subscribe_builder :: "'v deps \<Rightarrow> string + bytes \<Rightarrow> test" where
  "test_publish_subscribe_builder d payload = do {
     publish \<leftarrow> unwrap (build_with_payload (mb_with_topic (mb_new Publish 1000) ''news.updates'') payload);
     assert_that (rm_message_type publish = Publish);
     assert_that (h_topic (rm_header publish :: 'v header) = Some ''news.updates'');
     subscribe \<leftarrow> unwrap (build d (mb_with_topic (mb_new Subscribe 2000) ''news.updates''));
     assert_that (rm_message_type subscribe = Subscribe);
     assert_that (h_topic (rm_header subscribe) = Some ''news.updates'')
   }"

definition test_validation :: "'v deps \<Rightarrow> test" where
  "test_validation d = do {
     let valid_request = build d
       (mb_as_request (mb_request 1000 ''service'' ''/api/test'' (Some 2000)) ''test-id'');
     assert_that (is_ok valid_request);
     let invalid_request = build d (mb_as_request (mb_new Request 1000) ''test-id'');
     assert_that (is_err invalid_request);
     let invalid_request = build d
       (mb_with_topic (mb_as_request (mb_request 1000 ''service'' ''/api/test'' (Some 2000)) ''test-id'')
         ''forbidden'');
     assert_that (is_err invalid_request)
   }"

section \<open>\<open>codec.rs\<close>\<close>

definition test_codec_roundtrip :: "'v deps \<Rightarrow> 'd itself \<Rightarrow> string + bytes \<Rightarrow> test" where
  "test_codec_roundtrip d ty payload = do {
     let codec = codec_new;
     raw_message \<leftarrow> unwrap (build_with_payload (mb_simple_publish 1000 ''test.topic'') payload);
     (buffer, _) \<leftarrow> unwrap_state (codec_encode_raw d codec raw_message []);
     ((codec, buffer), decoded) \<leftarrow> unwrap_state (codec_decode d codec buffer);
     (decoded :: ('v, 'd) message) \<leftarrow> decoded;
     assert_that (m_message_type decoded = Publish);
     assert_that (m_client_id decoded = 1000);
     (decoded, header) \<leftarrow> unwrap_state (m_header d decoded);
     assert_that (h_topic header = Some ''test.topic'')
   }"

definition test_decoder_only :: "'v deps \<Rightarrow> 'd itself \<Rightarrow> test" where
  "test_decoder_only d ty = do {
     let decoder = decoder_new;
     raw_message \<leftarrow> unwrap (build d (mb_simple_subscribe 2000 ''test.topic''));
     bytes \<leftarrow> unwrap (to_bytes d raw_message);
     let buffer = bytes;
     ((decoder, buffer), decoded) \<leftarrow> unwrap_state (decoder_decode d decoder buffer);
     (decoded :: ('v, 'd) message) \<leftarrow> decoded;
     assert_that (m_message_type decoded = Subscribe);
     assert_that (m_client_id decoded = 2000)
   }"

definition test_encoder_only :: "'v deps \<Rightarrow> test" where
  "test_encoder_only d = do {
     let encoder = encoder_new;
     raw_message \<leftarrow> unwrap (build d (mb_with_topic (mb_publish 3000) ''hello''));
     (buffer, _) \<leftarrow> unwrap_state (encoder_encode_raw d encoder raw_message []);
     assert_that (buffer \<noteq> []);
     version \<leftarrow> index_at buffer 0;
     assert_that (version = PROTOCOL_VERSION);
     message_type \<leftarrow> index_at buffer 1;
     assert_that (message_type = message_type_to_u8 Publish)
   }"

definition test_streaming_parse :: "'v deps \<Rightarrow> 'd itself \<Rightarrow> test" where
  "test_streaming_parse d ty = do {
     let codec = codec_new;
     msg1 \<leftarrow> unwrap (build d (mb_simple_publish 1000 ''topic1''));
     msg2 \<leftarrow> unwrap (build d (mb_simple_publish 2000 ''topic2''));
     (buffer1, _) \<leftarrow> unwrap_state (codec_encode_raw d codec msg1 []);
     (buffer2, _) \<leftarrow> unwrap_state (codec_encode_raw d codec msg2 []);
     let combined = buffer1 @ buffer2;
     ((codec, combined), decoded1) \<leftarrow> unwrap_state (codec_decode d codec combined);
     (decoded1 :: ('v, 'd) message) \<leftarrow> decoded1;
     ((codec, combined), decoded2) \<leftarrow> unwrap_state (codec_decode d codec combined);
     (decoded2 :: ('v, 'd) message) \<leftarrow> decoded2;
     ((codec, combined), decoded3 :: ('v, 'd) message option) \<leftarrow> unwrap_state (codec_decode d codec combined);
     assert_that (m_client_id decoded1 = 1000);
     assert_that (m_client_id decoded2 = 2000);
     assert_that (decoded3 = None)
   }"

definition test_size_limits :: "'v deps \<Rightarrow> string + bytes \<Rightarrow> test" where
  "test_size_limits d large_payload = do {
     let codec = codec_with_limits 100 50;
     raw_message \<leftarrow> unwrap (build_with_payload (mb_simple_publish 1000 ''test'') large_payload);
     let (buffer, result) = codec_encode_raw d codec raw_message [];
     assert_that (is_err result);
     assert_that (case result of Err (MessageTooLarge _ _) \<Rightarrow> True | _ \<Rightarrow> False)
   }"

section \<open>\<open>parser.rs\<close>\<close>

definition test_base_header_parsing :: "'v deps \<Rightarrow> test" where
  "test_base_header_parsing d = do {
     raw \<leftarrow> unwrap (raw_message_new Publish 1000 (header_with_topic header_new ''test'')
       (rmp_value_write d (rmpv_nil d)));
     bytes \<leftarrow> unwrap (to_bytes d raw);
     base_header \<leftarrow> unwrap (parse_base_header d bytes);
     assert_that (bh_version base_header = PROTOCOL_VERSION);
     assert_that (bh_message_type base_header = Publish);
     assert_that (bh_client_id base_header = 1000)
   }"

text \<open>\<open>chunks_of(n)\<close> of a slice, and the loop that pushes them.\<close>

fun chunks_of :: "nat \<Rightarrow> 'a list \<Rightarrow> 'a list list" where
  "chunks_of 0 xs = []"
| "chunks_of n [] = []"
| "chunks_of n xs = take n xs # chunks_of n (drop n xs)"

primrec push_chunks :: "message_parser \<Rightarrow> bytes list \<Rightarrow> message_parser option" where
  "push_chunks parser [] = Some parser"
| "push_chunks parser (chunk # rest) = do {
     (parser, _) \<leftarrow> unwrap_state (push_data parser chunk);
     push_chunks parser rest
   }"

definition test_streaming_parser :: "'v deps \<Rightarrow> 'd itself \<Rightarrow> string + bytes \<Rightarrow> test" where
  "test_streaming_parser d ty payload = do {
     raw \<leftarrow> unwrap (raw_message_new Publish 1000 (header_with_topic header_new ''test'') payload);
     bytes \<leftarrow> unwrap (to_bytes d raw);
     let parser = parser_new;
     let chunk_size = 10;
     parser \<leftarrow> push_chunks parser (chunks_of chunk_size bytes);
     (parser, message) \<leftarrow> unwrap_state (try_parse d parser);
     (message :: ('v, 'd) message) \<leftarrow> message;
     assert_that (m_message_type message = Publish);
     assert_that (m_client_id message = 1000);
     (message, header) \<leftarrow> unwrap_state (m_header d message);
     assert_that (h_topic header = Some ''test'')
   }"

definition test_message_validation :: "'v itself \<Rightarrow> test" where
  "test_message_validation ty = do {
     let (header :: 'v header) = header_with_reqrep (header_with_route header_new ''client-1234'' ''/api/test'')
       \<lparr>rr_type = RequestType, rr_id = ''test-id''\<rparr>;
     unwrap (validate_message_structure Request header);
     let (header :: 'v header) = header_with_reqrep header_new \<lparr>rr_type = RequestType, rr_id = ''test-id''\<rparr>;
     let result = validate_message_structure Request header;
     assert_that (is_err result);
     assert_that (case result of Err (MissingRequiredField _ _) \<Rightarrow> True | _ \<Rightarrow> False)
   }"

definition test_peek_message_info :: "'v deps \<Rightarrow> test" where
  "test_peek_message_info d = do {
     raw \<leftarrow> unwrap (raw_message_new Subscribe 5678 (header_with_topic header_new ''test'')
       (rmp_value_write d (rmpv_nil d)));
     bytes \<leftarrow> unwrap (to_bytes d raw);
     (msg_type, client_id) \<leftarrow> unwrap (peek_message_info bytes);
     assert_that (msg_type = Subscribe);
     assert_that (client_id = 5678)
   }"

section \<open>What the tests send\<close>

text \<open>
  A header that the MessagePack library writes in at most 200 bytes and reads back, and a
  message with such a header and a payload of at most 300 bytes.
\<close>

definition travels :: "'v deps \<Rightarrow> 'v header \<Rightarrow> bool" where
  "travels d h \<longleftrightarrow>
     (\<exists>hb. rmp_header_to_vec d h = Inr hb \<and> hb \<noteq> [] \<and> length hb \<le> 200 \<and> rmp_header_from_slice d hb = Inr h)"

definition sample :: "'v deps \<Rightarrow> 'v raw_message \<Rightarrow> bool" where
  "sample d rm \<longleftrightarrow> h_topic (rm_header rm) \<noteq> None \<and> travels d (rm_header rm) \<and> length (rm_payload_data rm) \<le> 300"

abbreviation frame_of :: "'v deps \<Rightarrow> 'v raw_message \<Rightarrow> bytes" where
  "frame_of d rm \<equiv> frame_bytes (sent_frame d rm)"

abbreviation message_of :: "'v deps \<Rightarrow> 'v raw_message \<Rightarrow> ('v, 'd) message" where
  "message_of d rm \<equiv> frame_message (sent_frame d rm)"

lemma sample_frame:
  fixes d :: "'v deps"
  assumes "nom_laws d" and "sample d rm"
  shows "to_bytes d rm = Ok (frame_of d rm)" and "frame_ok default_limits (sent_frame d rm)"
    and "length (frame_of d rm) \<le> 534" and "34 + length (rm_payload_data rm) \<le> length (frame_of d rm)"
    and "encodable d rm" and "decodes_back d (rm_header rm)"
    and "\<exists>rest. frame_of d rm = base_header_bytes (fst (sent_frame d rm)) @ rest"
    and "wf_base_header (fst (sent_frame d rm))"
    and "bh_message_type (fst (sent_frame d rm)) = rm_message_type rm"
    and "bh_client_id (fst (sent_frame d rm)) = rm_client_id rm"
proof -
  obtain hb where hb: "rmp_header_to_vec d (rm_header rm) = Inr hb" "hb \<noteq> []" "length hb \<le> 200"
      "rmp_header_from_slice d hb = Inr (rm_header rm)" and payload: "length (rm_payload_data rm) \<le> 300"
    using assms(2) by (auto simp: sample_def travels_def)
  have "h_topic (rm_header rm) \<noteq> None"
    using assms(2) by (simp add: sample_def)
  then have "rm_header rm \<noteq> header_default"
    by (auto simp: header_default_def header_new_def)
  with hb(1) have vec: "header_bytes_of d (rm_header rm) = Ok hb"
    by (simp add: header_bytes_of_def)
  have size: "length hb \<le> 65536" "wire_size rm hb \<le> 2 ^ 30"
    using hb(3) payload by (simp_all add: wire_size_def)
  show enc: "encodable d rm"
    using vec hb(3) payload by (simp add: encodable_def rust_sized_def)
  show "decodes_back d (rm_header rm)"
    using hb by (auto simp: decodes_back_def)
  have f: "sent_frame d rm = (wire_header rm hb, hb @ rm_payload_data rm)"
    by (simp add: sent_frame_def vec)
  have sized: "length hb < 2 ^ 32" "rust_sized (rm_payload_data rm)"
    using hb(3) payload by (simp_all add: rust_sized_def)
  show "to_bytes d rm = Ok (frame_of d rm)"
    using size by (simp add: to_bytes_eq [OF vec sized] f frame_bytes_def)
  show "frame_ok default_limits (sent_frame d rm)"
    using wire_frame_ok [OF size] by (simp add: f)
  have "length (frame_of d rm) = wire_size rm hb"
    using wire_message(1) [OF size] by (simp add: f frame_bytes_def)
  with hb(3) payload show "length (frame_of d rm) \<le> 534" "34 + length (rm_payload_data rm) \<le> length (frame_of d rm)"
    by (simp_all add: wire_size_def)
  show "\<exists>rest. frame_of d rm = base_header_bytes (fst (sent_frame d rm)) @ rest"
    by (simp add: frame_bytes_def)
  show "wf_base_header (fst (sent_frame d rm))" "bh_message_type (fst (sent_frame d rm)) = rm_message_type rm"
    "bh_client_id (fst (sent_frame d rm)) = rm_client_id rm"
    using wire_header_simps [OF size] by (simp_all add: f)
qed

lemma sample_message:
  fixes d :: "'v deps"
  assumes "nom_laws d" and "sample d rm"
  shows "into_message d rm = Ok (message_of d rm :: ('v, 'd) message)"
    and "m_message_type (message_of d rm :: ('v, 'd) message) = rm_message_type rm"
    and "m_client_id (message_of d rm :: ('v, 'd) message) = rm_client_id rm"
    and "unwrap_state (m_header d (message_of d rm :: ('v, 'd) message)) =
      Some ((message_of d rm)\<lparr>m_header_cache := Some (rm_header rm)\<rparr>, rm_header rm)"
    and "raw_payload_bytes (message_of d rm :: ('v, 'd) message) = Ok (rm_payload_data rm)"
proof -
  note s = sample_frame [OF assms]
  show arrived: "into_message d rm = Ok (message_of d rm :: ('v, 'd) message)"
    by (rule sent_frame(3) [OF assms(1) s(5,1)])
  note reads = received_reads_back [OF assms(1) s(5,6) arrived]
  show "m_message_type (message_of d rm :: ('v, 'd) message) = rm_message_type rm"
    and "m_client_id (message_of d rm :: ('v, 'd) message) = rm_client_id rm"
    and "raw_payload_bytes (message_of d rm :: ('v, 'd) message) = Ok (rm_payload_data rm)"
    by (rule reads)+
  have "m_header_cache (message_of d rm :: ('v, 'd) message) = None"
    by (simp add: frame_message_def)
  with reads(3) show "unwrap_state (m_header d (message_of d rm :: ('v, 'd) message)) =
      Some ((message_of d rm)\<lparr>m_header_cache := Some (rm_header rm)\<rparr>, rm_header rm)"
    by (auto simp: m_header_def get_or_try_init_def split: res.splits)
qed

lemma sample_encoded:
  fixes d :: "'v deps"
  assumes "nom_laws d" and "sample d rm"
  shows "codec_encode_raw d codec_new rm dst = (dst @ frame_of d rm, Ok ())"
    and "encoder_encode_raw d encoder_new rm dst = (dst @ frame_of d rm, Ok ())"
proof -
  note s = sample_frame [OF assms]
  have "\<not> usize_len (frame_of d rm) > DEFAULT_MAX_MESSAGE_SIZE"
    using s(3) by (simp add: word_less_nat_alt unat_usize_len DEFAULT_MAX_MESSAGE_SIZE_def)
  with s(1) show "codec_encode_raw d codec_new rm dst = (dst @ frame_of d rm, Ok ())"
    "encoder_encode_raw d encoder_new rm dst = (dst @ frame_of d rm, Ok ())"
    by (simp_all add: codec_encode_raw_def encoder_encode_raw_def put_frame_def codec_new_def encoder_new_def)
qed

text \<open>A codec that holds one sample, with what the tests ask of it.\<close>

lemma sample_decoded:
  fixes d :: "'v deps"
  assumes "nom_laws d" and "sample d rm" and "length rest \<le> 534" and "held @ src = frame_of d rm @ rest"
  shows "codec_decode d (codec_state default_limits held) src =
      ((codec_state default_limits rest, []), Ok (Some (message_of d rm :: ('v, 'd) message)))"
    and "decoder_decode d (decoder_state default_limits held) src =
      ((decoder_state default_limits rest, []), Ok (Some (message_of d rm :: ('v, 'd) message)))"
proof -
  note s = sample_frame [OF assms(1,2)]
  have frame: "takes_frame d default_limits (sent_frame d rm)"
    using assms(1) s(2) by (simp add: takes_frame_def)
  have "length (held @ src) \<le> unat (fst default_limits)"
    unfolding assms(4) using s(3) assms(3) by (simp add: default_limits_def DEFAULT_MAX_MESSAGE_SIZE_def)
  from codec_dec.yields [OF frame assms(4) this] decoder_dec.yields [OF frame assms(4) this]
  show "codec_decode d (codec_state default_limits held) src =
      ((codec_state default_limits rest, []), Ok (Some (message_of d rm :: ('v, 'd) message)))"
    "decoder_decode d (decoder_state default_limits held) src =
      ((decoder_state default_limits rest, []), Ok (Some (message_of d rm :: ('v, 'd) message)))"
    by simp_all
qed

lemma sample_runs:
  fixes d :: "'v deps"
  assumes "nom_laws d" and "sample d rm"
  shows "codec_decode d codec_new (frame_of d rm) = ((codec_new, []), Ok (Some (message_of d rm :: ('v, 'd) message)))"
    and "decoder_decode d decoder_new (frame_of d rm) =
      ((decoder_new, []), Ok (Some (message_of d rm :: ('v, 'd) message)))"
    and "sample d rm' \<Longrightarrow> codec_decode d codec_new (frame_of d rm @ frame_of d rm') =
      ((codec_state default_limits (frame_of d rm'), []), Ok (Some (message_of d rm :: ('v, 'd) message)))"
    and "codec_decode d (codec_state default_limits (frame_of d rm)) [] =
      ((codec_new, []), Ok (Some (message_of d rm :: ('v, 'd) message)))"
  using sample_decoded [OF assms, of "[]" "[]" "frame_of d rm", where 'd = 'd]
    sample_decoded(1) [OF assms, of "frame_of d rm'" "[]" "frame_of d rm @ frame_of d rm'", where 'd = 'd]
    sample_decoded(1) [OF assms, of "[]" "frame_of d rm" "[]", where 'd = 'd] sample_frame(3) [OF assms(1)]
  by (simp_all add: codec_new_state decoder_new_state del: codec_state_Nil)

lemma empty_codec_waits:
  assumes "nom_laws d"
  shows "codec_decode d codec_new [] = ((codec_new, []), Ok (None :: ('v, 'd) message option))"
proof -
  have "takes_frame d default_limits empty_frame"
    using assms by (simp add: takes_frame_def)
  from codec_dec.waits [OF this, of "[]" "[]" "frame_bytes empty_frame", where 'd = 'd] show ?thesis
    using empty_frame(2) unfolding codec_new_state by fastforce
qed

lemma concat_chunks: "0 < n \<Longrightarrow> concat (chunks_of n xs) = xs"
  by (induction n xs rule: chunks_of.induct) simp_all

lemma push_chunks_all:
  assumes "length (p_buffer p @ concat cs) \<le> unat (p_max_message_size p)" and "unat (p_max_message_size p) < 2 ^ 63"
  shows "push_chunks p cs = Some (p\<lparr>p_buffer := p_buffer p @ concat cs\<rparr>)"
  using assms
proof (induction cs arbitrary: p)
  case (Cons c cs)
  have "push_data p c = (p\<lparr>p_buffer := p_buffer p @ c\<rparr>, Ok ())"
    using Cons.prems by (intro push_data_Ok) simp_all
  with Cons.IH [of "p\<lparr>p_buffer := p_buffer p @ c\<rparr>"] Cons.prems show ?case
    by simp
qed simp

section \<open>The tests pass\<close>

definition test_topics :: "string list" where
  "test_topics = [''test'', ''test.topic'', ''topic1'', ''topic2'', ''hello'']"

text \<open>
  What is asked of the libraries: \<open>nom\<close> as documented, the five headers that are sent are
  read back, and the value \<open>Nil\<close> is written in a few bytes.
\<close>

definition test_library :: "'v deps \<Rightarrow> bool" where
  "test_library d \<longleftrightarrow>
     nom_laws d \<and> (\<forall>t \<in> set test_topics. travels d (header_with_topic header_new t)) \<and>
     (\<exists>p. rmp_value_write d (rmpv_nil d) = Inr p \<and> length p \<le> 200)"

definition topic_message :: "message_type \<Rightarrow> u32 \<Rightarrow> string \<Rightarrow> bytes \<Rightarrow> 'v raw_message" where
  "topic_message ty c t p =
     \<lparr>rm_message_type = ty, rm_client_id = c, rm_header = header_with_topic header_new t, rm_payload_data = p\<rparr>"

lemma topic_message_simps [simp]:
  "rm_message_type (topic_message ty c t p) = ty" "rm_client_id (topic_message ty c t p) = c"
  "rm_header (topic_message ty c t p) = header_with_topic header_new t" "rm_payload_data (topic_message ty c t p) = p"
  "h_topic (header_with_topic h t) = Some t"
  by (simp_all add: topic_message_def header_with_topic_def)

lemma topic_message_new: "raw_message_new ty c (header_with_topic header_new t) (Inr p) = Ok (topic_message ty c t p)"
  by (simp add: raw_message_new_def topic_message_def)

lemma topic_message_built:
  "build_with_payload (mb_simple_publish c t) (Inr p) = Ok (topic_message Publish c t p)"
  "build_with_payload (mb_simple_subscribe c t) (Inr p) = Ok (topic_message Subscribe c t p)"
  "build_with_payload (mb_with_topic (mb_publish c) t) (Inr p) = Ok (topic_message Publish c t p)"
  "build_with_payload (mb_with_topic (mb_new Publish c) t) (Inr p) = Ok (topic_message Publish c t p)"
  "build_with_payload (mb_with_topic (mb_new Subscribe c) t) (Inr p) = Ok (topic_message Subscribe c t p)"
  by (simp_all add: build_with_payload_Ok_iff buildable_def built_def topic_message_def builder_shapes builder_steps
      header_new_def)

lemma topic_message_sample:
  assumes "test_library d" and "t \<in> set test_topics" and "length p \<le> 300"
  shows "sample d (topic_message ty c t p)"
  using assms by (simp add: sample_def test_library_def)

lemmas topic_tests =
  topic_message_new topic_message_built sample_message sample_frame(1) sample_encoded build_is_build_with_nil

text \<open>The tests that only build and validate.\<close>

lemma builder_tests_pass:
  assumes "rmp_value_write d (rmpv_nil d) = Inr p"
  shows "passes (test_join_message_builder d)" and "passes (test_response_message_builder d)"
    and "passes (test_publish_subscribe_builder d (Inr q))" and "passes (test_validation d)"
    and "passes (test_message_validation ty)"
proof -
  note run = build_def build_with_payload_def validate_cases raw_message_new_def assms
    builder_shapes builder_steps header_new_def check_routing_def index_at_def
  show "passes (test_join_message_builder d)"
    by (simp add: test_join_message_builder_def run)
  show "passes (test_response_message_builder d)"
    by (simp add: test_response_message_builder_def run)
  show "passes (test_publish_subscribe_builder d (Inr q))"
    by (simp add: test_publish_subscribe_builder_def run)
  show "passes (test_validation d)"
    by (simp add: test_validation_def run)
  show "passes (test_message_validation ty)"
    by (simp add: test_message_validation_def run)
qed

text \<open>The tests that send.\<close>

lemma index_at_append [simp]: "i < length xs \<Longrightarrow> index_at (xs @ ys) i = Some (xs ! i)"
  by (simp add: index_at_def nth_append)

lemma base_header_front:
  assumes "wf_base_header bh"
  shows "index_at (base_header_bytes bh @ rest) 0 = Some PROTOCOL_VERSION"
    and "index_at (base_header_bytes bh @ rest) 1 = Some (message_type_to_u8 (bh_message_type bh))"
  using assms by (simp_all add: base_header_bytes_def u8_to_bytes_def wf_base_header_def index_at_def)

lemma sending_tests_pass:
  fixes d :: "'v deps" and ty :: "'d itself"
  assumes "test_library d" and "length p \<le> 300"
  shows "passes (test_codec_roundtrip d ty (Inr p))" and "passes (test_decoder_only d ty)"
    and "passes (test_encoder_only d)" and "passes (test_streaming_parse d ty)"
proof -
  obtain n where nil: "rmp_value_write d (rmpv_nil d) = Inr n" "length n \<le> 300"
    using assms(1) by (auto simp: test_library_def)
  have laws: "nom_laws d"
    using assms(1) by (simp add: test_library_def)
  have sent: "sample d (topic_message mt c t q)" if "t \<in> set test_topics" "length q \<le> 300" for mt c t q
    using topic_message_sample [OF assms(1)] that by blast
  note run = build_is_build_with_nil nil topic_message_built sample_encoded [OF laws sent] sample_frame(1) [OF laws sent]
    sample_message [OF laws sent] sample_runs [OF laws sent] empty_codec_waits [OF laws] assms(2) test_topics_def
  show "passes (test_codec_roundtrip d ty (Inr p))"
    by (simp add: test_codec_roundtrip_def run)
  show "passes (test_decoder_only d ty)"
    by (simp add: test_decoder_only_def run)
  show "passes (test_streaming_parse d ty)"
    by (simp add: test_streaming_parse_def run sent)
  show "passes (test_encoder_only d)"
  proof -
    let ?rm = "topic_message Publish 3000 ''hello'' n :: 'v raw_message"
    have "sample d ?rm"
      by (rule sent) (simp_all add: test_topics_def nil)
    note s = sample_frame [OF laws this]
    from s(7) obtain rest where "frame_of d ?rm = base_header_bytes (fst (sent_frame d ?rm)) @ rest"
      by blast
    with base_header_front [OF s(8), of rest] s(3,4,9) show ?thesis
      by (auto simp: test_encoder_only_def run)
  qed
qed

lemma parser_tests_pass:
  fixes d :: "'v deps" and ty :: "'d itself"
  assumes "test_library d" and "length p \<le> 300"
  shows "passes (test_base_header_parsing d)" and "passes (test_streaming_parser d ty (Inr p))"
    and "passes (test_peek_message_info d)"
proof -
  obtain n where nil: "rmp_value_write d (rmpv_nil d) = Inr n" "length n \<le> 300"
    using assms(1) by (auto simp: test_library_def)
  have laws: "nom_laws d"
    using assms(1) by (simp add: test_library_def)
  have sent: "sample d (topic_message mt c ''test'' q)" if "length q \<le> 300" for mt c q
    using topic_message_sample [OF assms(1) _ that] by (simp add: test_topics_def)
  note run = nil topic_message_new sample_frame(1) [OF laws sent] sample_message [OF laws sent] assms(2)
  have front: "parse_base_header d (frame_of d (topic_message mt c ''test'' n)) = Ok bh"
    "peek_message_info (frame_of d (topic_message mt c ''test'' n)) = Ok (mt, c)"
    if bh: "bh = fst (sent_frame d (topic_message mt c ''test'' n))" for mt c bh
  proof -
    note s = sample_frame [OF laws sent [OF nil(2)], of mt c]
    from s(7) obtain rest where f: "frame_of d (topic_message mt c ''test'' n) = base_header_bytes bh @ rest"
      using bh by blast
    show "parse_base_header d (frame_of d (topic_message mt c ''test'' n)) = Ok bh"
      using parse_base_header_iff [OF laws] s(8) f bh by blast
    have "rust_sized (frame_of d (topic_message mt c ''test'' n))"
      using s(3) by (simp add: rust_sized_def)
    then show "peek_message_info (frame_of d (topic_message mt c ''test'' n)) = Ok (mt, c)"
      using peek_prefix [of bh rest] s(8-10) f bh by simp
  qed
  show "passes (test_base_header_parsing d)"
    using sample_frame(8-10) [OF laws sent [OF nil(2)], of Publish 1000]
    by (simp add: test_base_header_parsing_def run front wf_base_header_def)
  show "passes (test_peek_message_info d)"
    by (simp add: test_peek_message_info_def run front)
  show "passes (test_streaming_parser d ty (Inr p))"
  proof -
    let ?rm = "topic_message Publish 1000 ''test'' p :: 'v raw_message"
    note s = sample_frame [OF laws sent [OF assms(2)], of Publish 1000]
    have "push_chunks parser_new (chunks_of 10 (frame_of d ?rm)) = Some (parser_new\<lparr>p_buffer := frame_of d ?rm\<rparr>)"
      using s(3) by (subst push_chunks_all)
        (simp_all add: concat_chunks parser_new_def parser_with_limits_def DEFAULT_MAX_MESSAGE_SIZE_def)
    moreover have "try_parse d (parser_new\<lparr>p_buffer := frame_of d ?rm\<rparr>) =
        (parser_new\<lparr>p_buffer := []\<rparr>, Ok (Some (message_of d ?rm :: ('v, 'd) message)))"
      using s(2,3) by (subst try_parse_frame [OF laws, where rest = "[]"])
        (simp_all add: p_limits_def parser_new_def parser_with_limits_def default_limits_def rust_sized_def)
    ultimately show ?thesis
      by (simp add: test_streaming_parser_def run)
  qed
qed

lemma limit_test_passes:
  assumes "test_library d" and "200 \<le> length q" and "length q \<le> 300"
  shows "passes (test_size_limits d (Inr q))"
proof -
  let ?rm = "topic_message Publish 1000 ''test'' q"
  have sent: "sample d ?rm" and laws: "nom_laws d"
    using topic_message_sample [OF assms(1) _ assms(3)] assms(1) by (simp_all add: test_topics_def test_library_def)
  note s = sample_frame [OF laws sent]
  have "usize_len (frame_of d ?rm) > 100"
    using s(3,4) assms(2) by (simp add: word_less_nat_alt unat_usize_len)
  then have "codec_encode_raw d (codec_with_limits 100 50) ?rm [] =
      ([], Err (MessageTooLarge (usize_len (frame_of d ?rm)) 100))"
    using s(1) by (simp add: codec_encode_raw_def put_frame_def codec_with_limits_def)
  then show ?thesis
    by (simp add: test_size_limits_def topic_message_built)
qed

lemma lazy_test_passes:
  fixes d :: "'v deps" and ty :: "'d itself"
  assumes "test_library d" and "length p \<le> 300" and "rmp_value_from_slice d p = Inr v"
  shows "passes (test_message_lazy_parsing d ty (Inr p))"
proof -
  let ?rm = "topic_message Publish 1000 ''test'' p :: 'v raw_message"
  let ?m = "message_of d ?rm :: ('v, 'd) message"
  have sent: "sample d ?rm" and laws: "nom_laws d"
    using topic_message_sample [OF assms(1) _ assms(2)] assms(1) by (simp_all add: test_topics_def test_library_def)
  note m = sample_message [OF laws sent, where 'd = 'd]
  have fresh: "m_header_cache ?m = None" "m_payload_cache ?m = None"
    by (simp_all add: frame_message_def)
  have "\<exists>w. payload_init d ?m = Ok w"
    using m(5) assms(3) by (simp add: payload_init_def)
  then show ?thesis
    using m fresh by (auto simp: test_message_lazy_parsing_def topic_message_new is_header_cached_def
        is_payload_cached_def m_payload_def get_or_try_init_def)
qed

section \<open>Property\<close>

definition protocol_tests :: "'v deps \<Rightarrow> 'd itself \<Rightarrow> string + bytes \<Rightarrow> string + bytes \<Rightarrow> test list" where
  "protocol_tests d ty payload large_payload =
     [test_message_lazy_parsing d ty payload, test_join_message_builder d, test_response_message_builder d,
      test_publish_subscribe_builder d payload, test_validation d, test_codec_roundtrip d ty payload,
      test_decoder_only d ty, test_encoder_only d, test_streaming_parse d ty, test_size_limits d large_payload,
      test_base_header_parsing d, test_streaming_parser d ty payload, test_message_validation TYPE('v),
      test_peek_message_info d]"

text \<open>
  C25. The unit tests of the protocol crate pass: all of them return without a panic on the
  model, for every \<open>nom\<close> that is as documented and every MessagePack library that reads back
  the five headers they send and the small payload, and writes the large one in 200 to 300 bytes.
\<close>

theorem protocol_tests_pass:
  assumes "test_library d" and "length p \<le> 300" and "rmp_value_from_slice d p = Inr v"
    and "200 \<le> length q" and "length q \<le> 300"
  shows "protocol_tests d ty (Inr p) (Inr q) = replicate 14 (Some ())"
proof -
  obtain n where nil: "rmp_value_write d (rmpv_nil d) = Inr n"
    using assms(1) by (auto simp: test_library_def)
  show ?thesis
    by (simp add: protocol_tests_def lazy_test_passes [OF assms(1-3)] builder_tests_pass [OF nil]
        sending_tests_pass [OF assms(1,2)] parser_tests_pass [OF assms(1,2)] limit_test_passes [OF assms(1,4,5)]
        numeral_eq_Suc)
qed

text \<open>A library that numbers the topics of the tests.\<close>

definition numbering_deps :: "nat deps" where
  "numbering_deps = demo_deps
     \<lparr>rmp_header_to_vec := (\<lambda>h. case find (\<lambda>i. h = header_with_topic header_new (test_topics ! i)) [0..<5] of
         Some i \<Rightarrow> Inr [of_nat i] | None \<Rightarrow> Inl ''unsupported''),
      rmp_header_from_slice := (\<lambda>bs. case bs of
         [b] \<Rightarrow> if unat b < 5 then Inr (header_with_topic header_new (test_topics ! unat b)) else Inl ''invalid''
       | _ \<Rightarrow> Inl ''invalid'')\<rparr>"

lemma numbering_library: "test_library numbering_deps"
proof -
  have "nom_laws numbering_deps"
    using nom_laws_demo by (simp add: nom_laws_def numbering_deps_def)
  moreover have "travels numbering_deps (header_with_topic header_new t)" if "t \<in> set test_topics" for t
  proof -
    have "[0..<5] = [0, 1, 2, 3, 4::nat]"
      by (simp add: upt_rec)
    with that show ?thesis
      by (auto simp: travels_def numbering_deps_def test_topics_def header_with_topic_def)
  qed
  ultimately show ?thesis
    by (simp add: test_library_def) (simp add: numbering_deps_def demo_deps_def)
qed

theorem protocol_tests_pass_witness:
  "protocol_tests numbering_deps TYPE(nat) (Inr [7]) (Inr (replicate 203 120)) = replicate 14 (Some ())"
  by (rule protocol_tests_pass [OF numbering_library, where v = 7])
    (simp_all add: numbering_deps_def demo_deps_def)

end
