(* ===== verification/Transport_Tests.thy ===== *)
theory Transport_Tests
  imports Protocol_Tests Connections Stream_Session
begin

text \<open>
  The unit tests of the transport crate but for those of \<open>ipc.rs\<close>: the modules \<open>tests\<close> of
  \<open>manager.rs\<close>, \<open>tcp.rs\<close>, \<open>websocket.rs\<close>, \<open>channel.rs\<close> and \<open>message.rs\<close>, run on the model.
  The URL parser, the network and the runtime are parameters; what the tests rely on of them
  is stated as the environment of each group of tests.
\<close>

section \<open>\<open>manager.rs\<close>\<close>

definition test_transport_manager_creation ::
  "('m, ('w, 's, 'l) transport_object, 'c) manager_lib \<Rightarrow> ('w, 's, 'l) builtin_ops \<Rightarrow> instant \<Rightarrow> test" where
  "test_transport_manager_creation lib ops now = do {
     let manager = manager_new lib ops;
     assert_that (ml_map_iter lib (tm_transports manager) \<noteq> []);
     let stats = manager_cache_stats lib now manager;
     assert_that (cs_size stats = 0);
     assert_that (cs_capacity stats = 100)
   }"

definition test_custom_cache_config ::
  "('m, ('w, 's, 'l) transport_object, 'c) manager_lib \<Rightarrow> ('w, 's, 'l) builtin_ops \<Rightarrow> instant \<Rightarrow> test" where
  "test_custom_cache_config lib ops now = do {
     let manager = manager_with_cache_config lib ops 50 (from_secs 600);
     let stats = manager_cache_stats lib now manager;
     assert_that (cs_capacity stats = 50)
   }"

definition test_invalid_url ::
  "('m, ('w, 's, 'l) transport_object, 'c) manager_lib \<Rightarrow> ('w, 's, 'l) builtin_ops \<Rightarrow> instant \<Rightarrow> 'w \<Rightarrow> test" where
  "test_invalid_url lib ops now w = do {
     let manager = manager_new lib ops;
     let (manager, w, result) = manager_connect lib now now ''invalid://test'' manager w;
     assert_that (is_err result)
   }"

text \<open>The literal \<open>0.01f64\<close> is the \<open>f64\<close> next to 1/100.\<close>

definition test_connection_tracking ::
  "('m, ('w, 's, 'l) transport_object, 'c) manager_lib \<Rightarrow> ('w, 's, 'l) builtin_ops \<Rightarrow> instant \<Rightarrow> test" where
  "test_connection_tracking lib ops now = do {
     let manager = manager_new lib ops;
     let url = ''tcp://example.com:8080'';
     let manager = track_connection_attempt lib now url manager;
     let manager = track_successful_connection lib now url manager;
     let frequency = get_connection_frequency lib manager url;
     assert_that (frequency = Some 1);
     let stats = manager_cache_stats lib now manager;
     assert_that (cs_size stats = 1);
     let value = (utilization stats = f64_round (1 / 100));
     assert_that value
   }"

definition test_cache_cleanup ::
  "('m, ('w, 's, 'l) transport_object, 'c) manager_lib \<Rightarrow> ('w, 's, 'l) builtin_ops \<Rightarrow> instant \<Rightarrow> test" where
  "test_cache_cleanup lib ops now = do {
     let manager = manager_new lib ops;
     let manager = track_connection_attempt lib now ''tcp://test.com:80'' manager;
     assert_that (cs_size (manager_cache_stats lib now manager) = 1);
     let manager = manager_clear_cache lib manager;
     assert_that (cs_size (manager_cache_stats lib now manager) = 0)
   }"

section \<open>\<open>tcp.rs\<close>\<close>

definition test_tcp_config :: test where
  "test_tcp_config = do {
     let config = tcp_config_default;
     assert_that (tc_nodelay config);
     assert_that (tc_send_buffer_size config = None);
     assert_that (tc_recv_buffer_size config = None);
     assert_that (tc_keepalive config = Some (from_secs TCP_KEEP_ALIVE_SECS));
     assert_that (tc_connect_timeout config = Some (from_secs TCP_CONNECTION_TIMEOUT_SECS));
     assert_that (tc_read_timeout config = Some (from_secs 30));
     assert_that (tc_write_timeout config = Some (from_secs 30));
     assert_that (tc_max_message_size config = TCP_MAX_MESSAGE_SIZE)
   }"

definition test_tcp_url_parsing_via_supports_url :: test where
  "test_tcp_url_parsing_via_supports_url = do {
     assert_that (tcp_supports_url ''tcp://localhost:8080'');
     assert_that (tcp_supports_url ''tcp://127.0.0.1:1234'');
     assert_that (tcp_supports_url ''tcp://[::1]:8080'');
     assert_that (\<not> tcp_supports_url ''http://localhost:8080'');
     assert_that (\<not> tcp_supports_url ''ws://localhost:8080'');
     assert_that (\<not> tcp_supports_url ''invalid-url'')
   }"

text \<open>
  The five tasks of the test; \<open>libs i\<close> is the network as the \<open>i\<close>-th of them finds it. A task
  closes and drops the stream that it gets, at which nothing looks after that.
\<close>

definition test_tcp_concurrent_connections :: "(nat \<Rightarrow> ('s, 'l) tcp_lib) \<Rightarrow> test" where
  "test_tcp_concurrent_connections libs = do {
     let transport = tcp_new;
     let target_url = ''tcp://localhost:38080'';
     let count = int (length (filter (\<lambda>i.
       case tcp_connect (libs i) transport target_url of Ready (Ok stream) \<Rightarrow> True | _ \<Rightarrow> False) [0..<5]));
     assert_that (count \<ge> 0)
   }"

text \<open>\<open>parse_addr\<close> is \<open>SocketAddr\<close>'s \<open>parse\<close>: the port, and whether the address is a loopback one.\<close>

definition test_tcp_listener :: "('s, 'l) tcp_lib \<Rightarrow> (string \<Rightarrow> (u16 \<times> bool) option) \<Rightarrow> test" where
  "test_tcp_listener lib parse_addr = do {
     let transport = tcp_new;
     let result = tcp_listen lib transport ''tcp://localhost:0'';
     assert_that (is_ok result);
     (case result of
        Ok listener \<Rightarrow> do {
          let addr_result = tcp_listener_local_addr lib listener;
          assert_that (is_ok addr_result);
          (case addr_result of
             Ok addr \<Rightarrow> do {
               let socket_addr = parse_addr addr;
               assert_that (socket_addr \<noteq> None);
               (case socket_addr of
                  Some (port, loopback) \<Rightarrow> do {
                    assert_that (port > 0);
                    assert_that loopback
                  }
                | None \<Rightarrow> Some ());
               assert_that (is_ok (tcp_listener_close listener))
             }
           | _ \<Rightarrow> None)
        }
      | _ \<Rightarrow> None)
   }"

text \<open>\<open>elapsed\<close>: the 200 milliseconds pass before \<open>connect\<close> has an answer.\<close>

definition test_tcp_timeout :: "('s, 'l) tcp_lib \<Rightarrow> bool \<Rightarrow> test" where
  "test_tcp_timeout lib elapsed = do {
     let transport = tcp_new;
     let connect_future = tcp_connect lib transport ''tcp://nonexistent-domain-for-test.example.com:8080'';
     (if elapsed then Some ()
      else (case connect_future of
         Ready (Ok stream) \<Rightarrow> None
       | Ready (Err e) \<Rightarrow>
           assert_that (case e of T_Io _ \<Rightarrow> True | T_ConnectionFailure _ \<Rightarrow> True | _ \<Rightarrow> False)
       | _ \<Rightarrow> None))
   }"

definition test_tcp_error_handling :: "('s, 'l) tcp_lib \<Rightarrow> test" where
  "test_tcp_error_handling lib = do {
     let transport = tcp_new;
     let result = tcp_connect lib transport ''invalid-url'';
     assert_that (case result of Ready (Err (T_InvalidUrl _)) \<Rightarrow> True | _ \<Rightarrow> False);
     let result = tcp_connect lib transport ''http://localhost:8080'';
     assert_that (case result of Ready (Err (T_InvalidUrl _)) \<Rightarrow> True | _ \<Rightarrow> False);
     let result = tcp_connect lib transport ''tcp://nonexistent:8080'';
     assert_that (case result of
         Ready (Err (T_ConnectionFailure _)) \<Rightarrow> True | Ready (Err (T_Io _)) \<Rightarrow> True | _ \<Rightarrow> False)
   }"

section \<open>\<open>websocket.rs\<close>\<close>

definition test_websocket_config :: test where
  "test_websocket_config = do {
     let config = ws_config_default;
     assert_that (wc_max_message_size config = 1024 * 1024);
     assert_that (wc_enable_tls config);
     let custom_config = \<lparr>wc_max_message_size = 2048, wc_enable_tls = False\<rparr>;
     assert_that (wc_max_message_size custom_config = 2048);
     assert_that (\<not> wc_enable_tls custom_config)
   }"

definition test_websocket_url_parsing :: "url_parser \<Rightarrow> test" where
  "test_websocket_url_parsing parse = do {
     assert_that (ws_supports_url ''ws://localhost:8080'');
     assert_that (ws_supports_url ''wss://example.com/ws'');
     assert_that (\<not> ws_supports_url ''http://localhost:8080'');
     assert_that (\<not> ws_supports_url ''tcp://localhost:8080'');
     let result = ws_parse_url parse ''invalid-url'';
     assert_that (is_err result)
   }"

definition test_websocket_concurrent_connections :: "(nat \<Rightarrow> ('s, 'l, 't) ws_lib) \<Rightarrow> test" where
  "test_websocket_concurrent_connections libs = do {
     let transport = ws_new;
     let count = int (length (filter (\<lambda>i. is_ok (ws_connect (libs i) transport ''ws://localhost:8080'')) [0..<5]));
     assert_that (count \<ge> 0)
   }"

definition test_websocket_timeout :: "('s, 'l, 't) ws_lib \<Rightarrow> bool \<Rightarrow> test" where
  "test_websocket_timeout lib elapsed = do {
     let transport = ws_new;
     let result = (if elapsed then None else Some (ws_connect lib transport ''ws://192.0.2.1:8080''));
     (case result of
        Some inner_result \<Rightarrow> assert_that (is_err inner_result)
      | None \<Rightarrow> assert_that (result = None))
   }"

definition test_websocket_error_handling :: "('s, 'l, 't) ws_lib \<Rightarrow> test" where
  "test_websocket_error_handling lib = do {
     let transport = ws_new;
     let result = ws_connect lib transport ''invalid-url'';
     assert_that (case result of Err (T_InvalidUrl _) \<Rightarrow> True | _ \<Rightarrow> False);
     let result = ws_connect lib transport ''http://localhost:8080'';
     assert_that (case result of Err (T_InvalidUrl _) \<Rightarrow> True | _ \<Rightarrow> False);
     let result = ws_connect lib transport ''ws://nonexistent-domain-for-test.example.com:8080'';
     assert_that (case result of Err (T_ConnectionFailure _) \<Rightarrow> True | _ \<Rightarrow> False)
   }"

definition test_websocket_tls :: "('s, 'l, 't) ws_lib \<Rightarrow> test" where
  "test_websocket_tls lib = do {
     let config = \<lparr>wc_max_message_size = 1024 * 1024, wc_enable_tls = True\<rparr>;
     let transport = ws_with_config config;
     let result = ws_connect lib transport ''wss://echo.websocket.org'';
     (case result of
        Ok stream \<Rightarrow> do {
          (stream, _) \<leftarrow> unwrap_state (ws_stream_close lib stream);
          Some ()
        }
      | Err (T_ConnectionFailure e) \<Rightarrow> Some ()
      | Err (T_InvalidUrl e) \<Rightarrow> None
      | _ \<Rightarrow> None)
   }"

section \<open>\<open>channel.rs\<close>\<close>

text \<open>
  \<open>delivered a b bs\<close> are the pieces in which what is written to the endpoint \<open>a\<close> is read at \<open>b\<close>;
  nothing is delivered between endpoints that are not connected. The first task has called
  \<open>connect\<close> when the second call is made (the test sleeps in between). A sink encodes the
  message and writes it; its other end decodes what it reads.
\<close>

definition test_channel_transport_pair ::
  "'v deps \<Rightarrow> 'd itself \<Rightarrow> url_parser \<Rightarrow> 'e duplex_fun \<Rightarrow> ('e \<Rightarrow> 'e \<Rightarrow> bytes \<Rightarrow> bytes list option) \<Rightarrow> instant \<Rightarrow> test"
where
  "test_channel_transport_pair d ty parse dup delivered now = do {
     let url = ''chan://test'';
     let registry = \<lparr>chan_registry = Map.empty, chan_duplexes = 0\<rparr>;
     (registry, stream1) \<leftarrow> unwrap_state (channel_connect parse dup now registry url);
     (registry, stream2) \<leftarrow> unwrap_state (channel_connect parse dup now registry url);
     raw \<leftarrow> unwrap (build d (mb_simple_publish 1 ''test.topic''));
     (msg :: ('v, 'd) message) \<leftarrow> unwrap (into_message d raw);
     (buffer, _) \<leftarrow> unwrap_state (codec_encode_message codec msg []);
     pieces \<leftarrow> delivered (cs_end stream1) (cs_end stream2) buffer;
     (case feed (codec_decode d) codec [] pieces [] of
        Some (_, Ok ((received :: ('v, 'd) message) # _)) \<Rightarrow> do {
          assert_that (m_client_id received = m_client_id msg);
          assert_that (m_message_type received = Publish)
        }
      | _ \<Rightarrow> None)
   }"

section \<open>\<open>message.rs\<close>\<close>

text \<open>
  The stream that the test of the adapter makes for itself: the two halves into which the
  runtime splits an endpoint are that endpoint.
\<close>

record 'e mock_stream =
  mk_end :: 'e
  mk_info :: connection_info
  mk_connected :: bool

definition mock_stream_new :: "'e duplex_fun \<Rightarrow> instant \<Rightarrow> nat \<Rightarrow> 'e mock_stream \<times> 'e" where
  "mock_stream_new dup now k =
     (let (client, server) = dup 1024 k;
          info = \<lparr>ci_transport_type = ''mock'', ci_local_addr = Some ''local'', ci_remote_addr = Some ''remote'',
            ci_metadata = fmempty, ci_established_at = now\<rparr>
      in (\<lparr>mk_end = client, mk_info = info, mk_connected = True\<rparr>, server))"

definition mock_connection_info :: "'e mock_stream \<Rightarrow> connection_info" where
  "mock_connection_info s = mk_info s"

definition mock_is_connected :: "'e mock_stream \<Rightarrow> bool" where
  "mock_is_connected s = mk_connected s"

definition mock_close :: "'e mock_stream \<Rightarrow> 'e mock_stream \<times> unit transport_result" where
  "mock_close s = (s\<lparr>mk_connected := False\<rparr>, Ok ())"

definition mock_timeouts :: "'e mock_stream \<Rightarrow> connection_timeouts" where
  "mock_timeouts s = timeouts_default"

definition mock_poll_read ::
  "'e async_io \<Rightarrow> 'e mock_stream \<Rightarrow> read_buf \<Rightarrow> 'e mock_stream \<times> (read_buf, io_error) res wait" where
  "mock_poll_read io s buf = on_field mk_end mk_end_update (\<lambda>x. ai_poll_read io x buf) s"

definition mock_poll_write ::
  "'e async_io \<Rightarrow> 'e mock_stream \<Rightarrow> bytes \<Rightarrow> 'e mock_stream \<times> (usize, io_error) res wait" where
  "mock_poll_write io s buf = on_field mk_end mk_end_update (\<lambda>x. ai_poll_write io x buf) s"

definition mock_poll_flush :: "'e async_io \<Rightarrow> 'e mock_stream \<Rightarrow> 'e mock_stream \<times> (unit, io_error) res wait" where
  "mock_poll_flush io = on_field mk_end mk_end_update (ai_poll_flush io)"

definition mock_poll_shutdown :: "'e async_io \<Rightarrow> 'e mock_stream \<Rightarrow> 'e mock_stream \<times> (unit, io_error) res wait" where
  "mock_poll_shutdown io = on_field mk_end mk_end_update (ai_poll_shutdown io)"

definition mock_ops :: "'e async_io \<Rightarrow> 'e mock_stream stream_ops" where
  "mock_ops io =
     \<lparr>so_io = \<lparr>ai_poll_read = mock_poll_read io, ai_poll_write = mock_poll_write io,
        ai_poll_flush = mock_poll_flush io, ai_poll_shutdown = mock_poll_shutdown io\<rparr>,
      so_connection_info = mock_connection_info, so_is_connected = mock_is_connected,
      so_close = (\<lambda>s. map_prod id Ready (mock_close s)), so_timeouts = mock_timeouts\<rparr>"

lemmas mock_stream_defs =
  mock_ops_def mock_poll_read_def mock_poll_write_def mock_poll_flush_def mock_poll_shutdown_def
  mock_close_def mock_timeouts_def mock_connection_info_def on_field_def

lemma mock_identity:
  "so_connection_info (mock_ops io) = mk_info" "so_timeouts (mock_ops io) = (\<lambda>_. timeouts_default)"
  by (simp_all add: mock_stream_defs fun_eq_iff)

lemma mock_perform_keeps: "perform (mock_ops io) c s = (s', a) \<Longrightarrow> mk_info s' = mk_info s"
  by (cases c) (auto simp: mock_stream_defs split: prod.splits)

interpretation mock_object: transport_stream "mock_ops io" for io :: "'e async_io"
  by unfold_locales (simp_all add: mock_identity mock_perform_keeps)

text \<open>
  \<open>write_all\<close> polls until everything is taken; \<open>None\<close> is a poll that is pending, fails or
  takes nothing, or more calls than there are bytes. One \<open>read\<close> is one poll that is ready.
\<close>

primrec write_all :: "'s async_io \<Rightarrow> nat \<Rightarrow> 's \<Rightarrow> bytes \<Rightarrow> 's option" where
  "write_all io 0 s bs = (if bs = [] then Some s else None)"
| "write_all io (Suc fuel) s bs =
     (if bs = [] then Some s
      else (case ai_poll_write io s bs of
         (s', Ready (Ok n)) \<Rightarrow> if n = 0 then None else write_all io fuel s' (drop (unat n) bs)
       | _ \<Rightarrow> None))"

definition read_once :: "'s async_io \<Rightarrow> 's \<Rightarrow> nat \<Rightarrow> ('s \<times> bytes) option" where
  "read_once io s n =
     (case ai_poll_read io s \<lparr>rb_filled = [], rb_remaining = n\<rparr> of
        (s', Ready (Ok buf)) \<Rightarrow> Some (s', rb_filled buf)
      | _ \<Rightarrow> None)"

text \<open>
  \<open>carry client server\<close> is the server's endpoint with what the client's has taken at its end.
\<close>

definition test_message_transport_adapter ::
  "'v deps \<Rightarrow> 'd itself \<Rightarrow> 'e async_io \<Rightarrow> 'e duplex_fun \<Rightarrow> ('e \<Rightarrow> 'e \<Rightarrow> 'e) \<Rightarrow> instant \<Rightarrow> nat \<Rightarrow> test" where
  "test_message_transport_adapter d ty io dup carry now k = do {
     let (client, server) = mock_stream_new dup now k;
     raw \<leftarrow> unwrap (build d (mb_simple_publish 1000 ''test.topic''));
     raw_message \<leftarrow> unwrap (to_bytes d raw);
     client \<leftarrow> write_all (so_io (mock_ops io)) (length raw_message) client raw_message;
     (server, bytes_read) \<leftarrow> read_once io (carry (mk_end client) server) 1024;
     let buffer = bytes_read;
     let decoder = decoder_new;
     ((decoder, buffer), decoded) \<leftarrow> unwrap_state (decoder_decode d decoder buffer);
     (decoded :: ('v, 'd) message) \<leftarrow> decoded;
     assert_that (m_message_type decoded = Publish);
     assert_that (m_client_id decoded = 1000);
     (decoded, header) \<leftarrow> unwrap_state (m_header d decoded);
     assert_that (h_topic header = Some ''test.topic'')
   }"

section \<open>The manager tests\<close>

lemma new_manager:
  assumes "manager_laws lib"
  shows "ml_map_iter lib (tm_transports (manager_new lib ops)) \<noteq> []"
    and "ml_iter lib (tm_connection_stats (manager_with_cache_config lib ops n ttl)) = []"
    and "ml_cap lib (tm_connection_stats (manager_with_cache_config lib ops n ttl)) = max n 1"
proof -
  have "set (map snd (ml_map_iter lib (tm_transports (manager_new lib ops)))) \<noteq> {}"
    unfolding manager_new_def registered_defaults [OF assms] by simp
  then show "ml_map_iter lib (tm_transports (manager_new lib ops)) \<noteq> []"
    by auto
  show "ml_iter lib (tm_connection_stats (manager_with_cache_config lib ops n ttl)) = []"
    "ml_cap lib (tm_connection_stats (manager_with_cache_config lib ops n ttl)) = max n 1"
    using assms by (simp_all add: manager_laws_def manager_with_cache_config_def register_default_transports_def
        register_transport_def Let_def)
qed

lemma stats_simps:
  assumes "manager_laws lib"
  shows "cs_size (manager_cache_stats lib now m) = usize_len (ml_iter lib (tm_connection_stats m))"
    and "cs_capacity (manager_cache_stats lib now m) = ml_cap lib (tm_connection_stats m)"
  using assms by (simp_all add: manager_cache_stats_def manager_laws_def)

lemma first_attempt:
  assumes "manager_laws lib" and "ml_iter lib (tm_connection_stats m) = []" and "0 < unat (ml_cap lib (tm_connection_stats m))"
  shows "ml_iter lib (tm_connection_stats (track_connection_attempt lib now u m)) =
      [(u, \<lparr>ce_last_used = now, ce_connection_count = 0\<rparr>)]"
    and "ml_cap lib (tm_connection_stats (track_connection_attempt lib now u m)) = ml_cap lib (tm_connection_stats m)"
  using assms lru_put [OF assms(1)] lru_get_mut_None [OF assms(1), of "tm_connection_stats m" u]
  by (simp_all add: track_connection_attempt_def)

lemma first_success:
  assumes "manager_laws lib" and "ml_iter lib (tm_connection_stats m) = [(u, e)]"
  shows "ml_iter lib (tm_connection_stats (track_successful_connection lib now u m)) =
      [(u, e\<lparr>ce_connection_count := ce_connection_count e + 1, ce_last_used := now\<rparr>)]"
    and "ml_cap lib (tm_connection_stats (track_successful_connection lib now u m)) = ml_cap lib (tm_connection_stats m)"
  by (rule lru_get_mut_Some [OF assms(1), of "tm_connection_stats m" u e
        "\<lambda>e. e\<lparr>ce_connection_count := ce_connection_count e + 1, ce_last_used := now\<rparr>"];
      simp add: assms(2) track_successful_connection_def without_def)+

lemma manager_tests_pass:
  assumes "manager_laws lib"
  shows "passes (test_transport_manager_creation lib ops now)" and "passes (test_custom_cache_config lib ops now)"
    and "passes (test_invalid_url lib ops now w)" and "passes (test_connection_tracking lib ops now)"
    and "passes (test_cache_cleanup lib ops now)"
proof -
  note new = new_manager [OF assms] and stats = stats_simps [OF assms]
  show "passes (test_transport_manager_creation lib ops now)"
    using new(1) by (simp add: test_transport_manager_creation_def stats manager_new_def new(2,3) usize_len_def)
  show "passes (test_custom_cache_config lib ops now)"
    by (simp add: test_custom_cache_config_def stats new(3))
  show "passes (test_invalid_url lib ops now w)"
  proof -
    have "find_transport_for_url lib (manager_new lib ops) ''invalid://test'' = None"
      using selection_by_scheme [OF assms, of ops 100 "from_secs 300" "''invalid://test''"]
      by (simp add: manager_new_def transport_for_def scheme_prefix_def starts_with_def)
    then show ?thesis
      by (simp add: test_invalid_url_def manager_connect_def find_transport_for_url_def track_connection_attempt_def Let_def)
  qed
  have hundred: "ml_cap lib (tm_connection_stats (manager_new lib ops)) = 100"
    by (simp add: manager_new_def new(3) max_def word_le_nat_alt)
  then have cap: "0 < unat (ml_cap lib (tm_connection_stats (manager_new lib ops)))"
    by simp
  have empty: "ml_iter lib (tm_connection_stats (manager_new lib ops)) = []"
    by (simp add: manager_new_def new(2))
  note first = first_attempt [OF assms empty cap, of now]
  note then_success = first_success [OF assms first(1)]
  have ratio: "usize_ratio 1 100 = f64_round (1 / 100)"
    using f64_round_nat [of 100] by (simp add: usize_ratio_def f64_div_def usize_as_f64_def)
  have "get_connection_frequency lib m u = map_option ce_connection_count (map_of (ml_iter lib (tm_connection_stats m)) u)"
    for m u
    using assms by (simp add: get_connection_frequency_def manager_laws_def)
  then show "passes (test_connection_tracking lib ops now)"
    by (simp add: test_connection_tracking_def stats then_success first(2) hundred utilization_def usize_len_def ratio)
  have "ml_iter lib (tm_connection_stats (manager_clear_cache lib m)) = []" for m
    using assms by (simp add: manager_clear_cache_def manager_laws_def)
  then show "passes (test_cache_cleanup lib ops now)"
    by (simp add: test_cache_cleanup_def stats first usize_len_def)
qed

section \<open>The tests of the network transports\<close>

text \<open>A URL that the parser reads.\<close>

definition reads_url :: "url_parser \<Rightarrow> string \<Rightarrow> string \<Rightarrow> string \<Rightarrow> u16 \<Rightarrow> bool" where
  "reads_url parse u scheme host port \<longleftrightarrow>
     (\<exists>p. parse u = Inr p \<and> url_scheme p = scheme \<and> url_host_str p = Some host \<and> url_port p = Some port)"

text \<open>
  The URLs of the TCP tests as the parser reads them. A listener is one as the test wants it if
  it can be made on a port of the system's choice and has a loopback address.
\<close>

definition tcp_test_urls :: "url_parser \<Rightarrow> bool" where
  "tcp_test_urls parse \<longleftrightarrow>
     (\<exists>e. parse ''invalid-url'' = Inl e) \<and>
     reads_url parse ''http://localhost:8080'' ''http'' ''localhost'' 8080 \<and>
     reads_url parse ''tcp://nonexistent:8080'' ''tcp'' ''nonexistent'' 8080 \<and>
     reads_url parse ''tcp://nonexistent-domain-for-test.example.com:8080'' ''tcp''
       ''nonexistent-domain-for-test.example.com'' 8080 \<and>
     reads_url parse ''tcp://localhost:0'' ''tcp'' ''localhost'' 0"

definition loopback_listener :: "('s, 'l) tcp_lib \<Rightarrow> (string \<Rightarrow> (u16 \<times> bool) option) \<Rightarrow> bool" where
  "loopback_listener lib parse_addr \<longleftrightarrow>
     (case tl_bind lib ''localhost:0'' of
        Inl e \<Rightarrow> False
      | Inr l \<Rightarrow>
          (case tl_listener_addr lib l of
             Inl e \<Rightarrow> False
           | Inr addr \<Rightarrow>
               (case parse_addr addr of None \<Rightarrow> False | Some (port, loopback) \<Rightarrow> 0 < port \<and> loopback)))"

lemma display_ports: "display_nat 0 = ''0''" "display_nat 8080 = ''8080''"
  by (simp_all add: display_nat.simps digit_char_def char_of_def bit_0)

lemma tcp_address_reads:
  "reads_url (tl_url_parse lib) u ''tcp'' host port \<Longrightarrow> tcp_address lib u = Ok (host @ '':'' @ display_nat (unat port))"
  by (auto simp: reads_url_def tcp_address_def parse_url_with_def)

lemma tcp_address_refused:
  "reads_url (tl_url_parse lib) u scheme host port \<Longrightarrow> scheme \<noteq> ''tcp'' \<Longrightarrow> \<exists>e. tcp_address lib u = Err (T_InvalidUrl e)"
  "tl_url_parse lib u = Inl e \<Longrightarrow> \<exists>e. tcp_address lib u = Err (T_InvalidUrl e)"
  by (auto simp: reads_url_def tcp_address_def parse_url_with_def)

lemma tcp_plain_tests:
  "passes test_tcp_config" "passes test_tcp_url_parsing_via_supports_url" "passes (test_tcp_concurrent_connections libs)"
  by (simp_all add: test_tcp_config_def tcp_config_default_def test_tcp_url_parsing_via_supports_url_def
      tcp_supports_url_def starts_with_def test_tcp_concurrent_connections_def)

lemma tcp_listener_test:
  assumes "tcp_test_urls (tl_url_parse lib)"
  shows "passes (test_tcp_listener lib parse_addr) \<longleftrightarrow> loopback_listener lib parse_addr"
proof -
  have "tcp_address lib ''tcp://localhost:0'' = Ok ''localhost:0''"
    using assms tcp_address_reads [of lib "''tcp://localhost:0''" "''localhost''" 0]
    by (simp add: tcp_test_urls_def display_ports)
  then show ?thesis
    by (auto simp: loopback_listener_def test_tcp_listener_def tcp_listen_def tcp_listener_local_addr_def
        tcp_listener_close_def of_io_def split: sum.splits option.splits)
qed

lemma tcp_timeout_test:
  assumes "tcp_test_urls (tl_url_parse lib)"
    and "elapsed \<or> tl_connect lib ''nonexistent-domain-for-test.example.com:8080'' = Ready (Inl e)"
  shows "passes (test_tcp_timeout lib elapsed)"
proof -
  have "tcp_address lib ''tcp://nonexistent-domain-for-test.example.com:8080'' =
      Ok ''nonexistent-domain-for-test.example.com:8080''"
    using assms(1) tcp_address_reads [of lib "''tcp://nonexistent-domain-for-test.example.com:8080''"
        "''nonexistent-domain-for-test.example.com''" 8080]
    by (simp add: tcp_test_urls_def display_ports)
  then show ?thesis
    using assms(2) by (auto simp: test_tcp_timeout_def tcp_connect_def)
qed

lemma tcp_error_test:
  assumes "tcp_test_urls (tl_url_parse lib)"
  shows "tl_connect lib ''nonexistent:8080'' = Ready (Inl e) \<Longrightarrow> passes (test_tcp_error_handling lib)"
    and "tl_connect lib ''nonexistent:8080'' = Pending \<Longrightarrow> \<not> passes (test_tcp_error_handling lib)"
proof -
  have "tcp_address lib ''tcp://nonexistent:8080'' = Ok ''nonexistent:8080''"
    using assms tcp_address_reads [of lib "''tcp://nonexistent:8080''" "''nonexistent''" 8080]
    by (simp add: tcp_test_urls_def display_ports)
  moreover obtain e1 where "tcp_address lib ''invalid-url'' = Err (T_InvalidUrl e1)"
    using assms tcp_address_refused(2) [of lib "''invalid-url''"] unfolding tcp_test_urls_def by blast
  moreover obtain e2 where "tcp_address lib ''http://localhost:8080'' = Err (T_InvalidUrl e2)"
    using assms tcp_address_refused(1) [of lib "''http://localhost:8080''" "''http''" "''localhost''" 8080]
    by (auto simp: tcp_test_urls_def)
  ultimately show "tl_connect lib ''nonexistent:8080'' = Ready (Inl e) \<Longrightarrow> passes (test_tcp_error_handling lib)"
    and "tl_connect lib ''nonexistent:8080'' = Pending \<Longrightarrow> \<not> passes (test_tcp_error_handling lib)"
    by (simp_all add: test_tcp_error_handling_def tcp_connect_def tcp_new_def tcp_config_default_def)
qed

text \<open>The same for the WebSocket tests, and what dialling a URL comes to.\<close>

definition ws_test_urls :: "url_parser \<Rightarrow> bool" where
  "ws_test_urls parse \<longleftrightarrow>
     (\<exists>e. parse ''invalid-url'' = Inl e) \<and>
     reads_url parse ''http://localhost:8080'' ''http'' ''localhost'' 8080 \<and>
     (\<exists>p. parse ''ws://nonexistent-domain-for-test.example.com:8080'' = Inr p \<and> url_scheme p = ''ws'') \<and>
     (\<exists>p. parse ''ws://192.0.2.1:8080'' = Inr p \<and> url_scheme p = ''ws'') \<and>
     (\<exists>p. parse ''wss://echo.websocket.org'' = Inr p \<and> url_scheme p = ''wss'')"

definition ws_dials :: "('s, 'l, 't) ws_lib \<Rightarrow> string \<Rightarrow> 's option" where
  "ws_dials lib u =
     (case wl_url_parse lib u of
        Inl e \<Rightarrow> None
      | Inr p \<Rightarrow> (case wl_connect lib (url_text p) of Inl e \<Rightarrow> None | Inr s \<Rightarrow> Some s))"

lemma ws_plain_tests:
  assumes "ws_test_urls (wl_url_parse lib)"
  shows "passes test_websocket_config" and "passes (test_websocket_url_parsing (wl_url_parse lib))"
    and "passes (test_websocket_concurrent_connections libs)"
  using assms by (auto simp: ws_test_urls_def test_websocket_config_def ws_config_default_def
      test_websocket_url_parsing_def ws_supports_url_def ws_parse_url_def parse_url_with_def starts_with_def
      test_websocket_concurrent_connections_def)

lemma ws_network_tests:
  assumes "ws_test_urls (wl_url_parse lib)"
  shows "passes (test_websocket_timeout lib elapsed) \<longleftrightarrow> elapsed \<or> ws_dials lib ''ws://192.0.2.1:8080'' = None"
    and "passes (test_websocket_error_handling lib) \<longleftrightarrow>
      ws_dials lib ''ws://nonexistent-domain-for-test.example.com:8080'' = None"
    and "passes (test_websocket_tls lib) \<longleftrightarrow>
      (\<forall>s. ws_dials lib ''wss://echo.websocket.org'' = Some s \<longrightarrow> snd (wl_close_handshake lib s) = Inr ())"
proof -
  note connects = ws_connect_def ws_parse_url_def parse_url_with_def starts_with_def ws_dials_def
  obtain p where p: "wl_url_parse lib ''ws://192.0.2.1:8080'' = Inr p" "url_scheme p = ''ws''"
    using assms by (auto simp: ws_test_urls_def)
  show "passes (test_websocket_timeout lib elapsed) \<longleftrightarrow> elapsed \<or> ws_dials lib ''ws://192.0.2.1:8080'' = None"
    by (cases "wl_connect lib (url_text p)") (simp_all add: test_websocket_timeout_def connects p)
  obtain q where q: "wl_url_parse lib ''ws://nonexistent-domain-for-test.example.com:8080'' = Inr q" "url_scheme q = ''ws''"
    using assms by (auto simp: ws_test_urls_def)
  obtain e h where "wl_url_parse lib ''invalid-url'' = Inl e" "wl_url_parse lib ''http://localhost:8080'' = Inr h"
    "url_scheme h = ''http''"
    using assms by (auto simp: ws_test_urls_def reads_url_def)
  then show "passes (test_websocket_error_handling lib) \<longleftrightarrow>
      ws_dials lib ''ws://nonexistent-domain-for-test.example.com:8080'' = None"
    by (cases "wl_connect lib (url_text q)") (simp_all add: test_websocket_error_handling_def connects q)
  obtain t where t: "wl_url_parse lib ''wss://echo.websocket.org'' = Inr t" "url_scheme t = ''wss''"
    using assms by (auto simp: ws_test_urls_def)
  show "passes (test_websocket_tls lib) \<longleftrightarrow>
      (\<forall>s. ws_dials lib ''wss://echo.websocket.org'' = Some s \<longrightarrow> snd (wl_close_handshake lib s) = Inr ())"
  proof (cases "wl_connect lib (url_text t)")
    case (Inr s)
    then show ?thesis
      by (cases "wl_close_handshake lib s"; cases "snd (wl_close_handshake lib s)")
        (simp_all add: test_websocket_tls_def connects t ws_stream_close_def ws_stream_new_def)
  qed (simp add: test_websocket_tls_def connects t)
qed

section \<open>The tests of streams\<close>

text \<open>
  What the channel test relies on: the name in its URL, and a runtime that delivers what is
  written to the second half of a duplex to its first half.
\<close>

definition channel_test_runtime ::
  "url_parser \<Rightarrow> 'e duplex_fun \<Rightarrow> ('e \<Rightarrow> 'e \<Rightarrow> bytes \<Rightarrow> bytes list option) \<Rightarrow> bool" where
  "channel_test_runtime parse dup delivered \<longleftrightarrow>
     (\<exists>p. parse ''chan://test'' = Inr p \<and> url_scheme p = ''chan'' \<and> url_host_str p = Some ''test'') \<and>
     (\<forall>n k bs. length bs \<le> unat n \<longrightarrow>
        (\<exists>pieces. delivered (snd (dup n k)) (fst (dup n k)) bs = Some pieces \<and> concat pieces = bs))"

lemma sample_fed:
  fixes d :: "'v deps"
  assumes "nom_laws d" and "sample d rm" and "concat pieces = frame_of d rm"
  shows "feed (codec_decode d) codec_new [] pieces [] =
    Some ((codec_new, []), Ok [message_of d rm :: ('v, 'd) message])"
proof -
  note s = sample_frame [OF assms(1,2)]
  have good: "\<forall>f \<in> set ([sent_frame d rm] @ [empty_frame]). takes_frame d default_limits f"
    using assms(1) s(2) by (simp add: takes_frame_def)
  have short: "length c \<le> 534" if "c \<in> set pieces" for c
  proof -
    have "length c \<le> length (concat pieces)"
      using that by (induction pieces) auto
    with assms(3) s(3) show ?thesis by simp
  qed
  have "feed (codec_decode d) (codec_state default_limits []) [] pieces [] =
      Some ((codec_state default_limits [], []), Ok ([] @ map frame_message [sent_frame d rm] :: ('v, 'd) message list))"
  proof (rule codec_dec.feed_frames [OF good, of "[]" "frame_bytes empty_frame" "[]" pieces "frame_of d rm"])
    show "\<forall>f \<in> set ([sent_frame d rm] @ [empty_frame]). \<forall>c \<in> set pieces.
        length (frame_bytes f) + length c \<le> unat (fst default_limits)"
      using s(3) short by (fastforce simp: default_limits_def DEFAULT_MAX_MESSAGE_SIZE_def)
    show "frame_bytes empty_frame \<noteq> []" "frame_of d rm \<noteq> []"
      using s(4) by (fastforce simp flip: length_0_conv)+
  qed (simp_all add: assms(3))
  then show ?thesis
    by (simp add: codec_new_state del: codec_state_Nil)
qed

lemma channel_test_passes:
  fixes d :: "'v deps" and ty :: "'d itself"
  assumes "test_library d" and "channel_test_runtime parse dup delivered"
  shows "passes (test_channel_transport_pair d ty parse dup delivered now)"
proof -
  obtain n where nil: "rmp_value_write d (rmpv_nil d) = Inr n" "length n \<le> 300"
    using assms(1) by (auto simp: test_library_def)
  let ?rm = "topic_message Publish 1 ''test.topic'' n :: 'v raw_message"
  have sent: "sample d ?rm" and laws: "nom_laws d"
    using topic_message_sample [OF assms(1) _ nil(2)] assms(1) by (simp_all add: test_topics_def test_library_def)
  note m = sample_message [OF laws sent, where 'd = 'd] and s = sample_frame [OF laws sent]
  have "length (frame_of d ?rm) \<le> unat (8 * 1024 :: usize)"
    using s(3) by simp
  then obtain pieces where pieces: "delivered (snd (dup (8 * 1024) 0)) (fst (dup (8 * 1024) 0)) (frame_of d ?rm) = Some pieces"
    "concat pieces = frame_of d ?rm"
    using assms(2) unfolding channel_test_runtime_def by blast
  have name: "channel_name parse ''chan://test'' = Ok ''test''"
    using assms(2) by (auto simp: channel_test_runtime_def channel_name_def parse_url_with_def)
  have "m_raw_bytes (message_of d ?rm :: ('v, 'd) message) = frame_of d ?rm"
    by (simp add: frame_message_def m_raw_bytes_def)
  moreover have "usize_len (frame_of d ?rm) \<le> c_max_frame_size codec_new"
    using s(3) by (simp add: word_le_nat_alt unat_usize_len codec_new_def DEFAULT_MAX_MESSAGE_SIZE_def)
  ultimately have "codec_encode_message codec (message_of d ?rm :: ('v, 'd) message) [] = (frame_of d ?rm, Ok ())"
    using codec_msg.accepts [of "message_of d ?rm :: ('v, 'd) message" "frame_of d ?rm" codec "[]"]
    by (simp add: codec_def)
  with sample_fed [OF laws sent pieces(2), where 'd = 'd] show ?thesis
    using m pieces(1)
    by (simp add: test_channel_transport_pair_def channel_connect_def name chan_take_def chan_offer_def split_beta
        channel_stream_new_def build_is_build_with_nil nil topic_message_built codec_def)
qed

text \<open>
  What the adapter test relies on: endpoints that are byte streams, fresh ones without any
  bytes, writes that make progress while the pipe of 1024 bytes is not full, and reads that hand
  out all there is if there is room for it.
\<close>

definition adapter_test_runtime ::
  "'e async_io \<Rightarrow> 'e duplex_fun \<Rightarrow> ('e \<Rightarrow> 'e \<Rightarrow> 'e) \<Rightarrow> ('e \<Rightarrow> bool) \<Rightarrow> ('e \<Rightarrow> bytes) \<Rightarrow> ('e \<Rightarrow> bytes) \<Rightarrow> bool" where
  "adapter_test_runtime io dup carry ok inn out \<longleftrightarrow>
     pipe_laws io ok inn out \<and>
     (\<forall>k. ok (fst (dup 1024 k)) \<and> ok (snd (dup 1024 k)) \<and> out (fst (dup 1024 k)) = [] \<and> inn (snd (dup 1024 k)) = []) \<and>
     (\<forall>a b. ok a \<longrightarrow> ok b \<longrightarrow> ok (carry a b) \<and> inn (carry a b) = inn b @ out a) \<and>
     (\<forall>a bs a' r. ok a \<longrightarrow> bs \<noteq> [] \<longrightarrow> length (out a) < 1024 \<longrightarrow> ai_poll_write io a bs = (a', r) \<longrightarrow> 0 < taken r) \<and>
     (\<forall>b n b' r. ok b \<longrightarrow> inn b \<noteq> [] \<longrightarrow> length (inn b) \<le> n \<longrightarrow>
        ai_poll_read io b \<lparr>rb_filled = [], rb_remaining = n\<rparr> = (b', r) \<longrightarrow>
        handed_out \<lparr>rb_filled = [], rb_remaining = n\<rparr> r = inn b)"

lemma taken_pos: "0 < taken r \<longleftrightarrow> (\<exists>n. r = Ready (Ok n) \<and> n \<noteq> 0)"
  by (cases r) (auto split: res.splits simp: unat_gt_0)

lemma write_all_writes:
  assumes "write_laws io ok inn out"
    and progress: "\<And>a bs a' r. ok a \<Longrightarrow> bs \<noteq> [] \<Longrightarrow> length (out a) < cap \<Longrightarrow>
      ai_poll_write io a bs = (a', r) \<Longrightarrow> 0 < taken r"
    and "ok s" and "length (out s @ bs) \<le> cap" and "length bs \<le> fuel"
  shows "\<exists>s'. write_all io fuel s bs = Some s' \<and> ok s' \<and> out s' = out s @ bs"
  using assms(3-5)
proof (induction fuel arbitrary: s bs)
  case (Suc fuel)
  show ?case
  proof (cases "bs = []")
    case False
    obtain s1 r where poll: "ai_poll_write io s bs = (s1, r)"
      by fastforce
    have "length (out s) < cap"
      using False Suc.prems(2) by (cases bs) auto
    from progress [OF Suc.prems(1) False this poll] obtain n where r: "r = Ready (Ok n)" "n \<noteq> 0" and pos: "0 < unat n"
      by (auto simp: taken_pos unat_gt_0)
    have w: "ok s1" "unat n \<le> length bs" "out s1 = out s @ take (unat n) bs"
      using write_lawsD(1) [OF assms(1) Suc.prems(1) poll] r(1) by simp_all
    have "\<exists>s'. write_all io fuel s1 (drop (unat n) bs) = Some s' \<and> ok s' \<and> out s' = out s1 @ drop (unat n) bs"
      using w pos Suc.prems False by (intro Suc.IH) auto
    with w False poll r show ?thesis
      by auto
  qed (use Suc.prems in simp)
qed simp

lemma adapter_test_passes:
  fixes d :: "'v deps" and ty :: "'d itself"
  assumes "test_library d" and "adapter_test_runtime io dup carry ok inn out"
  shows "passes (test_message_transport_adapter d ty io dup carry now k)"
proof -
  obtain n where nil: "rmp_value_write d (rmpv_nil d) = Inr n" "length n \<le> 300"
    using assms(1) by (auto simp: test_library_def)
  let ?rm = "topic_message Publish 1000 ''test.topic'' n :: 'v raw_message"
  let ?bs = "frame_of d ?rm"
  have sent: "sample d ?rm" and laws: "nom_laws d"
    using topic_message_sample [OF assms(1) _ nil(2)] assms(1) by (simp_all add: test_topics_def test_library_def)
  note s = sample_frame [OF laws sent]
  obtain client server where new: "mock_stream_new dup now k = (client, server)"
    and ends: "mk_end client = fst (dup 1024 k)" "server = snd (dup 1024 k)"
    by (cases "dup 1024 k") (simp add: mock_stream_new_def)
  have io: "pipe_laws io ok inn out" and fresh: "ok (mk_end client)" "ok server" "out (mk_end client) = []" "inn server = []"
    using assms(2) by (simp_all add: adapter_test_runtime_def ends)
  have mock: "write_laws (so_io (mock_ops io)) (\<lambda>s. ok (mk_end s)) (\<lambda>s. inn (mk_end s)) (\<lambda>s. out (mk_end s))"
    using io unfolding pipe_laws_def
    by (intro on_field_write [where upd = mk_end_update])
      (auto simp: mock_ops_def mock_poll_write_def mock_poll_flush_def)
  have "\<exists>c. write_all (so_io (mock_ops io)) (length ?bs) client ?bs = Some c \<and> ok (mk_end c) \<and>
      out (mk_end c) = out (mk_end client) @ ?bs"
  proof (rule write_all_writes [OF mock, where cap = 1024])
    fix a a' :: "'a mock_stream" and bs r
    assume a: "ok (mk_end a)" "bs \<noteq> []" "length (out (mk_end a)) < 1024" "ai_poll_write (so_io (mock_ops io)) a bs = (a', r)"
    then obtain x where "ai_poll_write io (mk_end a) bs = (x, r)"
      by (auto simp: mock_ops_def mock_poll_write_def on_field_def split: prod.splits)
    with a(1-3) show "0 < taken r"
      using assms(2) unfolding adapter_test_runtime_def by blast
  qed (use fresh s(3) in simp_all)
  then obtain c where c: "write_all (so_io (mock_ops io)) (length ?bs) client ?bs = Some c" "ok (mk_end c)" "out (mk_end c) = ?bs"
    using fresh by auto
  have carried: "ok (carry (mk_end c) server)" "inn (carry (mk_end c) server) = ?bs"
    using assms(2) c fresh by (simp_all add: adapter_test_runtime_def)
  obtain server' r where poll: "ai_poll_read io (carry (mk_end c) server) \<lparr>rb_filled = [], rb_remaining = 1024\<rparr> = (server', r)"
    by fastforce
  have "?bs \<noteq> []" and "length ?bs \<le> 1024"
    using s(3,4) by fastforce+
  then have "handed_out \<lparr>rb_filled = [], rb_remaining = 1024\<rparr> r = ?bs"
    using assms(2) poll carried unfolding adapter_test_runtime_def by metis
  with \<open>?bs \<noteq> []\<close> obtain buf where "r = Ready (Ok buf)" "rb_filled buf = ?bs"
    by (cases r) (auto split: res.splits)
  with poll have "read_once io (carry (mk_end c) server) 1024 = Some (server', ?bs)"
    by (simp add: read_once_def)
  with c(1) new sample_message [OF laws sent, where 'd = 'd] sample_runs(2) [OF laws sent, where 'd = 'd] s(1) show ?thesis
    by (simp add: test_message_transport_adapter_def build_is_build_with_nil nil topic_message_built)
qed

section \<open>Property\<close>

definition manager_tests ::
  "('m, ('w, 's, 'l) transport_object, 'c) manager_lib \<Rightarrow> ('w, 's, 'l) builtin_ops \<Rightarrow> instant \<Rightarrow> 'w \<Rightarrow> test list" where
  "manager_tests lib ops now w =
     [test_transport_manager_creation lib ops now, test_custom_cache_config lib ops now, test_invalid_url lib ops now w,
      test_connection_tracking lib ops now, test_cache_cleanup lib ops now]"

text \<open>
  C26. The unit tests of the transport crate, those of the IPC transport aside. The tests of the
  manager, of the channel, of the message framing and of what the network has no part in pass,
  for every map and cache that is as documented, every runtime whose pipes carry bytes and every
  library under the codec that the tests of the protocol crate admit; so do the two tests of
  concurrent connections, on every network, also on one that refuses all five. The others test
  the network: the listener test passes exactly if the system gives it a loopback listener; the
  TCP tests of unknown hosts pass if the connection is refused, and the one of the errors fails
  if no answer comes before the deadline; the WebSocket ones pass exactly if the host cannot be
  dialled (or not in time); and the TLS test exactly if the public server cannot be dialled or
  closes without an error.
\<close>

theorem transport_tests_pass:
  assumes "manager_laws mlib" and "tcp_test_urls (tl_url_parse tlib)" and "ws_test_urls (wl_url_parse wlib)"
    and "test_library d" and "channel_test_runtime parse dup delivered" and "adapter_test_runtime io dup' carry ok inn out"
  shows "manager_tests mlib ops now w = replicate 5 (Some ()) \<and>
    passes (test_channel_transport_pair d ty parse dup delivered now) \<and>
    passes (test_message_transport_adapter d ty io dup' carry now k) \<and>
    [test_tcp_config, test_tcp_url_parsing_via_supports_url, test_tcp_concurrent_connections tlibs,
     test_websocket_config, test_websocket_url_parsing (wl_url_parse wlib), test_websocket_concurrent_connections wlibs] =
      replicate 6 (Some ()) \<and>
    (passes (test_tcp_listener tlib parse_addr) \<longleftrightarrow> loopback_listener tlib parse_addr) \<and>
    passes (test_tcp_timeout tlib True) \<and>
    (\<forall>e. tl_connect tlib ''nonexistent-domain-for-test.example.com:8080'' = Ready (Inl e) \<longrightarrow>
       passes (test_tcp_timeout tlib False)) \<and>
    (\<forall>e. tl_connect tlib ''nonexistent:8080'' = Ready (Inl e) \<longrightarrow> passes (test_tcp_error_handling tlib)) \<and>
    (tl_connect tlib ''nonexistent:8080'' = Pending \<longrightarrow> \<not> passes (test_tcp_error_handling tlib)) \<and>
    (passes (test_websocket_timeout wlib elapsed) \<longleftrightarrow> elapsed \<or> ws_dials wlib ''ws://192.0.2.1:8080'' = None) \<and>
    (passes (test_websocket_error_handling wlib) \<longleftrightarrow>
       ws_dials wlib ''ws://nonexistent-domain-for-test.example.com:8080'' = None) \<and>
    (passes (test_websocket_tls wlib) \<longleftrightarrow>
       (\<forall>s. ws_dials wlib ''wss://echo.websocket.org'' = Some s \<longrightarrow> snd (wl_close_handshake wlib s) = Inr ()))"
proof (intro conjI)
  show "manager_tests mlib ops now w = replicate 5 (Some ())"
    by (simp add: manager_tests_def manager_tests_pass [OF assms(1)] numeral_eq_Suc)
  show "passes (test_channel_transport_pair d ty parse dup delivered now)"
    by (rule channel_test_passes [OF assms(4,5)])
  show "passes (test_message_transport_adapter d ty io dup' carry now k)"
    by (rule adapter_test_passes [OF assms(4,6)])
  show "[test_tcp_config, test_tcp_url_parsing_via_supports_url, test_tcp_concurrent_connections tlibs,
     test_websocket_config, test_websocket_url_parsing (wl_url_parse wlib), test_websocket_concurrent_connections wlibs] =
      replicate 6 (Some ())"
    by (simp add: tcp_plain_tests ws_plain_tests [OF assms(3)] numeral_eq_Suc)
  show "passes (test_tcp_listener tlib parse_addr) \<longleftrightarrow> loopback_listener tlib parse_addr"
    by (rule tcp_listener_test [OF assms(2)])
  show "passes (test_tcp_timeout tlib True)"
    by (rule tcp_timeout_test [OF assms(2)]) simp
  show "\<forall>e. tl_connect tlib ''nonexistent-domain-for-test.example.com:8080'' = Ready (Inl e) \<longrightarrow>
      passes (test_tcp_timeout tlib False)"
    by (intro allI impI tcp_timeout_test [OF assms(2)] disjI2)
  show "\<forall>e. tl_connect tlib ''nonexistent:8080'' = Ready (Inl e) \<longrightarrow> passes (test_tcp_error_handling tlib)"
    by (intro allI impI) (rule tcp_error_test(1) [OF assms(2)])
  show "tl_connect tlib ''nonexistent:8080'' = Pending \<longrightarrow> \<not> passes (test_tcp_error_handling tlib)"
    by (intro impI) (rule tcp_error_test(2) [OF assms(2)])
qed (rule ws_network_tests [OF assms(3)])+

text \<open>
  An environment for all of them: the parser knows the URLs of the tests, every connection is
  refused, and a duplex is a pair of byte queues.
\<close>

definition test_url :: "string \<Rightarrow> string \<Rightarrow> u16 \<Rightarrow> string \<Rightarrow> url" where
  "test_url scheme host port u =
     \<lparr>url_scheme = scheme, url_host_str = Some host, url_port = Some port, url_path = [], url_text = u\<rparr>"

definition test_url_parse :: url_parser where
  "test_url_parse u =
     (if u = ''http://localhost:8080'' then Inr (test_url ''http'' ''localhost'' 8080 u)
      else if u = ''tcp://nonexistent:8080'' then Inr (test_url ''tcp'' ''nonexistent'' 8080 u)
      else if u = ''tcp://nonexistent-domain-for-test.example.com:8080'' then
        Inr (test_url ''tcp'' ''nonexistent-domain-for-test.example.com'' 8080 u)
      else if u = ''tcp://localhost:0'' then Inr (test_url ''tcp'' ''localhost'' 0 u)
      else if starts_with u ''ws://'' then Inr (test_url ''ws'' ''host'' 8080 u)
      else if starts_with u ''wss://'' then Inr (test_url ''wss'' ''host'' 443 u)
      else if u = ''chan://test'' then Inr (test_url ''chan'' ''test'' 0 u)
      else Inl ''relative URL without a base'')"

definition refusing_tcp :: "(bytes \<times> bytes, unit) tcp_lib" where
  "refusing_tcp = (demo_tcp_lib :: (bytes \<times> bytes, unit) tcp_lib)
     \<lparr>tl_url_parse := test_url_parse, tl_connect := (\<lambda>a. Ready (Inl demo_fs_error)), tl_bind := (\<lambda>a. Inr ()),
      tl_listener_addr := (\<lambda>l. Inr ''127.0.0.1:9'')\<rparr>"

definition refusing_ws :: "(unit, unit, unit) ws_lib" where
  "refusing_ws =
     \<lparr>wl_url_parse = test_url_parse, wl_now = 0, wl_connect = (\<lambda>u. Inl ''refused''), wl_bind = (\<lambda>a. Inr ()),
      wl_accept = (\<lambda>l. Inr ()), wl_handshake = (\<lambda>t. Inr ()), wl_listener_addr = (\<lambda>l. Inr ''addr''),
      wl_is_terminated = (\<lambda>s. False), wl_next = (\<lambda>s. (s, Pending)), wl_ready = (\<lambda>s. (s, Ready (Inr ()))),
      wl_start_send = (\<lambda>m s. (s, Inr ())), wl_flush = (\<lambda>s. (s, Ready (Inr ()))), wl_close = (\<lambda>s. (s, Ready (Inr ()))),
      wl_close_handshake = (\<lambda>s. (s, Inr ())), wl_error_text = (\<lambda>e. [])\<rparr>"

definition queue_pair :: "(bytes \<times> bytes) duplex_fun" where
  "queue_pair n k = (([], []), ([], []))"

definition carry_queue :: "bytes \<times> bytes \<Rightarrow> bytes \<times> bytes \<Rightarrow> bytes \<times> bytes" where
  "carry_queue a b = (fst b @ snd a, snd b)"

lemma demo_environment:
  "tcp_test_urls (tl_url_parse refusing_tcp)" "ws_test_urls (wl_url_parse refusing_ws)"
  "channel_test_runtime test_url_parse queue_pair (\<lambda>a b bs. Some [bs])"
  "adapter_test_runtime demo_pipe queue_pair carry_queue (\<lambda>_. True) fst snd"
proof -
  show "tcp_test_urls (tl_url_parse refusing_tcp)" "ws_test_urls (wl_url_parse refusing_ws)"
    by (simp_all add: tcp_test_urls_def ws_test_urls_def refusing_tcp_def refusing_ws_def reads_url_def test_url_parse_def
        test_url_def starts_with_def)
  show "channel_test_runtime test_url_parse queue_pair (\<lambda>a b bs. Some [bs])"
    by (simp add: channel_test_runtime_def test_url_parse_def test_url_def starts_with_def)
  have "0 < unat (usize_len (take 20 bs))" if "bs \<noteq> []" for bs :: bytes
    using that by (subst unat_usize_len) simp_all
  then show "adapter_test_runtime demo_pipe queue_pair carry_queue (\<lambda>_. True) fst snd"
    using demo_pipe_laws
    by (auto simp: adapter_test_runtime_def queue_pair_def carry_queue_def demo_pipe_def put_slice_def)
qed

theorem transport_tests_pass_witness:
  "manager_tests demo_manager_lib demo_ops 7 () = replicate 5 (Some ()) \<and>
   passes (test_channel_transport_pair numbering_deps TYPE(nat) test_url_parse queue_pair (\<lambda>a b bs. Some [bs]) 7) \<and>
   passes (test_message_transport_adapter numbering_deps TYPE(nat) demo_pipe queue_pair carry_queue 7 0) \<and>
   passes (test_tcp_listener refusing_tcp (\<lambda>a. Some (9, True))) \<and>
   \<not> passes (test_tcp_listener refusing_tcp (\<lambda>a. Some (9, False))) \<and>
   passes (test_tcp_error_handling refusing_tcp) \<and> passes (test_websocket_error_handling refusing_ws) \<and>
   passes (test_websocket_tls refusing_ws)"
proof -
  note t = transport_tests_pass [OF demo_manager_laws demo_environment(1,2) numbering_library demo_environment(3,4),
      where ops = demo_ops and now = 7 and w = "()" and ty = "TYPE(nat)" and k = 0 and elapsed = False
        and tlibs = "\<lambda>_. refusing_tcp" and wlibs = "\<lambda>_. refusing_ws"]
  have found: "loopback_listener refusing_tcp (\<lambda>a. Some (9, True))" "\<not> loopback_listener refusing_tcp (\<lambda>a. Some (9, False))"
    and refused: "tl_connect refusing_tcp ''nonexistent:8080'' = Ready (Inl demo_fs_error)"
    by (simp_all add: loopback_listener_def refusing_tcp_def)
  have undialled: "ws_dials refusing_ws u = None" for u
    by (simp add: ws_dials_def refusing_ws_def split: sum.splits)
  from t [where parse_addr = "\<lambda>a. Some (9, True)"] t [where parse_addr = "\<lambda>a. Some (9, False)"] show ?thesis
    by (simp add: found refused undialled)
qed

end
