(* ===== verification/Ipc_Tests.thy ===== *)
theory Ipc_Tests
  imports Transport_Tests "HOL-Library.Sublist"
begin

text \<open>
  The unit tests of \<open>ipc.rs\<close>, as they are compiled for Unix, run on the model. They pass, but
  the test of the listener looks for the path it asked for inside the address it got, and so
  does not see that the socket is somewhere else.
\<close>

section \<open>The tests\<close>

text \<open>
  \<open>dir\<close> is the path of the temporary directory that a test makes; the directory itself is
  removed again at the end of the block that names it, so \<open>w\<close> is the file system without it.
\<close>

definition test_ipc_config :: test where
  "test_ipc_config = do {
     let config = ipc_config_default;
     assert_that (ic_buffer_size config = 65536);
     assert_that (ic_backlog config = 128);
     let custom_config = \<lparr>ic_buffer_size = 32768, ic_backlog = 64\<rparr>;
     assert_that (ic_buffer_size custom_config = 32768);
     assert_that (ic_backlog custom_config = 64)
   }"

definition test_ipc_url_parsing :: "url_parser \<Rightarrow> test" where
  "test_ipc_url_parsing parse = do {
     assert_that (ipc_supports_url ''ipc:///tmp/test.sock'');
     assert_that (ipc_supports_url ''ipc://test.sock'');
     assert_that (\<not> ipc_supports_url ''http://localhost:8080'');
     assert_that (\<not> ipc_supports_url ''tcp://localhost:8080'');
     let result = ipc_parse_path parse ''invalid-url-no-scheme'';
     assert_that (case result of Err (T_InvalidUrl _) \<Rightarrow> True | _ \<Rightarrow> False);
     let result = ipc_parse_path parse ''http://ipc/path'';
     assert_that (case result of Err (T_InvalidUrl _) \<Rightarrow> True | _ \<Rightarrow> False)
   }"

definition test_ipc_connection_info :: "('w, 's, 'l) ipc_lib \<Rightarrow> path \<Rightarrow> 'w \<Rightarrow> test" where
  "test_ipc_connection_info lib dir w = do {
     let transport = ipc_new;
     let socket_url = ''ipc://'' @ dir @ ''/test_connection_info.sock'';
     (w, listener) \<leftarrow> unwrap_state (ipc_listen lib transport socket_url w);
     let (w, connect_result) = ipc_connect lib transport socket_url w;
     assert_that (is_ok connect_result);
     (case connect_result of
        Ok stream \<Rightarrow> do {
          let info = ipc_connection_info stream;
          assert_that (ci_transport_type info = ''ipc'');
          assert_that (ci_local_addr info \<noteq> None)
        }
      | _ \<Rightarrow> Some ());
     (w, _) \<leftarrow> unwrap_state (ipc_listener_close lib listener w);
     Some ()
   }"

definition test_ipc_error_handling :: "('w, 's, 'l) ipc_lib \<Rightarrow> 'w \<Rightarrow> test" where
  "test_ipc_error_handling lib w = do {
     let transport = ipc_new;
     let (w, result) = ipc_connect lib transport ''invalid-url'' w;
     assert_that (case result of Err (T_InvalidUrl _) \<Rightarrow> True | _ \<Rightarrow> False);
     let non_existent_socket = ''ipc:///tmp/non_existent_socket_for_fleximq_test.sock'';
     let (w, result) = ipc_connect lib transport non_existent_socket w;
     assert_that (case result of Err (T_ConnectionFailure _) \<Rightarrow> True | _ \<Rightarrow> False)
   }"

text \<open>\<open>contains\<close> of a string is \<open>sublist\<close>.\<close>

definition test_ipc_listener :: "('w, 's, 'l) ipc_lib \<Rightarrow> path \<Rightarrow> 'w \<Rightarrow> test" where
  "test_ipc_listener lib dir w = do {
     let transport = ipc_new;
     let expected_path = dir @ ''/test_listener.sock'';
     let socket_url = ''ipc://'' @ expected_path;
     let (w, listener_result) = ipc_listen lib transport socket_url w;
     assert_that (is_ok listener_result);
     (case listener_result of
        Ok listener \<Rightarrow> do {
          let addr_result = ipc_listener_local_addr listener;
          assert_that (is_ok addr_result);
          (case addr_result of
             Ok addr \<Rightarrow> assert_that (sublist expected_path addr)
           | _ \<Rightarrow> Some ());
          let (w, close_result) = ipc_listener_close lib listener w;
          assert_that (is_ok close_result)
        }
      | _ \<Rightarrow> Some ())
   }"

text \<open>\<open>millis\<close> is the time that makes the name of the nested directory.\<close>

definition listen_and_close :: "('w, 's, 'l) ipc_lib \<Rightarrow> string \<Rightarrow> 'w \<Rightarrow> 'w option" where
  "listen_and_close lib u w = do {
     let (w, listener_result) = ipc_listen lib ipc_new u w;
     assert_that (is_ok listener_result);
     (case listener_result of
        Ok listener \<Rightarrow> Some (fst (ipc_listener_close lib listener w))
      | _ \<Rightarrow> Some w)
   }"

definition test_ipc_directory_creation :: "('w, 's, 'l) ipc_lib \<Rightarrow> nat \<Rightarrow> path \<Rightarrow> 'w \<Rightarrow> test" where
  "test_ipc_directory_creation lib millis dir w = do {
     let simple_url = ''ipc://simple_test.sock'';
     w \<leftarrow> listen_and_close lib simple_url w;
     let nested_url = ''ipc:///tmp/nested_test_'' @ display_nat millis @ ''/deep/socket.sock'';
     w \<leftarrow> listen_and_close lib nested_url w;
     let custom_url = ''ipc://'' @ dir @ ''/custom/path/socket.sock'';
     w \<leftarrow> listen_and_close lib custom_url w;
     Some ()
   }"

subsection \<open>Concurrent connections\<close>

text \<open>
  Five tasks connect while one accepts five times and then closes the listener. A step is one
  of the connecting tasks (\<open>Some i\<close>, which runs once) or the accepting task (\<open>None\<close>, which
  waits while nobody has connected). The shared counter counts the successes. A stream is closed
  and dropped by the task that made it.
\<close>

record ('w, 'l) concurrent_test =
  ct_world :: 'w
  ct_listener :: "'l ipc_listener"
  ct_ran :: "nat set"
  ct_count :: nat
  ct_backlog :: nat
  ct_accepts_left :: nat
  ct_closed :: bool

definition connect_task ::
  "('w, 's, 'l) ipc_lib \<Rightarrow> string \<Rightarrow> nat \<Rightarrow> ('w, 'l) concurrent_test \<Rightarrow> ('w, 'l) concurrent_test" where
  "connect_task lib u i t =
     (if i \<in> ct_ran t \<or> 5 \<le> i then t
      else (case ipc_connect lib ipc_new u (ct_world t) of
         (w, Ok stream) \<Rightarrow>
           let counted = t\<lparr>ct_world := w, ct_ran := insert i (ct_ran t), ct_count := ct_count t + 1,
             ct_backlog := ct_backlog t + 1\<rparr>;
             (stream, _) = ipc_stream_close lib stream
           in counted
       | (w, _) \<Rightarrow> t\<lparr>ct_world := w, ct_ran := insert i (ct_ran t)\<rparr>))"

definition listener_task ::
  "('w, 's, 'l) ipc_lib \<Rightarrow> ('w, 'l) concurrent_test \<Rightarrow> ('w, 'l) concurrent_test" where
  "listener_task lib t =
     (if ct_closed t then t
      else if ct_accepts_left t = 0 then
        t\<lparr>ct_world := fst (ipc_listener_close lib (ct_listener t) (ct_world t)), ct_closed := True\<rparr>
      else if ct_backlog t = 0 then t
      else (case ipc_accept lib (ct_listener t) (ct_world t) of
         (w, Ok stream) \<Rightarrow> t\<lparr>ct_world := w, ct_backlog := ct_backlog t - 1, ct_accepts_left := ct_accepts_left t - 1\<rparr>
       | (w, _) \<Rightarrow> t\<lparr>ct_world := w, ct_accepts_left := 0\<rparr>))"

definition concurrent_step ::
  "('w, 's, 'l) ipc_lib \<Rightarrow> string \<Rightarrow> nat option \<Rightarrow> ('w, 'l) concurrent_test \<Rightarrow> ('w, 'l) concurrent_test" where
  "concurrent_step lib u s t = (case s of Some i \<Rightarrow> connect_task lib u i t | None \<Rightarrow> listener_task lib t)"

text \<open>
  Any schedule, after which the tasks that are left run to their end; the test then has
  joined all of them.
\<close>

definition test_ipc_concurrent_connections ::
  "('w, 's, 'l) ipc_lib \<Rightarrow> path \<Rightarrow> nat option list \<Rightarrow> 'w \<Rightarrow> test" where
  "test_ipc_concurrent_connections lib dir schedule w = do {
     let transport = ipc_new;
     let socket_url = ''ipc://'' @ dir @ ''/concurrent_test.sock'';
     let connection_count = 5;
     (w, listener) \<leftarrow> unwrap_state (ipc_listen lib transport socket_url w);
     let start = \<lparr>ct_world = w, ct_listener = listener, ct_ran = {}, ct_count = 0, ct_backlog = 0,
       ct_accepts_left = connection_count, ct_closed = False\<rparr>;
     let joined = fold (concurrent_step lib socket_url)
       (schedule @ map Some [0..<5] @ replicate 6 None) start;
     assert_that (ct_closed joined \<and> ct_ran joined = {..<5});
     assert_that (ct_count joined = connection_count)
   }"

section \<open>The system of the tests\<close>

text \<open>
  \<open>room w p\<close>: a socket can be made at \<open>p\<close>. Then no directory is in its place and no file in
  that of its parent, the parent can be made, what is at \<open>p\<close> can be removed, and binding
  succeeds once \<open>p\<close> is free and the parent exists; none of this takes the room for another
  socket. A socket that is bound can be connected to, and its listener accepts.
\<close>

definition ipc_test_system ::
  "('w, 's, 'l) ipc_lib \<Rightarrow> ('w \<Rightarrow> path \<Rightarrow> 'l fs_entry option) \<Rightarrow> ('w \<Rightarrow> path \<Rightarrow> bool) \<Rightarrow> bool" where
  "ipc_test_system lib entry room \<longleftrightarrow> fs_laws lib entry \<and>
     (\<forall>w p. room w p \<longrightarrow> entry w p \<noteq> Some Directory \<and>
        (\<forall>q. il_parent lib p = Some q \<longrightarrow> p \<noteq> q \<and> entry w q \<in> {None, Some Directory})) \<and>
     (\<forall>w p. room w p \<longrightarrow> entry w p \<noteq> None \<longrightarrow> 
        (\<exists>w'. il_remove_file lib p w = (w', Inr ()) \<and> (\<forall>q. room w q \<longrightarrow> room w' q))) \<and>
     (\<forall>w p q. room w p \<longrightarrow> il_parent lib p = Some q \<longrightarrow>
        (\<exists>w'. il_create_dir_all lib q w = (w', Inr ()) \<and> entry w' q = Some Directory \<and> (\<forall>r. room w r \<longrightarrow> room w' r))) \<and>
     (\<forall>w p. room w p \<longrightarrow> entry w p = None \<longrightarrow> (\<forall>q. il_parent lib p = Some q \<longrightarrow> entry w q = Some Directory) \<longrightarrow>
        (\<exists>w' l. il_bind lib p w = (w', Inr l) \<and> (\<forall>r. room w r \<longrightarrow> room w' r))) \<and>
     (\<forall>w p l. entry w p = Some (SocketFile l) \<longrightarrow> (\<exists>w' s. il_connect lib p w = (w', Inr s) \<and> entry w' = entry w)) \<and>
     (\<forall>w p l. entry w p = Some (SocketFile l) \<longrightarrow> (\<exists>w' s. il_accept lib l w = (w', Inr s) \<and> entry w' = entry w))"

lemma ipc_test_systemD:
  assumes "ipc_test_system lib entry room"
  shows "fs_laws lib entry"
    and "room w p \<Longrightarrow> entry w p \<noteq> Some Directory"
    and "room w p \<Longrightarrow> il_parent lib p = Some q \<Longrightarrow> p \<noteq> q \<and> entry w q \<in> {None, Some Directory}"
    and "room w p \<Longrightarrow> entry w p \<noteq> None \<Longrightarrow> \<exists>w'. il_remove_file lib p w = (w', Inr ()) \<and> (\<forall>q. room w q \<longrightarrow> room w' q)"
    and "room w p \<Longrightarrow> il_parent lib p = Some q \<Longrightarrow>
      \<exists>w'. il_create_dir_all lib q w = (w', Inr ()) \<and> entry w' q = Some Directory \<and> (\<forall>r. room w r \<longrightarrow> room w' r)"
    and "room w p \<Longrightarrow> entry w p = None \<Longrightarrow> \<forall>q. il_parent lib p = Some q \<longrightarrow> entry w q = Some Directory \<Longrightarrow>
      \<exists>w' l. il_bind lib p w = (w', Inr l) \<and> (\<forall>r. room w r \<longrightarrow> room w' r)"
    and "entry w p = Some (SocketFile l) \<Longrightarrow> \<exists>w' s. il_connect lib p w = (w', Inr s) \<and> entry w' = entry w"
    and "entry w p = Some (SocketFile l) \<Longrightarrow> \<exists>w' s. il_accept lib l w = (w', Inr s) \<and> entry w' = entry w"
  using assms unfolding ipc_test_system_def by meson+

text \<open>A URL that the parser reads as \<open>ipc\<close> with the host and the path \<open>host\<close> and \<open>p\<close>.\<close>

definition reads_ipc_url :: "url_parser \<Rightarrow> string \<Rightarrow> string \<Rightarrow> string \<Rightarrow> bool" where
  "reads_ipc_url parse u host p \<longleftrightarrow>
     (\<exists>r. parse u = Inr r \<and> url_scheme r = ''ipc'' \<and> (case url_host_str r of None \<Rightarrow> [] | Some h \<Rightarrow> h) = host \<and>
        url_path r = p)"

lemma absolute_url_path:
  assumes "reads_ipc_url parse u [] (''/'' @ p)" and "\<not> starts_with p ''/''"
  shows "ipc_parse_path parse u = Ok (''/tmp/'' @ p)"
  using assms
  by (auto simp: reads_ipc_url_def ipc_parse_path_def parse_path_on_def parse_url_with_def Let_def normalize_path_def
      strip_prefix_def starts_with_def split: option.splits)

lemma relative_url_path:
  assumes "reads_ipc_url parse u h []" and "h \<noteq> []" and "\<not> starts_with h ''/''"
  shows "ipc_parse_path parse u = Ok (''/tmp/'' @ h)"
  using assms
  by (cases h) (auto simp: reads_ipc_url_def ipc_parse_path_def parse_path_on_def parse_url_with_def Let_def
      normalize_path_def strip_prefix_def starts_with_def split: option.splits)

lemma listen_succeeds:
  assumes "ipc_test_system lib entry room" and "room w p" and "ipc_parse_path (il_url_parse lib) u = Ok p"
  shows "\<exists>w' l. ipc_listen lib tr u w = (w', Ok \<lparr>il_inner = l, il_path = p\<rparr>) \<and>
    entry w' p = Some (SocketFile l) \<and> (\<forall>q. room w q \<longrightarrow> room w' q)"
proof -
  have fs: "fs_laws lib entry"
    using assms(1) by (simp add: ipc_test_system_def)
  have exists: "il_exists lib w p \<longleftrightarrow> entry w p \<noteq> None" for w p
    using fs by (simp add: fs_laws_def)
  define w1 where "w1 = (if il_exists lib w p then fst (il_remove_file lib p w) else w)"
  have w1: "\<forall>q. room w q \<longrightarrow> room w1 q" "entry w1 p = None"
  proof -
    have "(\<forall>q. room w q \<longrightarrow> room w1 q) \<and> entry w1 p = None"
    proof (cases "entry w p = None")
      case True
      then show ?thesis by (simp add: w1_def exists)
    next
      case False
      then obtain w' where rm: "il_remove_file lib p w = (w', Inr ())" "\<forall>q. room w q \<longrightarrow> room w' q"
        using ipc_test_systemD(4) [OF assms(1,2)] by blast
      with fs have "entry w' p = None"
        unfolding fs_laws_def by fastforce
      with rm False show ?thesis by (simp add: w1_def exists)
    qed
    then show "\<forall>q. room w q \<longrightarrow> room w1 q" "entry w1 p = None" by simp_all
  qed
  define made where "made = (case il_parent lib p of
      Some parent \<Rightarrow>
        if \<not> il_exists lib w1 parent then
          (case il_create_dir_all lib parent w1 of (w, r) \<Rightarrow> (w, of_io transport_from_io r))
        else (w1, Ok ())
    | None \<Rightarrow> (w1, Ok ()))"
  have "\<exists>w2. made = (w2, Ok ()) \<and> (\<forall>q. room w q \<longrightarrow> room w2 q) \<and> entry w2 p = None \<and>
      (\<forall>q. il_parent lib p = Some q \<longrightarrow> entry w2 q = Some Directory)"
  proof (cases "il_parent lib p")
    case None
    then show ?thesis using w1 by (simp add: made_def)
  next
    case (Some parent)
    have room1: "room w1 p"
      using w1(1) assms(2) by blast
    then have parent: "entry w1 parent \<in> {None, Some Directory}" "p \<noteq> parent"
      using ipc_test_systemD(3) [OF assms(1) _ Some] by blast+
    show ?thesis
    proof (cases "entry w1 parent = None")
      case True
      obtain w2 where w2: "il_create_dir_all lib parent w1 = (w2, Inr ())" "entry w2 parent = Some Directory"
        "\<forall>q. room w1 q \<longrightarrow> room w2 q"
        using ipc_test_systemD(5) [OF assms(1) room1 Some] by blast
      from w2(3) room1 have "room w2 p"
        by blast
      then have "entry w2 p \<noteq> Some Directory"
        by (rule ipc_test_systemD(2) [OF assms(1)])
      with fs_made_dirs [OF fs w2(1), of p] w1(2) have "entry w2 p = None"
        by auto
      with w2 w1(1) True Some show ?thesis
        by (simp add: made_def exists of_io_def)
    next
      case False
      then show ?thesis using parent(1) w1 Some by (auto simp: made_def exists)
    qed
  qed
  then obtain w2 where w2: "made = (w2, Ok ())" "\<forall>q. room w q \<longrightarrow> room w2 q" "entry w2 p = None"
    "\<forall>q. il_parent lib p = Some q \<longrightarrow> entry w2 q = Some Directory"
    by blast
  then have "room w2 p"
    using assms(2) by blast
  then obtain w3 l where bind: "il_bind lib p w2 = (w3, Inr l)" "\<forall>q. room w2 q \<longrightarrow> room w3 q"
    using ipc_test_systemD(6) [OF assms(1) _ w2(3,4)] by blast
  have "unix_listen lib p w = (w3, Ok l)"
    unfolding unix_listen_def Let_def w1_def [symmetric] made_def [symmetric] w2(1)
    by (simp add: bind of_io_def)
  then have "ipc_listen lib tr u w = (w3, Ok \<lparr>il_inner = l, il_path = p\<rparr>)"
    by (simp add: ipc_listen_def assms(3) adapter_listen_def)
  moreover have "entry w3 p = Some (SocketFile l)"
    using fs_bound(2) [OF fs bind(1)] by simp
  ultimately show ?thesis
    using bind(2) w2(2) by blast
qed

lemma connect_succeeds:
  assumes "ipc_test_system lib entry room" and "entry w p = Some (SocketFile l)"
    and "ipc_parse_path (il_url_parse lib) u = Ok p"
  shows "\<exists>w' s. ipc_connect lib tr u w = (w', Ok (ipc_stream_new (il_now lib) s p)) \<and> entry w' = entry w"
proof -
  obtain w' s where "il_connect lib p w = (w', Inr s)" "entry w' = entry w"
    using ipc_test_systemD(7) [OF assms(1,2)] by blast
  then show ?thesis
    by (auto simp: ipc_connect_def assms(3) adapter_connect_def unix_connect_def of_io_def)
qed

lemma close_keeps_room:
  assumes "ipc_test_system lib entry room" and "room w p" and "room w q"
  shows "room (unix_close lib p w) q"
proof (cases "entry w p = None")
  case True
  then show ?thesis
    using assms ipc_test_systemD(1) [OF assms(1)] by (simp add: unix_close_def fs_laws_def)
next
  case False
  then obtain w' where "il_remove_file lib p w = (w', Inr ())" "\<forall>q. room w q \<longrightarrow> room w' q"
    using ipc_test_systemD(4) [OF assms(1,2)] by blast
  with False assms show ?thesis
    using ipc_test_systemD(1) [OF assms(1)] by (simp add: unix_close_def fs_laws_def)
qed

section \<open>The tests pass\<close>

text \<open>
  The URLs of the tests as the parser reads them, and a system with room for their sockets at
  the places where the transport makes them: the path of the URL, put under \<open>/tmp\<close> once more.
\<close>

definition test_sockets :: "string list" where
  "test_sockets =
     [''/test_connection_info.sock'', ''/test_listener.sock'', ''/concurrent_test.sock'', ''/custom/path/socket.sock'']"

definition ipc_test_urls :: "url_parser \<Rightarrow> nat \<Rightarrow> path \<Rightarrow> bool" where
  "ipc_test_urls parse millis dir \<longleftrightarrow>
     (\<exists>e. parse ''invalid-url-no-scheme'' = Inl e) \<and> (\<exists>e. parse ''invalid-url'' = Inl e) \<and>
     (\<exists>r. parse ''http://ipc/path'' = Inr r \<and> url_scheme r = ''http'') \<and>
     (\<forall>f \<in> set test_sockets. reads_ipc_url parse (''ipc://'' @ dir @ f) [] (dir @ f)) \<and>
     (\<forall>p \<in> {''/tmp/non_existent_socket_for_fleximq_test.sock'',
         ''/tmp/nested_test_'' @ display_nat millis @ ''/deep/socket.sock''}. reads_ipc_url parse (''ipc://'' @ p) [] p) \<and>
     reads_ipc_url parse ''ipc://simple_test.sock'' ''simple_test.sock'' []"

definition ipc_test_rooms ::
  "('w \<Rightarrow> path \<Rightarrow> 'l fs_entry option) \<Rightarrow> ('w \<Rightarrow> path \<Rightarrow> bool) \<Rightarrow> nat \<Rightarrow> path \<Rightarrow> 'w \<Rightarrow> bool" where
  "ipc_test_rooms entry room millis dir w \<longleftrightarrow>
     (\<forall>f \<in> set test_sockets. room w (''/tmp'' @ dir @ f)) \<and> room w ''/tmp/simple_test.sock'' \<and>
     room w (''/tmp/tmp/nested_test_'' @ display_nat millis @ ''/deep/socket.sock'') \<and>
     entry w ''/tmp/tmp/non_existent_socket_for_fleximq_test.sock'' = None"

text \<open>A temporary directory: an absolute path that does not start with two slashes.\<close>

definition absolute_dir :: "path \<Rightarrow> bool" where
  "absolute_dir dir \<longleftrightarrow> starts_with dir ''/'' \<and> tl dir \<noteq> [] \<and> \<not> starts_with (tl dir) ''/''"

lemma test_socket_path:
  assumes "ipc_test_urls parse millis dir" and "absolute_dir dir" and "f \<in> set test_sockets"
  shows "ipc_parse_path parse (''ipc://'' @ dir @ f) = Ok (''/tmp'' @ dir @ f)"
proof -
  obtain r where dir: "dir = ''/'' @ r" and r: "r \<noteq> []" "\<not> starts_with r ''/''"
    using assms(2) by (cases dir) (auto simp: absolute_dir_def starts_with_def)
  from r have "\<not> starts_with (r @ f) ''/''"
    by (cases r) (simp_all add: starts_with_def)
  moreover have "reads_ipc_url parse (''ipc://'' @ dir @ f) [] (''/'' @ r @ f)"
    using assms(1,3) dir by (simp add: ipc_test_urls_def)
  ultimately show ?thesis
    using absolute_url_path [of parse _ "r @ f"] dir by simp
qed

definition ipc_test_setting ::
  "('w, 's, 'l) ipc_lib \<Rightarrow> ('w \<Rightarrow> path \<Rightarrow> 'l fs_entry option) \<Rightarrow> ('w \<Rightarrow> path \<Rightarrow> bool) \<Rightarrow> nat \<Rightarrow> path \<Rightarrow> 'w \<Rightarrow> bool" where
  "ipc_test_setting lib entry room millis dir w \<longleftrightarrow>
     ipc_test_system lib entry room \<and> ipc_test_urls (il_url_parse lib) millis dir \<and>
     ipc_test_rooms entry room millis dir w \<and> absolute_dir dir"

lemma test_socket_facts:
  assumes "ipc_test_setting lib entry room millis dir w" and "f \<in> set test_sockets"
  shows "ipc_test_system lib entry room" and "room w (''/tmp'' @ dir @ f)"
    and "ipc_parse_path (il_url_parse lib) (''ipc://'' @ dir @ f) = Ok (''/tmp'' @ dir @ f)"
proof -
  show "ipc_test_system lib entry room" "room w (''/tmp'' @ dir @ f)"
    using assms by (simp_all add: ipc_test_setting_def ipc_test_rooms_def)
  have "ipc_test_urls (il_url_parse lib) millis dir" "absolute_dir dir"
    using assms(1) by (simp_all add: ipc_test_setting_def)
  then show "ipc_parse_path (il_url_parse lib) (''ipc://'' @ dir @ f) = Ok (''/tmp'' @ dir @ f)"
    by (rule test_socket_path [OF _ _ assms(2)])
qed

lemma test_socket_listens:
  assumes "ipc_test_setting lib entry room millis dir w" and "f \<in> set test_sockets"
  shows "\<exists>w' l. ipc_listen lib tr (''ipc://'' @ dir @ f) w = (w', Ok \<lparr>il_inner = l, il_path = ''/tmp'' @ dir @ f\<rparr>) \<and>
    entry w' (''/tmp'' @ dir @ f) = Some (SocketFile l)"
  using listen_succeeds [OF test_socket_facts [OF assms]] by blast

lemma listener_test_passes:
  assumes "ipc_test_setting lib entry room millis dir w"
  shows "passes (test_ipc_listener lib dir w)"
    and "\<exists>w' ls. ipc_listen lib ipc_new (''ipc://'' @ dir @ ''/test_listener.sock'') w = (w', Ok ls) \<and>
      ipc_listener_local_addr ls = Ok (''/tmp'' @ dir @ ''/test_listener.sock'')"
proof -
  have "''/test_listener.sock'' \<in> set test_sockets"
    by (simp add: test_sockets_def)
  from test_socket_listens [OF assms this] obtain w' l where
    listen: "ipc_listen lib ipc_new (''ipc://'' @ dir @ ''/test_listener.sock'') w =
      (w', Ok \<lparr>il_inner = l, il_path = ''/tmp'' @ dir @ ''/test_listener.sock''\<rparr>)"
    by blast
  have "sublist (dir @ ''/test_listener.sock'') (''/tmp'' @ dir @ ''/test_listener.sock'')"
    by (rule sublist_append_leftI)
  with listen show "passes (test_ipc_listener lib dir w)"
    by (simp add: test_ipc_listener_def ipc_listener_local_addr_def ipc_listener_close_def)
  from listen show "\<exists>w' ls. ipc_listen lib ipc_new (''ipc://'' @ dir @ ''/test_listener.sock'') w = (w', Ok ls) \<and>
      ipc_listener_local_addr ls = Ok (''/tmp'' @ dir @ ''/test_listener.sock'')"
    by (simp add: ipc_listener_local_addr_def)
qed

lemma info_test_passes:
  assumes "ipc_test_setting lib entry room millis dir w"
  shows "passes (test_ipc_connection_info lib dir w)"
proof -
  let ?f = "''/test_connection_info.sock''"
  have f: "?f \<in> set test_sockets"
    by (simp add: test_sockets_def)
  from test_socket_listens [OF assms f] obtain w1 l where
    listen: "ipc_listen lib ipc_new (''ipc://'' @ dir @ ?f) w = (w1, Ok \<lparr>il_inner = l, il_path = ''/tmp'' @ dir @ ?f\<rparr>)"
    and bound: "entry w1 (''/tmp'' @ dir @ ?f) = Some (SocketFile l)"
    by blast
  note facts = test_socket_facts [OF assms f]
  from connect_succeeds [OF facts(1) bound facts(3)] obtain w2 s where
    "ipc_connect lib ipc_new (''ipc://'' @ dir @ ?f) w1 = (w2, Ok (ipc_stream_new (il_now lib) s (''/tmp'' @ dir @ ?f)))"
    by blast
  with listen show ?thesis
    by (simp add: test_ipc_connection_info_def ipc_connection_info_def ipc_stream_new_def ipc_listener_close_def)
qed

lemma error_tests_pass:
  assumes "ipc_test_setting lib entry room millis dir w"
  shows "passes test_ipc_config" and "passes (test_ipc_url_parsing (il_url_parse lib))"
    and "passes (test_ipc_error_handling lib w)"
proof -
  have urls: "ipc_test_urls (il_url_parse lib) millis dir" and fs: "fs_laws lib entry"
    and none: "entry w ''/tmp/tmp/non_existent_socket_for_fleximq_test.sock'' = None"
    using assms ipc_test_systemD(1) by (auto simp: ipc_test_setting_def ipc_test_rooms_def)
  show "passes test_ipc_config"
    by (simp add: test_ipc_config_def ipc_config_default_def)
  show "passes (test_ipc_url_parsing (il_url_parse lib))"
    using urls by (auto simp: ipc_test_urls_def test_ipc_url_parsing_def ipc_supports_url_def starts_with_def
        ipc_parse_path_def parse_path_on_def parse_url_with_def)
  have "reads_ipc_url (il_url_parse lib) ''ipc:///tmp/non_existent_socket_for_fleximq_test.sock'' []
      (''/'' @ ''tmp/non_existent_socket_for_fleximq_test.sock'')"
    using urls by (simp add: ipc_test_urls_def)
  from absolute_url_path [OF this] have path:
    "ipc_parse_path (il_url_parse lib) ''ipc:///tmp/non_existent_socket_for_fleximq_test.sock'' =
      Ok ''/tmp/tmp/non_existent_socket_for_fleximq_test.sock''"
    by (simp add: starts_with_def)
  obtain w' r where r: "il_connect lib ''/tmp/tmp/non_existent_socket_for_fleximq_test.sock'' w = (w', r)"
    by fastforce
  with none fs_connected [OF fs] obtain e where "r = Inl e"
    by (cases r) fastforce+
  moreover obtain e where "ipc_parse_path (il_url_parse lib) ''invalid-url'' = Err (T_InvalidUrl e)"
    using urls by (auto simp: ipc_test_urls_def ipc_parse_path_def parse_path_on_def parse_url_with_def)
  ultimately show "passes (test_ipc_error_handling lib w)"
    using r by (simp add: test_ipc_error_handling_def ipc_connect_def path adapter_connect_def unix_connect_def of_io_def)
qed

lemma listen_and_close_room:
  assumes "ipc_test_system lib entry room" and "room w p" and "ipc_parse_path (il_url_parse lib) u = Ok p"
  shows "\<exists>w'. listen_and_close lib u w = Some w' \<and> (\<forall>q. room w q \<longrightarrow> room w' q)"
proof -
  obtain w1 l where listen: "ipc_listen lib ipc_new u w = (w1, Ok \<lparr>il_inner = l, il_path = p\<rparr>)"
    and room: "\<forall>q. room w q \<longrightarrow> room w1 q"
    using listen_succeeds [OF assms] by blast
  then have "room w q \<longrightarrow> room (unix_close lib p w1) q" for q
    using close_keeps_room [OF assms(1)] assms(2) by blast
  then show ?thesis
    by (simp add: listen_and_close_def listen ipc_listener_close_def)
qed

lemma directory_test_passes:
  assumes "ipc_test_setting lib entry room millis dir w"
  shows "passes (test_ipc_directory_creation lib millis dir w)"
proof -
  let ?nested = "''/tmp/nested_test_'' @ display_nat millis @ ''/deep/socket.sock''"
  have f: "''/custom/path/socket.sock'' \<in> set test_sockets"
    by (simp add: test_sockets_def)
  note custom = test_socket_facts [OF assms f]
  have urls: "ipc_test_urls (il_url_parse lib) millis dir" and rooms: "ipc_test_rooms entry room millis dir w"
    using assms by (simp_all add: ipc_test_setting_def)
  have "reads_ipc_url (il_url_parse lib) ''ipc://simple_test.sock'' ''simple_test.sock'' []"
    using urls by (simp add: ipc_test_urls_def)
  from relative_url_path [OF this] have simple:
    "ipc_parse_path (il_url_parse lib) ''ipc://simple_test.sock'' = Ok ''/tmp/simple_test.sock''"
    by (simp add: starts_with_def)
  have "reads_ipc_url (il_url_parse lib) (''ipc://'' @ ?nested) []
      (''/'' @ ''tmp/nested_test_'' @ display_nat millis @ ''/deep/socket.sock'')"
    using urls by (simp add: ipc_test_urls_def)
  from absolute_url_path [OF this] have nested:
    "ipc_parse_path (il_url_parse lib) (''ipc://'' @ ?nested) = Ok (''/tmp'' @ ?nested)"
    by (simp add: starts_with_def)
  have room: "room w ''/tmp/simple_test.sock''" "room w (''/tmp'' @ ?nested)"
    using rooms by (simp_all add: ipc_test_rooms_def)
  from listen_and_close_room [OF custom(1) room(1) simple] obtain w1 where
    w1: "listen_and_close lib ''ipc://simple_test.sock'' w = Some w1" "\<forall>q. room w q \<longrightarrow> room w1 q"
    by (elim exE conjE)
  then have "room w1 (''/tmp'' @ ?nested)"
    using room(2) by blast
  from listen_and_close_room [OF custom(1) this nested] obtain w2 where
    w2: "listen_and_close lib (''ipc://'' @ ?nested) w1 = Some w2" "\<forall>q. room w1 q \<longrightarrow> room w2 q"
    by (elim exE conjE)
  then have "room w2 (''/tmp'' @ dir @ ''/custom/path/socket.sock'')"
    using custom(2) w1(2) by blast
  from listen_and_close_room [OF custom(1) this custom(3)] obtain w3 where
    "listen_and_close lib (''ipc://'' @ dir @ ''/custom/path/socket.sock'') w2 = Some w3"
    by (elim exE conjE)
  with w1(1) w2(1) show ?thesis
    by (simp add: test_ipc_directory_creation_def)
qed

text \<open>
  The invariant of the concurrent test: every task that ran has succeeded, an accept is paid
  for by a connection, the listener closes after five accepts only, and until then its socket
  is there.
\<close>

definition concurrent_inv ::
  "('w \<Rightarrow> path \<Rightarrow> 'l fs_entry option) \<Rightarrow> path \<Rightarrow> ('w, 'l) concurrent_test \<Rightarrow> bool" where
  "concurrent_inv entry p t \<longleftrightarrow>
     ct_ran t \<subseteq> {..<5} \<and> ct_count t = card (ct_ran t) \<and> ct_accepts_left t \<le> 5 \<and>
     ct_count t = ct_backlog t + (5 - ct_accepts_left t) \<and> (ct_closed t \<longrightarrow> ct_accepts_left t = 0) \<and>
     (\<not> ct_closed t \<longrightarrow> entry (ct_world t) p = Some (SocketFile (il_inner (ct_listener t))))"

lemma concurrent_invD:
  assumes "concurrent_inv entry p t"
  shows "ct_accepts_left t \<noteq> 0 \<Longrightarrow> \<not> ct_closed t"
    and "\<not> ct_closed t \<Longrightarrow> entry (ct_world t) p = Some (SocketFile (il_inner (ct_listener t)))"
    and "ct_count t = card (ct_ran t)" and "ct_accepts_left t \<le> 5"
    and "card (ct_ran t) = ct_backlog t + (5 - ct_accepts_left t)"
  using assms unfolding concurrent_inv_def by (simp_all, linarith?)

lemma all_ran: "concurrent_inv entry p t \<Longrightarrow> ct_accepts_left t = 0 \<Longrightarrow> ct_ran t = {..<5}"
proof -
  assume "concurrent_inv entry p t" and "ct_accepts_left t = 0"
  then have "ct_ran t \<subseteq> {..<5}" and "card {..<5::nat} \<le> card (ct_ran t)"
    by (simp_all add: concurrent_inv_def)
  then show "ct_ran t = {..<5}"
    by (intro card_seteq) simp_all
qed

lemma connect_task_keeps:
  assumes "ipc_test_system lib entry room" and "ipc_parse_path (il_url_parse lib) u = Ok p"
    and "concurrent_inv entry p t"
  shows "concurrent_inv entry p (connect_task lib u i t)"
    and "ct_ran (connect_task lib u i t) = (if i < 5 then insert i (ct_ran t) else ct_ran t)"
    and "ct_accepts_left (connect_task lib u i t) = ct_accepts_left t"
proof -
  have "concurrent_inv entry p (connect_task lib u i t) \<and>
    ct_ran (connect_task lib u i t) = (if i < 5 then insert i (ct_ran t) else ct_ran t) \<and>
    ct_accepts_left (connect_task lib u i t) = ct_accepts_left t"
  proof (cases "i \<in> ct_ran t \<or> 5 \<le> i")
    case True
    then show ?thesis
      using assms(3) by (auto simp: connect_task_def insert_absorb)
  next
    case False
    then have "i \<in> {..<5}" and "i \<notin> ct_ran t"
      by simp_all
    then have "ct_ran t \<noteq> {..<5}"
      by metis
    then have "ct_accepts_left t \<noteq> 0"
      using all_ran [OF assms(3)] by blast
    then have open_still: "\<not> ct_closed t"
      by (rule concurrent_invD(1) [OF assms(3)])
    then have "entry (ct_world t) p = Some (SocketFile (il_inner (ct_listener t)))"
      by (rule concurrent_invD(2) [OF assms(3)])
    from connect_succeeds [OF assms(1) this assms(2)] obtain w' s where
      "ipc_connect lib ipc_new u (ct_world t) = (w', Ok s)" "entry w' = entry (ct_world t)"
      by blast
    moreover have "finite (ct_ran t)"
      using assms(3) finite_subset by (auto simp: concurrent_inv_def)
    ultimately show ?thesis
      using False assms(3) by (auto simp: connect_task_def concurrent_inv_def)
  qed
  then show "concurrent_inv entry p (connect_task lib u i t)"
    and "ct_ran (connect_task lib u i t) = (if i < 5 then insert i (ct_ran t) else ct_ran t)"
    and "ct_accepts_left (connect_task lib u i t) = ct_accepts_left t"
    by simp_all
qed

lemma listener_task_keeps:
  assumes "ipc_test_system lib entry room" and "concurrent_inv entry p t"
  shows "concurrent_inv entry p (listener_task lib t) \<and> ct_ran (listener_task lib t) = ct_ran t \<and>
    (ct_closed t \<longrightarrow> ct_closed (listener_task lib t)) \<and> ct_accepts_left (listener_task lib t) \<le> ct_accepts_left t \<and>
    (ct_accepts_left t = 0 \<longrightarrow> ct_closed (listener_task lib t)) \<and>
    (ct_backlog t \<noteq> 0 \<longrightarrow> ct_accepts_left (listener_task lib t) = ct_accepts_left t - 1)"
proof (cases "ct_closed t \<or> ct_accepts_left t = 0 \<or> ct_backlog t = 0")
  case True
  then show ?thesis
    using assms(2) by (auto simp: listener_task_def concurrent_inv_def)
next
  case False
  then have "entry (ct_world t) p = Some (SocketFile (il_inner (ct_listener t)))"
    using assms(2) by (simp add: concurrent_inv_def)
  from ipc_test_systemD(8) [OF assms(1) this] obtain w' s where
    "il_accept lib (il_inner (ct_listener t)) (ct_world t) = (w', Inr s)" "entry w' = entry (ct_world t)"
    by blast
  then show ?thesis
    using False assms(2) by (auto simp: listener_task_def ipc_accept_def unix_accept_def concurrent_inv_def)
qed

lemma tasks_keep:
  assumes "ipc_test_system lib entry room" and "ipc_parse_path (il_url_parse lib) u = Ok p"
  shows "concurrent_inv entry p t \<Longrightarrow> concurrent_inv entry p (fold (concurrent_step lib u) ss t) \<and>
    ct_ran t \<union> {i. i < 5 \<and> Some i \<in> set ss} \<subseteq> ct_ran (fold (concurrent_step lib u) ss t)"
proof (induction ss arbitrary: t)
  case (Cons s ss)
  have "concurrent_inv entry p (concurrent_step lib u s t) \<and>
    ct_ran t \<union> {i. i < 5 \<and> Some i = s} \<subseteq> ct_ran (concurrent_step lib u s t)"
    using connect_task_keeps [OF assms Cons.prems] listener_task_keeps [OF assms(1) Cons.prems]
    by (auto simp: concurrent_step_def split: option.splits)
  with Cons.IH [of "concurrent_step lib u s t"] show ?case
    by auto
qed simp

text \<open>Once all have connected, the accepting task needs a step for each accept that is left and one to close.\<close>

lemma listener_finishes:
  assumes "ipc_test_system lib entry room"
  shows "concurrent_inv entry p t \<Longrightarrow> ct_ran t = {..<5} \<Longrightarrow> ct_accepts_left t < n \<Longrightarrow>
    ct_closed (fold (concurrent_step lib u) (replicate n None) t)"
proof (induction n arbitrary: t)
  case (Suc n)
  let ?t = "listener_task lib t"
  note keeps = listener_task_keeps [OF assms Suc.prems(1)]
  have closed: "ct_closed t' \<Longrightarrow> ct_closed (fold (concurrent_step lib u) (replicate m None) t')" for t' m
    by (induction m) (simp_all add: concurrent_step_def listener_task_def)
  show ?case
  proof (cases "ct_accepts_left t = 0")
    case True
    with keeps have "ct_closed ?t"
      by blast
    then show ?thesis
      using closed [of ?t n] by (simp add: concurrent_step_def [of _ _ None])
  next
    case False
    have "ct_backlog t \<noteq> 0"
    proof
      assume "ct_backlog t = 0"
      then show False
        using concurrent_invD(4,5) [OF Suc.prems(1)] Suc.prems(2) False by simp
    qed
    with keeps False Suc.prems(2,3) have "ct_closed (fold (concurrent_step lib u) (replicate n None) ?t)"
      by (intro Suc.IH) simp_all
    then show ?thesis
      by (simp add: concurrent_step_def [of _ _ None])
  qed
qed simp

lemma concurrent_test_passes:
  assumes "ipc_test_setting lib entry room millis dir w"
  shows "passes (test_ipc_concurrent_connections lib dir schedule w)"
proof -
  let ?f = "''/concurrent_test.sock''"
  have f: "?f \<in> set test_sockets"
    by (simp add: test_sockets_def)
  note facts = test_socket_facts [OF assms f]
  define u where "u = ''ipc://'' @ dir @ ?f"
  define p where "p = ''/tmp'' @ dir @ ?f"
  from test_socket_listens [OF assms f, of ipc_new, folded u_def p_def] obtain w1 l where
    listen: "ipc_listen lib ipc_new u w = (w1, Ok \<lparr>il_inner = l, il_path = p\<rparr>)"
    and bound: "entry w1 p = Some (SocketFile l)"
    by (elim exE conjE)
  define start where "start = \<lparr>ct_world = w1, ct_listener = \<lparr>il_inner = l, il_path = p\<rparr>, ct_ran = {}, ct_count = 0,
    ct_backlog = 0, ct_accepts_left = 5, ct_closed = False\<rparr>"
  note keep = tasks_keep [OF facts(1) facts(3) [folded u_def p_def]]
  define mid where "mid = fold (concurrent_step lib u) (schedule @ map Some [0..<5]) start"
  define last where "last = fold (concurrent_step lib u) (replicate 6 None) mid"
  have "concurrent_inv entry p start"
    using bound by (simp add: start_def concurrent_inv_def)
  from keep [OF this, of "schedule @ map Some [0..<5]", folded mid_def]
  have mid: "concurrent_inv entry p mid" "{..<5} \<subseteq> ct_ran mid"
    by auto
  then have ran: "ct_ran mid = {..<5}" and "ct_accepts_left mid < 6"
    by (auto simp: concurrent_inv_def)
  then have closed: "ct_closed last"
    unfolding last_def by (intro listener_finishes [OF facts(1) mid(1)]) 
  from keep [OF mid(1), of "replicate 6 None", folded last_def]
  have inv: "concurrent_inv entry p last"
    by simp
  with closed have "ct_ran last = {..<5}"
    by (intro all_ran) (auto simp: concurrent_inv_def)
  with inv have "ct_count last = 5"
    by (simp add: concurrent_inv_def)
  moreover have "fold (concurrent_step lib u) (schedule @ map Some [0..<5] @ replicate 6 None) start = last"
    by (simp only: last_def mid_def fold_append o_apply)
  ultimately show ?thesis
    unfolding test_ipc_concurrent_connections_def Let_def u_def [symmetric] listen
    using closed \<open>ct_ran last = {..<5}\<close> by (simp add: start_def [symmetric] del: upt_rec_numeral)
qed

section \<open>Property\<close>

definition ipc_tests :: "('w, 's, 'l) ipc_lib \<Rightarrow> nat \<Rightarrow> path \<Rightarrow> nat option list \<Rightarrow> 'w \<Rightarrow> test list" where
  "ipc_tests lib millis dir schedule w =
     [test_ipc_config, test_ipc_url_parsing (il_url_parse lib), test_ipc_connection_info lib dir w,
      test_ipc_error_handling lib w, test_ipc_listener lib dir w, test_ipc_directory_creation lib millis dir w,
      test_ipc_concurrent_connections lib dir schedule w]"

text \<open>
  C27. The unit tests of the IPC transport pass on a system with room for their sockets,
  whatever the order in which the tasks of the concurrent one run. The listener they make is
  not at the path they ask for, but at that path under \<open>/tmp\<close>: the test of the listener passes
  because the address it gets contains the path.
\<close>

theorem ipc_tests_pass:
  assumes "ipc_test_setting lib entry room millis dir w"
  shows "ipc_tests lib millis dir schedule w = replicate 7 (Some ()) \<and>
    (\<exists>w' ls. ipc_listen lib ipc_new (''ipc://'' @ dir @ ''/test_listener.sock'') w = (w', Ok ls) \<and>
      ipc_listener_local_addr ls = Ok (''/tmp'' @ dir @ ''/test_listener.sock''))"
proof (intro conjI listener_test_passes(2) [OF assms])
  show "ipc_tests lib millis dir schedule w = replicate 7 (Some ())"
    by (simp add: ipc_tests_def error_tests_pass [OF assms] info_test_passes [OF assms] listener_test_passes(1) [OF assms]
        directory_test_passes [OF assms] concurrent_test_passes [OF assms] numeral_eq_Suc)
qed

text \<open>A file system in memory, with the directory of a path found as \<open>Path::parent\<close> finds it.\<close>

definition parent_dir :: "path \<Rightarrow> path" where
  "parent_dir p = rev (tl (dropWhile (\<lambda>c. c \<noteq> CHR ''/'') (rev p)))"

definition test_ipc_parse :: url_parser where
  "test_ipc_parse u =
     (if u = ''http://ipc/path'' then Inr (test_url ''http'' ''ipc'' 80 u)
      else if u = ''ipc://simple_test.sock'' then Inr (test_url ''ipc'' ''simple_test.sock'' 0 u)
      else if starts_with u ''ipc:///'' then Inr \<lparr>url_scheme = ''ipc'', url_host_str = None, url_port = None,
        url_path = drop 6 u, url_text = u\<rparr>
      else Inl ''relative URL without a base'')"

definition memory_ipc_lib :: "(demo_files, nat, nat) ipc_lib" where
  "memory_ipc_lib = demo_ipc_lib
     \<lparr>il_url_parse := test_ipc_parse, il_parent := (\<lambda>p. Some (parent_dir p)),
      il_create_dir_all := (\<lambda>p w. case snd w p of
          None \<Rightarrow> ((fst w, (snd w)(p \<mapsto> Directory)), Inr ())
        | Some Directory \<Rightarrow> (w, Inr ())
        | Some _ \<Rightarrow> (w, Inl demo_fs_error))\<rparr>"

definition memory_sockets :: "path list" where
  "memory_sockets = [''/tmp/d/test_connection_info.sock'', ''/tmp/d/test_listener.sock'', ''/tmp/d/concurrent_test.sock'',
     ''/tmp/d/custom/path/socket.sock'', ''/tmp/simple_test.sock'', ''/tmp/tmp/nested_test_7/deep/socket.sock'']"

definition memory_room :: "demo_files \<Rightarrow> path \<Rightarrow> bool" where
  "memory_room w p \<longleftrightarrow> p \<in> set memory_sockets \<and> snd w p \<noteq> Some Directory \<and>
     (\<forall>q \<in> set memory_sockets. snd w q \<noteq> Some Directory \<and> snd w (parent_dir q) \<in> {None, Some Directory})"

lemma memory_parents: "p \<in> set memory_sockets \<Longrightarrow> parent_dir p \<notin> set memory_sockets"
  by (auto simp: memory_sockets_def parent_dir_def)

lemma memory_parent_other: "p \<in> set memory_sockets \<Longrightarrow> p \<noteq> parent_dir p"
  using memory_parents by metis

lemma memory_fs_laws: "fs_laws memory_ipc_lib snd"
  unfolding fs_laws_def
  by (auto simp: memory_ipc_lib_def demo_ipc_lib_def split: option.splits fs_entry.splits)

lemma memory_dirs:
  assumes "memory_room w p"
  shows "\<exists>w'. il_create_dir_all memory_ipc_lib (parent_dir p) w = (w', Inr ()) \<and>
    snd w' (parent_dir p) = Some Directory \<and> (\<forall>r. memory_room w r \<longrightarrow> memory_room w' r)"
proof -
  have p: "p \<in> set memory_sockets" and "snd w (parent_dir p) \<in> {None, Some Directory}"
    using assms by (simp_all add: memory_room_def)
  moreover have "memory_room (n, (snd w)(parent_dir p \<mapsto> Directory)) r" if "memory_room w r" for n r
    using that memory_parents [OF p] by (auto simp: memory_room_def)
  ultimately show ?thesis
    by (cases w) (auto simp: memory_ipc_lib_def)
qed

lemma memory_system: "ipc_test_system memory_ipc_lib snd memory_room"
  unfolding ipc_test_system_def
  apply (intro conjI memory_fs_laws)
  subgoal by (simp add: memory_room_def memory_ipc_lib_def memory_parent_other)
  subgoal by (auto simp: memory_room_def memory_ipc_lib_def demo_ipc_lib_def split: option.splits fs_entry.splits)
  subgoal using memory_dirs by (simp add: memory_ipc_lib_def)
  subgoal by (auto simp: memory_room_def memory_ipc_lib_def demo_ipc_lib_def dest: memory_parents)
  subgoal by (auto simp: memory_ipc_lib_def demo_ipc_lib_def)
  subgoal by (auto simp: memory_ipc_lib_def demo_ipc_lib_def)
  done

lemma memory_setting: "ipc_test_setting memory_ipc_lib snd memory_room 7 ''/d'' (0, Map.empty)"
proof -
  have seven: "display_nat 7 = ''7''"
    by (simp add: display_nat.simps digit_char_def char_of_def bit_0)
  have "ipc_test_urls (il_url_parse memory_ipc_lib) 7 ''/d''"
    by (simp add: ipc_test_urls_def memory_ipc_lib_def test_ipc_parse_def test_url_def reads_ipc_url_def test_sockets_def
        starts_with_def seven)
  moreover have "ipc_test_rooms snd memory_room 7 ''/d'' (0 :: nat, Map.empty)"
    by (simp add: ipc_test_rooms_def memory_room_def memory_sockets_def test_sockets_def seven)
  ultimately show ?thesis
    using memory_system by (simp add: ipc_test_setting_def absolute_dir_def starts_with_def)
qed

theorem ipc_tests_pass_witness:
  "ipc_tests memory_ipc_lib 7 ''/d'' [Some 3, None, None, Some 0] (0, Map.empty) = replicate 7 (Some ()) \<and>
   (\<exists>w' ls. ipc_listen memory_ipc_lib ipc_new (''ipc://'' @ ''/d'' @ ''/test_listener.sock'') (0, Map.empty) = (w', Ok ls) \<and>
      ipc_listener_local_addr ls = Ok (''/tmp'' @ ''/d'' @ ''/test_listener.sock''))"
  by (rule ipc_tests_pass [OF memory_setting])

end
