(* ===== verification/Spec2Isabelle.thy ===== *)
theory Spec2Isabelle
  imports Fair_Stream Conversation Connections Ipc_Windows Hostile_Input Recently_Used Websocket_Session Ipc_Tests
begin

text \<open>
  A model of FlexiMQ (the crates \<open>protocol\<close>, \<open>transport\<close> and \<open>peer\<close> under \<open>src/crates\<close>) with the
  theorems that say what it does. FlexiMQ is a message protocol (a 34-byte base header, a
  MessagePack header and a payload), a set of byte-stream transports selected by URL, and a
  peer that joins a broker over one of them.

  \<^bold>\<open>Theories and the code they model.\<close>
  \<^item> \<open>Prelude\<close>: the results of fallible code (\<open>Ok\<close>, \<open>Err\<close>, \<open>Panic\<close>), sequencing (\<open>res_bind\<close> is
    \<open>?\<close>), machine words and their big-endian bytes (locale \<open>fixed_width\<close>), slices, the
    collections \<open>wire\<close> and \<open>outcome\<close> of simplification rules.
  \<^item> \<open>Protocol_Types\<close>: \<open>lib.rs\<close> (constants), \<open>errors.rs\<close> and \<open>types.rs\<close>.
  \<^item> \<open>Externals\<close>: what the protocol crate takes from other crates (nom, rmp_serde, rmpv), as
    the record \<open>deps\<close> with the laws \<open>nom_laws\<close>, and an instance, \<open>demo_deps\<close>, that satisfies
    them.
  \<^item> \<open>Frame_Parser\<close>, \<open>Validation\<close>, \<open>Stream_Parser\<close>: \<open>parser.rs\<close> (the parsers of a frame, the
    validation of a header, \<open>MessageParser\<close>).
  \<^item> \<open>Messages\<close>: \<open>message.rs\<close>. A \<open>OnceCell\<close> is an optional value in the state of the message,
    so an accessor returns the message with its caches as it leaves them.
  \<^item> \<open>Message_Builder\<close>: \<open>builder.rs\<close>. \<open>Codecs\<close>: \<open>codec.rs\<close>. \<open>Message_Typing\<close>: what every
    message that the crate hands out has in common. \<open>Request_Response\<close>: a request and its
    answer, from the builder of the one end through \<open>create_response\<close> of the other and back;
    \<open>Conversation\<close>: any number of them over two streams.
    \<open>Hostile_Input\<close>: the decoders on arbitrary bytes, and what follows.
  \<^item> \<open>Transport_Base\<close>: \<open>error.rs\<close> and the data of \<open>traits.rs\<close> of the transport crate.
    \<open>Stream_Objects\<close>: the trait \<open>TransportStream\<close> with its implementation for \<open>Box\<close>, and
    \<open>StreamBorrow\<close> of \<open>message.rs\<close>. A trait object is the record of its operations, and a use
    of it a list of calls.
  \<^item> \<open>Tcp_Transport\<close>, \<open>Channel_Transport\<close>, \<open>Stdio_Transport\<close>, \<open>Ipc_Transport\<close>,
    \<open>Websocket_Transport\<close>: the file of the same name each (\<open>ipc/unix.rs\<close> with \<open>ipc.rs\<close>).
    \<open>Ipc_Windows\<close>: \<open>ipc/windows.rs\<close> and the Windows branches of \<open>ipc.rs\<close>.
  \<^item> \<open>Floats\<close>: the \<open>f64\<close> arithmetic of the statistics. \<open>Transport_Manager\<close>: \<open>manager.rs\<close>.
    \<open>Recently_Used\<close>: its statistics against a log of all uses.
    \<open>Connections\<close>: the manager over the models of the five default transports.
  \<^item> \<open>Peers\<close>: the peer crate, and the framing of a stream in \<open>message.rs\<close> of the transport
    crate. \<open>Shared_Stream\<close>: the same sending and receiving as the steps of concurrent handles
    on one locked stream (\<open>lib.rs\<close> of the peer crate), \<open>Fair_Stream\<close> the histories of its runs.
    \<open>Websocket_Session\<close> and \<open>Stream_Session\<close>: the codec over \<open>poll_write\<close> and \<open>poll_read\<close>
    of \<open>websocket.rs\<close>, and of any of the byte-stream transports.
  \<^item> \<open>Protocol_Tests\<close>, \<open>Transport_Tests\<close>, \<open>Ipc_Tests\<close>: the unit tests of the two crates as they
    stand in the \<open>tests\<close> modules, each a definition over the model of what it tests, with the
    stream that the test of the framing declares for itself.

  \<^bold>\<open>How the parts interact.\<close> \<open>build\<close> and \<open>build_with_payload\<close> validate a header and give a raw
  message; the codecs write its \<open>to_bytes\<close>; the bytes of the other side go through
  \<open>push_data\<close> and \<open>try_parse\<close> of the stream parser, which hands whole frames to \<open>from_bytes\<close>.
  The stream parser is the state of \<open>MessageCodec\<close> and \<open>MessageDecoder\<close>; the locale
  \<open>stream_decoder\<close> states what a connection relies on (frames are taken off the front, part
  of a frame is kept, a refused read changes nothing) and is interpreted for both, as
  \<open>frame_encoder\<close> is for the four encoders; \<open>consuming_decoder\<close> is the weaker contract from
  which reading is shown to end, and \<open>checked_decoder\<close> extends it by what a decoder keeps and
  promises on any input. A transport's stream keeps its identity whatever is called
  on it (locale \<open>transport_stream\<close>, interpreted for the five transports), and four of them
  pass bytes on as the runtime's streams under them do (\<open>pipe_laws\<close>). The manager relies on
  each transport for the schemes it claims (locale \<open>scheme_transport\<close>, interpreted for the five
  transports) and hands out their streams in boxes. The peer connects through the manager
  and sends and receives through a codec.

  \<^bold>\<open>Conventions.\<close> A \<open>u8\<close>, \<open>u16\<close>, \<open>u32\<close>, \<open>u64\<close> is a word of its width and \<open>usize\<close> one of 64
  bits; arithmetic wraps, as it does in a release build. A panic is the value \<open>Panic\<close>. A
  \<open>&mut self\<close> method returns the new state with its result. Lengths of real buffers are
  below the size of the address space (\<open>rust_sized\<close>). An awaited operation of the runtime is
  \<open>Ready\<close> with its result or \<open>Pending\<close>. Libraries, the operating system and the clock are
  record parameters; what the theorems need of them is a named predicate (\<open>nom_laws\<close>,
  \<open>tcp_io_laws\<close>, \<open>manager_laws\<close>, \<open>fresh_ends\<close>, \<open>fs_laws\<close>, \<open>pipe_rules\<close>, \<open>ws_conn_laws\<close>,
  \<open>pipe_laws\<close>, \<open>responsive\<close>, \<open>process_laws\<close>, \<open>usable_path\<close>, \<open>served_in_order\<close>) that a
  concrete instance satisfies. A unit test is \<open>Some ()\<close> or, where an assertion, an \<open>unwrap\<close> or an
  index of it fails, \<open>None\<close>, and is written in the do-notation of the option monad; what it needs
  of its environment is a predicate as well (\<open>test_library\<close>, \<open>tcp_test_urls\<close>,
  \<open>ipc_test_setting\<close> and others). An \<open>f64\<close> is the rational number it stands for. A lock is not
  poisoned, since a panic ends the process.

  \<^bold>\<open>What the lemmas show.\<close>
  \<^item> Wire format: the parsers accept exactly what the serialiser writes (\<open>frame_parse_exact\<close>,
    \<open>base_header_parse_exact\<close>, \<open>wire_roundtrip\<close>, \<open>to_bytes_outcome\<close>), up to the wrap-around of
    announced lengths (\<open>parsers_agree\<close>, \<open>received_message_sections\<close>).
  \<^item> Validation and building: the table of required and forbidden fields is what the code
    checks (\<open>validate_refines_table\<close>, \<open>build_outcome\<close>, \<open>specialised_builders\<close>); a request that
    builds can be answered, and the answer finds its way back (\<open>request_answered\<close>), also when
    many requests and answers are on their way at once (\<open>answers_find_requests\<close>).
  \<^item> Streams: bytes are conserved over every run, frames come out whole and in order however
    the stream is cut (\<open>parser_conserves_bytes\<close>, \<open>try_parse_exact\<close>, \<open>codec_reassembles\<close>), and
    where messages are lost or refused (\<open>bad_start_blocks\<close>, \<open>parse_all_drops_messages\<close>,
    \<open>coalesced_read_refused\<close>).
  \<^item> Hostile input: whatever bytes arrive, a codec or a decoder comes back without a panic,
    within its limits and with well-typed messages only, also those before an error, and every
    byte is in a message, held or unread, but for a frame whose lengths wrap to fewer than 34
    bytes (\<open>hostile_bytes\<close>); but what reads a message whose
    announced lengths wrap does panic, answering it included (\<open>wrapping_frame_aborts\<close>).
  \<^item> Messages: every message is laid out as its base header says (\<open>message_invariant\<close>), lazy
    caches are invisible (\<open>lazy_access_transparent\<close>) but for the typed payload
    (\<open>typed_payload_cache\<close>).
  \<^item> Transports: framing and its limits on TCP (\<open>tcp_frames_delivered\<close>), pairing and its race on channels (a step
    relation with a refinement to an abstract registry), commands and closing on stdio,
    paths and the ownership of sockets on IPC (\<open>ipc_listener_takeover\<close>,
    \<open>windows_listener_refused\<close>), reads and whole sessions on WebSocket (\<open>ws_session\<close>); the
    end of a child process (\<open>stdio_close_outcome\<close>), the
    identity of a stream (\<open>stream_identity\<close>) and the transparency of the wrappers around it.
  \<^item> Sessions over a byte stream: a link is a step relation of encoding, partial writes, the
    connection and reads. Its invariant \<open>link_ok\<close> (what was sent is what was read, what can be
    read, what is in transit and what is unwritten) gives safety (\<open>stream_session\<close>) and, by
    emptying one part after the other, that a session can always be completed
    (\<open>stream_session_completes\<close>); \<open>streams_stay_pipes\<close> supplies the streams.
  \<^item> Manager and peer: selection, what a connection made through the manager is
    (\<open>manager_connects\<close>), the statistics with the bounds of their ratios, and the
    join handshake. The statistics refine a log of all uses: they hold the most recently used
    URLs of it (\<open>statistics_recency\<close>).
  \<^item> Concurrency: the calls on a shared stream take effect one by one
    (\<open>shared_calls_sequential\<close>, a simulation of the locked stream by a sequential one, which
    \<open>one_by_one_replays\<close> ties to the functions of \<open>Peers\<close>), and a waiting receiver keeps
    everybody from sending (\<open>receive_blocks_send\<close>). If the lock of the runtime is fair, as it is
    documented to be, calls return in the order in which they were made, because a call asks for
    one guard and keeps it until it returns (\<open>calls_in_order\<close>, an invariant over histories,
    which are the runs with their events).
  \<^item> Unit tests: those of the protocol crate (\<open>protocol_tests_pass\<close>), of the manager and the
    TCP, WebSocket and channel transports (\<open>transport_tests_pass\<close>) and of the IPC transport
    (\<open>ipc_tests_pass\<close>) pass on the model, for every library and every system that does what
    they need; of those that dial hosts of the network it is said when they do. The one of the IPC listener passes although its socket is not where it was
    asked for.
  \<^item> The whole stack: \<open>session_delivery\<close> below.

  \<^bold>\<open>Loops and bounds.\<close> \<open>parse_all\<close> ends because every message it takes shortens the buffer;
  it is a \<open>function\<close> with that measure. Draining a decoder (\<open>drain\<close>, \<open>feed\<close>, and
  \<open>drain_log\<close>, \<open>feed_log\<close>, which keep the messages before an error) and waiting for
  the join answer (\<open>join_wait\<close>) have no bound in the code and are partial functions: \<open>None\<close>
  is not returning. \<open>reading_ends\<close> shows that draining and feeding always return, on any
  input; \<open>join_wait_exact\<close> says for which item of the stream the wait for the answer does. The model of the program
  uses no fuel; in the tests, \<open>write_all\<close> may poll once per byte, since a poll takes one at
  least, and the concurrent IPC test ends in one turn of each connecting task and six of the
  accepting one, which is all that can be left of them.

  \<^bold>\<open>Not modelled.\<close> Log output; the wakers of the runtime (a poll is \<open>Ready\<close> or \<open>Pending\<close>, and
  who polls again is not said); a caller that drops a pending call of the shared stream; the
  global ULID generator, whose answer is a parameter of \<open>peer_from_stream\<close>; the file names
  of Windows paths with a network prefix (a parameter). Module lists, re-exports, type
  aliases and imports have no content to model, \<open>constants.rs\<close> of the transport crate is not
  part of its module tree, and the crates \<open>broker\<close> and \<open>fleximq\<close> are empty. Of the unit tests,
  the mocks that none of them uses and the Windows variants of those in \<open>ipc.rs\<close> are left out;
  the programs under \<open>examples\<close> of the transport crate only print and send greetings.
\<close>

section \<open>Properties of the whole stack\<close>

text \<open>What one built message is on arrival.\<close>

abbreviation arrives_as ::
  "'v deps \<Rightarrow> 'v message_builder \<times> bytes \<Rightarrow> ('v, 'd) message \<Rightarrow> bool" where
  "arrives_as d s m \<equiv>
     m_message_type m = mb_message_type (fst s) \<and> m_client_id m = mb_client_id (fst s) \<and>
     snd (m_header d m) = Ok (mb_header (fst s)) \<and> raw_payload_bytes m = Ok (snd s) \<and>
     well_formed (m_message_type m) (mb_header (fst s))"

lemma built_arrives:
  fixes d :: "'v deps" and m :: "('v, 'd) message"
  assumes "nom_laws d" and "build_with_payload (fst s) (Inr (snd s)) = Ok rm"
    and "encodable d rm" and "decodes_back d (rm_header rm)" and "into_message d rm = Ok m"
  shows "arrives_as d s m"
  using received_reads_back [OF assms(1,3-5)] assms(2)
  by (auto simp: build_with_payload_Ok_iff buildable_def built_def)

text \<open>
  C1. Delivery through the whole protocol stack: messages built with \<open>MessageBuilder\<close>,
  written one after the other by a codec and cut by the connection into any reads that
  leave room for a frame, come out of the decoder at the other end in the same number and
  order, each with the type, client id, header and payload of its builder; nothing is
  left over, and what arrives is well formed again.
\<close>

theorem session_delivery:
  fixes d :: "'v deps"
  assumes "nom_laws d"
    and "list_all2 (\<lambda>s rm. build_with_payload (fst s) (Inr (snd s)) = Ok rm) sends rms"
    and "\<forall>rm \<in> set rms. encodable d rm \<and> decodes_back d (rm_header rm)"
    and "encode_all (codec_encode_raw d codec) rms [] = (bs, Ok ())"
    and "concat chunks = bs" and "\<forall>c \<in> set chunks. length c + 34 \<le> 2 ^ 30"
    and "\<forall>rm \<in> set rms. \<forall>b. to_bytes d rm = Ok b \<longrightarrow> (\<forall>c \<in> set chunks. length b + length c \<le> 2 ^ 30)"
  shows "\<exists>ms :: ('v, 'd) message list.
    feed (decoder_decode d) decoder [] chunks [] = Some ((decoder, []), Ok ms) \<and>
    list_all2 (arrives_as d) sends ms"
proof -
  obtain ms :: "('v, 'd) message list"
    where fed: "feed (decoder_decode d) decoder [] chunks [] = Some ((decoder, []), Ok ms)"
      and arrived: "list_all2 (\<lambda>rm m. into_message d rm = Ok m) rms ms"
    using codec_delivers [OF assms(1) _ assms(4-7)] assms(3) by blast
  have "list_all2 (\<lambda>rm m. encodable d rm \<and> decodes_back d (rm_header rm) \<and> into_message d rm = Ok m) rms ms"
    using arrived assms(3) by (auto elim!: list.rel_mono_strong)
  then have "list_all2 (arrives_as d) sends ms"
    by (rule list_all2_trans [rotated 2]) (use assms(2) built_arrives [OF assms(1)] in auto)
  with fed show ?thesis by blast
qed

theorem session_delivery_witness:
  "\<exists>ms :: (nat, nat) message list.
     feed (decoder_decode demo_deps) decoder [] [take 50 (frame_bytes demo_frame @ frame_bytes demo_frame),
       drop 50 (frame_bytes demo_frame @ frame_bytes demo_frame)] [] = Some ((decoder, []), Ok ms) \<and>
     length ms = 2 \<and> (\<forall>m \<in> set ms. snd (m_header demo_deps m) = Ok demo_header)"
proof -
  let ?bs = "frame_bytes demo_frame @ frame_bytes demo_frame"
  let ?send = "(mb_simple_publish 1000 ''t'' :: nat message_builder, [7 :: u8])"
  have built: "build_with_payload (fst ?send) (Inr (snd ?send)) = Ok demo_raw"
    by (simp add: build_with_payload_Ok_iff buildable_def built_def builder_shapes builder_steps
        demo_raw_def demo_header_def header_new_def)
  have hdr: "mb_header (fst ?send) = demo_header"
    by (simp add: builder_shapes builder_steps demo_header_def)
  note sent = demo_raw_to_bytes
  moreover have "usize_len (frame_bytes demo_frame) \<le> c_max_frame_size codec"
    by (simp add: usize_len_def codec_def codec_new_def DEFAULT_MAX_MESSAGE_SIZE_def)
  ultimately have written: "encode_all (codec_encode_raw demo_deps codec) [demo_raw, demo_raw] [] = (?bs, Ok ())"
    by (simp add: codec_raw.accepts)
  obtain ms :: "(nat, nat) message list"
    where "feed (decoder_decode demo_deps) decoder [] [take 50 ?bs, drop 50 ?bs] [] = Some ((decoder, []), Ok ms)"
      and ms: "list_all2 (arrives_as demo_deps) [?send, ?send] ms"
    using session_delivery [OF nom_laws_demo _ _ written, of "[?send, ?send]" "[take 50 ?bs, drop 50 ?bs]"]
      sent built demo_raw_encodable demo_raw_decodes
    by (auto simp del: take_append drop_append)
  moreover have "length ms = 2 \<and> (\<forall>m \<in> set ms. snd (m_header demo_deps m) = Ok demo_header)"
    using ms hdr by (auto simp: list_all2_Cons1)
  ultimately show ?thesis by blast
qed

end
